(* ===== verification/Prelude.thy ===== *)
theory Prelude
  imports Complex_Main "HOL-Library.Sublist"
begin

text \<open>
  Shared vocabulary of the development: the names of the model's basic types, the
  collections of rewrite rules the component theories fill, and generic facts on lists,
  association lists and options that several components use.
\<close>

section \<open>Collections of rules\<close>

named_theorems js_simps
  "evaluation rules of the model of the JavaScript built-ins (parseFloat, JSON.parse, member access)"

named_theorems handler_simps
  "evaluation rules of the request handlers and the snapshot store"

section \<open>Names of the model's types\<close>

type_synonym path = string
  \<comment> \<open>an absolute file name, as \<open>path.join\<close> produces it\<close>

type_synonym ('k, 'v) alist = "('k \<times> 'v) list"
  \<comment> \<open>the own properties of a JavaScript object, in insertion order\<close>

section \<open>Association lists that keep insertion order\<close>

text \<open>
  Writing a property of a JavaScript object replaces the value in place when the key is
  present and appends the pair otherwise; the order of keys is the order of their first
  insertion. \<open>al_put\<close> is that update, \<open>map_of\<close> the lookup.
\<close>

fun al_put :: "('k, 'v) alist \<Rightarrow> 'k \<Rightarrow> 'v \<Rightarrow> ('k, 'v) alist" where
  "al_put [] k v = [(k, v)]"
| "al_put ((k', v') # ps) k v =
     (if k' = k then (k, v) # ps else (k', v') # al_put ps k v)"

lemma map_of_al_put [simp]: "map_of (al_put ps k v) = (map_of ps)(k \<mapsto> v)"
  by (induction ps) (auto simp: fun_eq_iff)

lemma keys_al_put [simp]: "map fst (al_put ps k v) =
  (if k \<in> set (map fst ps) then map fst ps else map fst ps @ [k])"
proof (induction ps)
  case Nil
  then show ?case by simp
next
  case (Cons p ps)
  then show ?case by (cases p) (auto simp: image_iff)
qed

lemma distinct_al_put [simp]: "distinct (map fst ps) \<Longrightarrow> distinct (map fst (al_put ps k v))"
  by (simp add: image_iff)

lemma set_al_put: "set (al_put ps k v) \<subseteq> insert (k, v) (set ps)"
  by (induction ps k v rule: al_put.induct) auto

lemma al_put_fresh: "k \<notin> fst ` set ps \<Longrightarrow> al_put ps k v = ps @ [(k, v)]"
  by (induction ps) auto

lemma length_al_put: "length (al_put ps k v) \<le> Suc (length ps)"
  by (induction ps) auto

section \<open>Suffixes of strings\<close>

text \<open>Two strings with different last characters differ whatever precedes them.\<close>

lemma append_neq_by_last:
  assumes "ys \<noteq> []" and "ws \<noteq> []" and "last ys \<noteq> last ws"
  shows "xs @ ys \<noteq> zs @ ws"
proof
  assume "xs @ ys = zs @ ws"
  then have "last (xs @ ys) = last (zs @ ws)" by simp
  with assms show False by simp
qed

text \<open>Equal strings have equal suffixes: the last \<open>n\<close> characters decide.\<close>

lemma append_eq_take_rev:
  assumes "xs @ ys = zs @ ws" and "n \<le> length ys" and "n \<le> length ws"
  shows "take n (rev ys) = take n (rev ws)"
proof -
  have "take n (rev (xs @ ys)) = take n (rev ys)" using assms(2) by simp
  moreover have "take n (rev (zs @ ws)) = take n (rev ws)" using assms(3) by simp
  ultimately show ?thesis using assms(1) by simp
qed

section \<open>Options\<close>

lemma case_option_same [simp]: "(case x of None \<Rightarrow> y | Some _ \<Rightarrow> y) = y"
  by (cases x) simp_all

end
