(* ===== verification/Json.thy ===== *)
theory Json
  imports Prelude
begin

text \<open>
  The values the server handles: JavaScript values that come out of \<open>JSON.parse\<close>
  (the snapshot file read by \<open>require\<close>, the request body parsed by \<open>express.json\<close>).
  Numbers are kept as exact decimals \<open>m \<cdot> 10^e\<close>, as written in the JSON text;
  the double rounding of V8 is not modelled. Objects are association lists with distinct
  keys in insertion order, as \<open>JSON.parse\<close> builds them (a repeated key keeps its first
  position and its last value). Reading a property of \<open>null\<close> raises a TypeError.
\<close>

section \<open>Exact decimal numbers\<close>

datatype dec = Dec int int
  \<comment> \<open>\<open>Dec m e\<close> is the number \<open>m \<cdot> 10^e\<close>\<close>

fun dec_val :: "dec \<Rightarrow> real" where
  "dec_val (Dec m e) = of_int m * 10 powi e"

text \<open>The canonical form: no trailing zero in the mantissa, and zero as \<open>Dec 0 0\<close>.\<close>

function norm_dec :: "dec \<Rightarrow> dec" where
  "norm_dec (Dec m e) =
     (if m = 0 then Dec 0 0
      else if m mod 10 = 0 then norm_dec (Dec (m div 10) (e + 1))
      else Dec m e)"
  by pat_completeness auto
termination
  by (relation "measure (\<lambda>d. case d of Dec m e \<Rightarrow> nat \<bar>m\<bar>)") auto

declare norm_dec.simps [simp del]

lemma dec_val_shift:
  assumes "m mod 10 = 0"
  shows "(of_int (m div 10) :: real) * 10 powi (e + 1) = of_int m * 10 powi e"
proof -
  from assms have m: "m = (m div 10) * 10" by presburger
  have "(of_int (m div 10) :: real) * 10 powi (e + 1) = of_int (m div 10) * (10 powi e * 10)"
    by (simp add: power_int_add)
  also have "\<dots> = of_int ((m div 10) * 10) * 10 powi e"
    by simp
  finally show ?thesis using m by simp
qed

lemma dec_val_norm_dec [simp]: "dec_val (norm_dec d) = dec_val d"
proof (induction d rule: norm_dec.induct)
  case (1 m e)
  then show ?case
    by (simp add: norm_dec.simps [of m e] dec_val_shift)
qed

lemma norm_dec_idem [simp]: "norm_dec (norm_dec d) = norm_dec d"
proof (induction d rule: norm_dec.induct)
  case (1 m e)
  then show ?case
    by (auto simp: norm_dec.simps [of m e] norm_dec.simps [of 0 0])
qed

section \<open>JSON values\<close>

datatype json =
    JNull
  | JBool bool
  | JNum dec
  | JStr string
  | JArr "json list"
  | JObj "(string, json) alist"

section \<open>JavaScript errors\<close>

text \<open>
  The exceptions the server's code can meet: a TypeError (reading a property of
  \<open>null\<close>, calling a value that is not a function), a SyntaxError of \<open>JSON.parse\<close>,
  a file-system error of a synchronous \<open>fs\<close> call (code and path), and the
  \<open>MODULE_NOT_FOUND\<close> error of \<open>require.resolve\<close>.
\<close>

datatype js_error =
    TypeError string
  | SyntaxError string
  | FsError string path
  | ModuleNotFound path

section \<open>Well-formed values\<close>

text \<open>The values a JavaScript program can hold: no object has two properties of the same
  name, at any depth.\<close>

fun wf_json :: "json \<Rightarrow> bool" where
  "wf_json (JArr vs) = (\<forall>v \<in> set vs. wf_json v)"
| "wf_json (JObj ps) = (distinct (map fst ps) \<and> (\<forall>p \<in> set ps. wf_json (snd p)))"
| "wf_json _ = True"

text \<open>The values whose every number is finite as a JavaScript number: \<open>JSON.parse\<close>
  rounds a numeral to the nearest binary64 value, which is Infinity exactly when the
  magnitude is at least \<open>2^1024 - 2^970\<close> (halfway between the largest finite double and
  \<open>2^1024\<close>), and \<open>JSON.stringify\<close> writes a non-finite number as \<open>null\<close>. Numbers
  of the model are exact decimals, so statements about printing and reading back hold of
  the program only for these values.\<close>

fun json_finite :: "json \<Rightarrow> bool" where
  "json_finite (JNum d) = (\<bar>dec_val d\<bar> < 2 ^ 1024 - 2 ^ 970)"
| "json_finite (JArr vs) = (\<forall>v \<in> set vs. json_finite v)"
| "json_finite (JObj ps) = (\<forall>p \<in> set ps. json_finite (snd p))"
| "json_finite _ = True"

section \<open>Member access\<close>

text \<open>
  \<open>v.k\<close> on a value that came from JSON text: own property of an object, \<open>undefined\<close>
  when absent, TypeError on \<open>null\<close>. On numbers, strings, booleans and arrays the
  lookup goes to the built-in prototypes; the server reads only \<open>latitude\<close>,
  \<open>longitude\<close> and \<open>filter\<close>, and no prototype of a primitive defines the first two,
  so they read as \<open>undefined\<close> there.
\<close>

datatype jsval = Undefined | Val json

definition null_read_error :: "string \<Rightarrow> js_error" where
  "null_read_error k =
     TypeError (''Cannot read properties of null (reading '' @ [CHR 0x27] @ k @ [CHR 0x27] @ '')'')"

fun get_member :: "json \<Rightarrow> string \<Rightarrow> js_error + jsval" where
  "get_member JNull k = Inl (null_read_error k)"
| "get_member (JObj ps) k = Inr (case map_of ps k of None \<Rightarrow> Undefined | Some v \<Rightarrow> Val v)"
| "get_member _ k = Inr Undefined"

lemma get_member_Inl_iff: "(\<exists>e. get_member v k = Inl e) \<longleftrightarrow> v = JNull"
  by (cases v) auto

end
