(* ===== verification/Js_Builtins.thy ===== *)
theory Js_Builtins
  imports Json
begin

text \<open>
  The JavaScript built-ins the radius handler calls on its query parameters:
  truthiness (the guard \<open>!latitude || !longitude\<close>), the string conversion that
  \<open>parseFloat\<close> applies to its argument, and \<open>parseFloat\<close> itself
  (ECMAScript, \<open>parseFloat\<close>: skip leading white space, read the longest prefix that is a
  StrDecimalLiteral, NaN when there is none). Numbers are exact decimals or the three
  special values; strings are byte strings.
\<close>

section \<open>Numbers\<close>

datatype jsnum = Fin dec | PosInf | NegInf | NaN

fun num_real :: "jsnum \<Rightarrow> real option" where
  "num_real (Fin d) = Some (dec_val d)"
| "num_real _ = None"
  \<comment> \<open>a finite value, or \<open>None\<close> for NaN and the infinities\<close>

section \<open>Query parameter values\<close>

text \<open>
  What the query-string parser puts in \<open>req.query.k\<close>: a string, an array of strings
  (the key repeated, or \<open>k[]=\<dots>\<close>), or an object (\<open>k[a]=\<dots>\<close>).
\<close>

datatype qval = QStr string | QArr "string list" | QObj "(string, string) alist"

type_synonym query = "(string, qval) alist"

fun truthy :: "qval option \<Rightarrow> bool" where
  "truthy None = False"
| "truthy (Some (QStr s)) = (s \<noteq> [])"
| "truthy (Some (QArr _)) = True"
| "truthy (Some (QObj _)) = True"
  \<comment> \<open>\<open>undefined\<close> and the empty string are falsy; arrays and objects are truthy\<close>

fun join_comma :: "string list \<Rightarrow> string" where
  "join_comma [] = []"
| "join_comma [s] = s"
| "join_comma (s # ss) = s @ '','' @ join_comma ss"

text \<open>
  \<open>String(v)\<close> of a query value. An object from the query parser (Express 4's \<open>qs\<close>
  with \<open>allowPrototypes\<close>) may have an own member \<open>toString\<close>, a string and so not
  callable; \<open>ToPrimitive\<close> then falls back to \<open>Object.prototype.valueOf\<close>, which
  returns the object itself, and throws a TypeError. An own \<open>valueOf\<close> alone is never
  consulted, since the inherited \<open>toString\<close> answers first.
\<close>

fun to_string :: "qval \<Rightarrow> js_error + string" where
  "to_string (QStr s) = Inr s"
| "to_string (QArr ss) = Inr (join_comma ss)"
| "to_string (QObj ps) =
     (if ''toString'' \<in> fst ` set ps then Inl (TypeError ''Cannot convert object to primitive value'')
      else Inr ''[object Object]'')"

section \<open>parseFloat\<close>

definition is_digit :: "char \<Rightarrow> bool" where
  "is_digit c \<longleftrightarrow> c \<in> set ''0123456789''"

definition digit_val :: "char \<Rightarrow> int" where
  "digit_val c = int (of_char c) - int (of_char CHR ''0'')"

definition digits_int :: "char list \<Rightarrow> int" where
  "digits_int ds = foldl (\<lambda>a d. 10 * a + digit_val d) 0 ds"

definition is_js_space :: "char \<Rightarrow> bool" where
  "is_js_space c \<longleftrightarrow> c \<in> set [CHR 0x09, CHR 0x0A, CHR 0x0B, CHR 0x0C, CHR 0x0D, CHR 0x20]"
  \<comment> \<open>the ASCII members of WhiteSpace and LineTerminator\<close>

text \<open>The exponent part: \<open>e\<close> or \<open>E\<close>, an optional sign, at least one digit; else none.\<close>

fun exponent_part :: "string \<Rightarrow> int" where
  "exponent_part (c # r) =
     (if c = CHR ''e'' \<or> c = CHR ''E'' then
        (let (sg, r') = (case r of
                           d # r'' \<Rightarrow> if d = CHR ''-'' then (-1, r'')
                                     else if d = CHR ''+'' then (1, r'') else (1, r)
                         | [] \<Rightarrow> (1, r));
             ds = takeWhile is_digit r'
         in if ds = [] then 0 else sg * digits_int ds)
      else 0)"
| "exponent_part [] = 0"

text \<open>
  StrUnsignedDecimalLiteral: \<open>Infinity\<close>, or digits with an optional fraction (either
  side of the point may be empty, not both) and an optional exponent.
\<close>

definition parse_unsigned :: "string \<Rightarrow> jsnum option" where
  "parse_unsigned s =
     (if take 8 s = ''Infinity'' then Some PosInf
      else
        (let ip = takeWhile is_digit s; r1 = dropWhile is_digit s;
             (fp, r2) = (case r1 of
                           c # r \<Rightarrow> if c = CHR ''.'' then (takeWhile is_digit r, dropWhile is_digit r)
                                   else ([], r1)
                         | [] \<Rightarrow> ([], r1))
         in if ip = [] \<and> fp = [] then None
            else Some (Fin (norm_dec (Dec (digits_int (ip @ fp))
                                          (exponent_part r2 - int (length fp)))))))"

fun negate :: "jsnum \<Rightarrow> jsnum" where
  "negate (Fin (Dec m e)) = Fin (Dec (- m) e)"
| "negate PosInf = NegInf"
| "negate NegInf = PosInf"
| "negate NaN = NaN"

definition parseFloat :: "string \<Rightarrow> jsnum" where
  "parseFloat str =
     (let t = dropWhile is_js_space str;
          r = (case t of
                 c # u \<Rightarrow> if c = CHR ''-'' then map_option negate (parse_unsigned u)
                         else if c = CHR ''+'' then parse_unsigned u
                         else parse_unsigned t
               | [] \<Rightarrow> None)
      in case r of None \<Rightarrow> NaN | Some n \<Rightarrow> n)"

lemmas parseFloat_eval [js_simps] =
  parseFloat_def parse_unsigned_def is_digit_def digits_int_def digit_val_def is_js_space_def

section \<open>Characters by their codes\<close>

lemma char_eq_of_char: "c = d \<longleftrightarrow> (of_char c :: nat) = of_char d"
  by (simp add: of_char_eq_iff)

lemma is_digit_iff: "is_digit c \<longleftrightarrow> 48 \<le> (of_char c :: nat) \<and> (of_char c :: nat) < 58"
  unfolding is_digit_def by (simp add: char_eq_of_char [of c]) presburger

end
