(* ===== verification/Http.thy ===== *)
theory Http
  imports Js_Builtins
begin

text \<open>
  The HTTP boundary as the handlers see it: a response is a status with a JSON body
  (\<open>res.status(n).json(v)\<close>), or the page of Express's default error handler when a
  handler throws synchronously (status 500, the error's description in the page).
  Array.prototype.filter with a callback that may throw is modelled here too, since
  it is the loop of the radius handler.
\<close>

text \<open>The errors of the JSON body parser, which carry their own status (http-errors).\<close>

datatype body_error =
    EntityTooLarge   \<comment> \<open>413: the raw body is longer than the limit\<close>
  | StrictViolation  \<comment> \<open>400: the body does not start with \<open>{\<close> or \<open>[\<close>\<close>
  | InvalidJson      \<comment> \<open>400: \<open>JSON.parse\<close> throws\<close>

datatype response =
    Resp nat json
  | ErrorPage js_error
    \<comment> \<open>Express's final handler: status 500 for an error without a status\<close>
  | NotFound string string
    \<comment> \<open>Express's final handler for an unmatched route: 404, \<open>Cannot METHOD path\<close>\<close>
  | BodyErrorPage nat body_error
    \<comment> \<open>Express's final handler for an error with a status of its own\<close>
  | OptionsAllow string
    \<comment> \<open>Express's router for an OPTIONS request no route handles: 200, the methods of the
       routes on the path in the \<open>Allow\<close> header and as the body\<close>

fun status :: "response \<Rightarrow> nat" where
  "status (Resp n _) = n"
| "status (ErrorPage _) = 500"
| "status (NotFound _ _) = 404"
| "status (BodyErrorPage n _) = n"
| "status (OptionsAllow _) = 200"

definition message_body :: "string \<Rightarrow> json" where
  "message_body m = JObj [(''message'', JStr m)]"

section \<open>Array.prototype.filter\<close>

text \<open>
  The callback runs on the elements in order; the first exception it throws ends the
  loop and propagates; otherwise the kept elements keep their order.
\<close>

fun js_filter :: "('a \<Rightarrow> js_error + bool) \<Rightarrow> 'a list \<Rightarrow> js_error + 'a list" where
  "js_filter p [] = Inr []"
| "js_filter p (x # xs) =
     (case p x of
        Inl e \<Rightarrow> Inl e
      | Inr b \<Rightarrow> (case js_filter p xs of
                   Inl e \<Rightarrow> Inl e
                 | Inr ys \<Rightarrow> Inr (if b then x # ys else ys)))"

text \<open>When the callback never throws, \<open>js_filter\<close> is HOL's \<open>filter\<close>.\<close>

lemma js_filter_total:
  "(\<forall>x \<in> set xs. \<exists>b. p x = Inr b) \<Longrightarrow> js_filter p xs = Inr (filter (\<lambda>x. p x = Inr True) xs)"
  by (induction xs) auto

lemma js_filter_Inr:
  "js_filter p xs = Inr ys \<Longrightarrow> (\<forall>x \<in> set xs. \<exists>b. p x = Inr b) \<and> ys = filter (\<lambda>x. p x = Inr True) xs"
proof (induction xs arbitrary: ys)
  case Nil
  then show ?case by simp
next
  case (Cons x xs)
  then show ?case by (auto split: sum.splits)
qed

text \<open>It throws exactly the error of the first element on which the callback throws.\<close>

lemma js_filter_Inl:
  "js_filter p (pre @ x # post) = Inl e"
  if "\<forall>y \<in> set pre. \<exists>b. p y = Inr b" and "p x = Inl e"
  using that
proof (induction pre)
  case Nil
  then show ?case by (auto split: sum.splits)
next
  case (Cons y pre)
  then show ?case by (auto split: sum.splits)
qed

lemma js_filter_throws:
  "\<exists>x \<in> set xs. \<exists>e. p x = Inl e \<Longrightarrow> \<exists>e. js_filter p xs = Inl e"
  by (induction xs) (fastforce split: sum.splits)+

end
