(* ===== verification/Distance.thy ===== *)
theory Distance
  imports Js_Builtins
begin

text \<open>
  The distance function the filter callback calls (src/server.js, lines 60--63):
  \<open>getDistance(point, centre)\<close> from the geolib package, which is not part of the
  repository. It is modelled from the specification (section 4.2, the Distance Function):
  the great-circle distance on a sphere of mean radius 6371000 m, by the spherical law of
  cosines with the cosine clamped to \<open>[-1, 1]\<close> (the form geolib 3 evaluates), over the
  reals; no validation of ranges; a coordinate that is not a finite number makes the
  distance NaN (sections 4.3 and 7), written \<open>None\<close>. The callback hands it the record's
  members \<open>property.latitude\<close> and \<open>property.longitude\<close> as they are (any JavaScript
  value) and the two numbers that \<open>parseFloat\<close> made of the query parameters.
\<close>

section \<open>The spherical model of section 4.2\<close>

definition earth_radius :: real where
  "earth_radius = 6371000"

definition toRad :: "real \<Rightarrow> real" where
  "toRad x = x * pi / 180"

definition clamp_unit :: "real \<Rightarrow> real" where
  "clamp_unit x = max (- 1) (min 1 x)"

fun great_circle :: "real \<times> real \<Rightarrow> real \<times> real \<Rightarrow> real" where
  "great_circle (lat1, lon1) (lat2, lon2) =
     arccos (clamp_unit (sin (toRad lat2) * sin (toRad lat1)
                         + cos (toRad lat2) * cos (toRad lat1) * cos (toRad lon1 - toRad lon2)))
     * earth_radius"

text \<open>A NaN or infinite coordinate makes the distance NaN, written \<open>None\<close>.\<close>

fun sphere_distance :: "jsnum \<times> jsnum \<Rightarrow> jsnum \<times> jsnum \<Rightarrow> real option" where
  "sphere_distance (lat1, lon1) (lat2, lon2) =
     (case (num_real lat1, num_real lon1, num_real lat2, num_real lon2) of
        (Some a, Some b, Some c, Some d) \<Rightarrow> Some (great_circle (a, b) (c, d))
      | _ \<Rightarrow> None)"

text \<open>A record's coordinate is a number when it is a JSON number; anything else
  (absent, a string, \<open>null\<close>, an object) is malformed and reads as NaN.\<close>

fun geo_coord :: "jsval \<Rightarrow> jsnum" where
  "geo_coord (Val (JNum d)) = Fin d"
| "geo_coord _ = NaN"

definition getDistance :: "jsval \<times> jsval \<Rightarrow> jsnum \<times> jsnum \<Rightarrow> real option" where
  "getDistance p c = sphere_distance (geo_coord (fst p), geo_coord (snd p)) c"

section \<open>Properties of the spherical model\<close>

lemma clamp_unit_bounds: "- 1 \<le> clamp_unit x \<and> clamp_unit x \<le> 1"
  by (simp add: clamp_unit_def)

lemma great_circle_same [simp]: "great_circle p p = 0"
proof (cases p)
  case (Pair a b)
  have "sin (toRad a) * sin (toRad a) + cos (toRad a) * cos (toRad a) * cos (toRad b - toRad b) = 1"
    using sin_cos_squared_add3 [of "toRad a"] by (simp add: add.commute)
  then show ?thesis using Pair by (simp add: clamp_unit_def)
qed

lemma great_circle_sym: "great_circle p q = great_circle q p"
proof (cases p; cases q)
  fix a b c d assume pq: "p = (a, b)" "q = (c, d)"
  have "cos (toRad b - toRad d) = cos (toRad d - toRad b)"
    by (metis cos_minus minus_diff_eq)
  then show ?thesis using pq by (simp add: mult.commute mult.left_commute)
qed

lemma great_circle_bounds: "0 \<le> great_circle p q \<and> great_circle p q \<le> pi * earth_radius"
proof (cases p; cases q)
  fix a b c d assume pq: "p = (a, b)" "q = (c, d)"
  define y where "y = clamp_unit (sin (toRad c) * sin (toRad a)
                         + cos (toRad c) * cos (toRad a) * cos (toRad b - toRad d))"
  have "- 1 \<le> y" "y \<le> 1"
    using clamp_unit_bounds y_def by blast+
  then have "0 \<le> arccos y \<and> arccos y \<le> pi"
    by (rule arccos_bounded)
  moreover have "great_circle p q = arccos y * earth_radius"
    using pq y_def by simp
  ultimately show ?thesis by (simp add: earth_radius_def)
qed

text \<open>A lower bound from an upper bound on the cosine; the scenario of section 8 (London
  from New York) as an instance.\<close>

lemma great_circle_ge:
  assumes "0 \<le> t" and "t \<le> pi"
    and "sin (toRad c) * sin (toRad a) + cos (toRad c) * cos (toRad a) * cos (toRad b - toRad d) \<le> cos t"
  shows "t * earth_radius \<le> great_circle (a, b) (c, d)"
proof -
  let ?x = "sin (toRad c) * sin (toRad a) + cos (toRad c) * cos (toRad a) * cos (toRad b - toRad d)"
  have "clamp_unit ?x \<le> cos t" using assms(3) cos_ge_minus_one [of t] by (simp add: clamp_unit_def)
  then have "arccos (cos t) \<le> arccos (clamp_unit ?x)"
    using clamp_unit_bounds [of ?x] cos_le_one [of t] by (intro arccos_le_arccos) simp_all
  then have "t \<le> arccos (clamp_unit ?x)" using arccos_cos [OF assms(1,2)] by simp
  then show ?thesis by (simp add: earth_radius_def)
qed

lemma cos_law_split:
  fixes x y z :: real
  shows "sin y * sin x + cos y * cos x * cos z = cos (y - x) - cos y * cos x * (1 - cos z)"
  using cos_diff [of y x] by (simp add: algebra_simps)

lemma cos_deg_bounds:
  "1 / 2 \<le> cos (toRad 51.5)" "sqrt 2 / 2 \<le> cos (toRad 40.7)" "cos (toRad (- 0.1) - toRad (- 74)) \<le> 1 / 2"
proof -
  have "cos (pi / 3) \<le> cos (toRad 51.5)"
    by (rule cos_monotone_0_pi_le) (simp_all add: toRad_def field_simps)
  then show "1 / 2 \<le> cos (toRad 51.5)" by (simp add: cos_60)
  have "cos (pi / 4) \<le> cos (toRad 40.7)"
    by (rule cos_monotone_0_pi_le) (simp_all add: toRad_def field_simps)
  then show "sqrt 2 / 2 \<le> cos (toRad 40.7)" by (simp add: cos_45)
  have e: "toRad (- 0.1) - toRad (- 74) = 73.9 * pi / 180" by (simp add: toRad_def field_simps)
  have "cos (73.9 * pi / 180) \<le> cos (pi / 3)"
    by (rule cos_monotone_0_pi_le) (simp_all add: field_simps)
  then show "cos (toRad (- 0.1) - toRad (- 74)) \<le> 1 / 2" by (simp add: e cos_60)
qed

lemma london_new_york_far: "65 / 0.000621371 < great_circle (51.5, - 0.1) (40.7, - 74)"
proof -
  let ?A = "cos (toRad 40.7)" and ?B = "cos (toRad 51.5)" and ?C = "cos (toRad (- 0.1) - toRad (- 74))"
  have A0: "0 \<le> ?A" by (rule order_trans [OF _ cos_deg_bounds(2)]) simp
  have ab: "sqrt 2 / 2 * (1 / 2) \<le> ?A * ?B"
    using cos_deg_bounds(1,2) A0 by (intro mult_mono) simp_all
  have AB0: "0 \<le> ?A * ?B" using A0 cos_deg_bounds(1) by simp
  have prod: "sqrt 2 / 2 * (1 / 2) * (1 / 2) \<le> ?A * ?B * (1 - ?C)"
    using mult_mono [OF ab _ AB0, of "1 / 2" "1 - ?C"] cos_deg_bounds(3) by simp
  have sq: "1 - sqrt 2 / 8 \<le> sqrt 3 / 2"
  proof -
    have "1.4 \<le> sqrt (2::real)" by (rule real_le_rsqrt) (simp add: power2_eq_square)
    moreover have "1.7 \<le> sqrt (3::real)" by (rule real_le_rsqrt) (simp add: power2_eq_square)
    ultimately show ?thesis by simp
  qed
  have split: "sin (toRad 40.7) * sin (toRad 51.5) + ?A * ?B * ?C = cos (toRad 40.7 - toRad 51.5) - ?A * ?B * (1 - ?C)"
    by (rule cos_law_split)
  have "sin (toRad 40.7) * sin (toRad 51.5) + ?A * ?B * ?C \<le> sqrt 3 / 2"
    using split prod sq cos_le_one [of "toRad 40.7 - toRad 51.5"] by linarith
  then have "sin (toRad 40.7) * sin (toRad 51.5) + ?A * ?B * ?C \<le> cos (pi / 6)"
    by (simp add: cos_30)
  then have "pi / 6 * earth_radius \<le> great_circle (51.5, - 0.1) (40.7, - 74)"
    by (intro great_circle_ge) simp_all
  moreover have "65 / 0.000621371 < pi / 6 * earth_radius"
    using pi_ge_two by (simp add: earth_radius_def)
  ultimately show ?thesis by linarith
qed

lemma getDistance_numbers [simp]:
  "getDistance (Val (JNum a), Val (JNum b)) (Fin c, Fin d) =
     Some (great_circle (dec_val a, dec_val b) (dec_val c, dec_val d))"
  by (simp add: getDistance_def)

lemma getDistance_NaN [simp]: "getDistance p (NaN, y) = None" "getDistance p (y, NaN) = None"
  by (auto simp: getDistance_def split: option.splits)

text \<open>The testable properties of the Distance Function (section 8) on numeric coordinates: it is symmetric, zero between a point and itself, and always a number (never NaN) between 0 and half the circumference of the sphere of mean radius 6371000 m.\<close>

theorem getDistance_spec:
  "getDistance (Val (JNum a), Val (JNum b)) (Fin c, Fin d) = getDistance (Val (JNum c), Val (JNum d)) (Fin a, Fin b) \<and>
   getDistance (Val (JNum a), Val (JNum b)) (Fin a, Fin b) = Some 0 \<and>
   (\<exists>x. getDistance (Val (JNum a), Val (JNum b)) (Fin c, Fin d) = Some x \<and> 0 \<le> x \<and> x \<le> pi * 6371000)"
  using great_circle_sym [of "(dec_val a, dec_val b)" "(dec_val c, dec_val d)"]
    great_circle_bounds [of "(dec_val a, dec_val b)" "(dec_val c, dec_val d)"]
  by (simp add: earth_radius_def del: great_circle.simps)

end
