(* ===== verification/Radius_Query.thy ===== *)
theory Radius_Query
  imports Http Distance
begin

text \<open>
  The radius query of src/server.js (lines 52--70): the handler of
  \<open>GET /properties_within_radius\<close>, its guard on the query parameters, and the filter
  callback that passes the record's \<open>latitude\<close> and \<open>longitude\<close> members and the
  parsed centre to \<open>getDistance\<close> (theory Distance), converts the result to miles and
  keeps the record when it is at most 65. The specification's query (\<open>radius_query_spec\<close>)
  is stated over real coordinates; the handler refines it on records with numeric
  coordinates.
\<close>

section \<open>The filter callback (lines 59--67)\<close>

definition meters_to_miles :: "real \<Rightarrow> real" where
  "meters_to_miles d = d * 0.000621371"

text \<open>The arguments of \<open>getDistance\<close> are evaluated in order: \<open>property.latitude\<close> and
  \<open>property.longitude\<close> (a \<open>null\<close> record throws at the first), then the centre
  \<open>parseFloat(latitude)\<close>, \<open>parseFloat(longitude)\<close>, whose string conversion may throw;
  \<open>center\<close> is the outcome of that evaluation. A NaN distance compares false against 65.\<close>

definition within_radius :: "js_error + jsnum \<times> jsnum \<Rightarrow> json \<Rightarrow> js_error + bool" where
  "within_radius center property =
     (case get_member property ''latitude'' of
        Inl e \<Rightarrow> Inl e
      | Inr lat \<Rightarrow>
          (case get_member property ''longitude'' of
             Inl e \<Rightarrow> Inl e
           | Inr lon \<Rightarrow>
               (case center of
                  Inl e \<Rightarrow> Inl e
                | Inr c \<Rightarrow>
                    (case getDistance (lat, lon) c of
                       None \<Rightarrow> Inr False
                     | Some distance \<Rightarrow> Inr (meters_to_miles distance \<le> 65)))))"

section \<open>The handler (lines 52--70)\<close>

fun param_string :: "qval option \<Rightarrow> js_error + string" where
  "param_string None = Inr ''undefined''"
| "param_string (Some v) = to_string v"

definition query_center :: "query \<Rightarrow> js_error + jsnum \<times> jsnum" where
  "query_center q =
     (case param_string (map_of q ''latitude'') of
        Inl e \<Rightarrow> Inl e
      | Inr a \<Rightarrow>
          (case param_string (map_of q ''longitude'') of
             Inl e \<Rightarrow> Inl e
           | Inr b \<Rightarrow> Inr (parseFloat a, parseFloat b)))"

definition missing_params_body :: json where
  "missing_params_body = message_body ''Latitude and longitude are required parameters.''"

definition properties_within_radius :: "json \<Rightarrow> query \<Rightarrow> response" where
  "properties_within_radius snapshotData q =
     (if \<not> truthy (map_of q ''latitude'') \<or> \<not> truthy (map_of q ''longitude'')
      then Resp 400 missing_params_body
      else
        (case snapshotData of
           JArr xs \<Rightarrow>
             (case js_filter (within_radius (query_center q)) xs of
                Inl e \<Rightarrow> ErrorPage e
              | Inr ys \<Rightarrow> Resp 200 (JObj [(''propertiesWithinRadius'', JArr ys)]))
         | JNull \<Rightarrow> ErrorPage (null_read_error ''filter'')
         | _ \<Rightarrow> ErrorPage (TypeError ''snapshotData.filter is not a function'')))"

section \<open>The specification of the radius query (spec, sections 3 and 4.3)\<close>

text \<open>A Record of the specification has a numeric latitude and longitude; the query keeps,
  in snapshot order, the records whose distance from the centre (the Distance Function of
  section 4.2), converted to miles, is at most 65. The conversion is the one section 4.2
  writes out, metres \<open>\<times> 0.000621371\<close>; its other form, 1 mile = 1609.34 m, is not
  exactly the same factor (\<open>within_radius_iff\<close> gives the bound the code keeps). The
  centre is a pair of finite numbers (section 4.3).\<close>

definition record_coordinate :: "json \<Rightarrow> (dec \<times> dec) option" where
  "record_coordinate r =
     (case r of
        JObj ps \<Rightarrow>
          (case (map_of ps ''latitude'', map_of ps ''longitude'') of
             (Some (JNum a), Some (JNum b)) \<Rightarrow> Some (a, b)
           | _ \<Rightarrow> None)
      | _ \<Rightarrow> None)"

definition radius_query_spec :: "real \<times> real \<Rightarrow> json list \<Rightarrow> json list" where
  "radius_query_spec center snapshot =
     filter (\<lambda>r. case record_coordinate r of
                   None \<Rightarrow> False
                 | Some (a, b) \<Rightarrow> great_circle (dec_val a, dec_val b) center * 0.000621371 \<le> 65)
            snapshot"

section \<open>Properties\<close>

lemma within_radius_JNull: "within_radius c JNull = Inl (null_read_error ''latitude'')"
  by (simp add: within_radius_def)

lemma meters_to_miles_le_iff: "meters_to_miles d \<le> 65 \<longleftrightarrow> d \<le> 65 / 0.000621371"
  by (simp add: meters_to_miles_def pos_le_divide_eq)

lemma radius_threshold_meters: "65 * 1609.34 < (65 / 0.000621371 :: real)"
  by simp

text \<open>On a record of the specification, the callback decides as the specification does; on
  any other record but \<open>null\<close> it does not throw.\<close>

lemma within_radius_record:
  assumes "record_coordinate r = Some (a, b)"
  shows "within_radius (Inr (Fin c, Fin d)) r =
           Inr (great_circle (dec_val a, dec_val b) (dec_val c, dec_val d) * 0.000621371 \<le> 65)"
  using assms
  by (auto simp: record_coordinate_def within_radius_def meters_to_miles_def
           split: json.splits option.splits prod.splits)

lemma within_radius_nan: "r \<noteq> JNull \<Longrightarrow> within_radius (Inr (NaN, y)) r = Inr False"
  by (cases r) (simp_all add: within_radius_def split: option.splits)

lemma properties_within_radius_spec_core:
  assumes "truthy (map_of q ''latitude'')" and "truthy (map_of q ''longitude'')"
    and "query_center q = Inr (Fin c, Fin d)" and "\<forall>r \<in> set xs. record_coordinate r \<noteq> None"
  shows "properties_within_radius (JArr xs) q =
           Resp 200 (JObj [(''propertiesWithinRadius'', JArr (radius_query_spec (dec_val c, dec_val d) xs))])"
proof -
  have cb: "within_radius (Inr (Fin c, Fin d)) r =
              Inr (case record_coordinate r of None \<Rightarrow> False
                   | Some (a, b) \<Rightarrow> great_circle (dec_val a, dec_val b) (dec_val c, dec_val d) * 0.000621371 \<le> 65)"
    if r: "r \<in> set xs" for r
  proof -
    from assms(4) r obtain a b where "record_coordinate r = Some (a, b)" by fastforce
    then show ?thesis using within_radius_record by simp
  qed
  then have "js_filter (within_radius (Inr (Fin c, Fin d))) xs = Inr (radius_query_spec (dec_val c, dec_val d) xs)"
    by (simp add: js_filter_total radius_query_spec_def cong: filter_cong)
  with assms(1-3) show ?thesis by (simp add: properties_within_radius_def)
qed

text \<open>The records and the query of the scenarios of section 8.\<close>

definition ny_record :: json where
  "ny_record = JObj [(''latitude'', JNum (Dec 407 (-1))), (''longitude'', JNum (Dec (-74) 0)), (''id'', JStr ''ny'')]"

definition london_record :: json where
  "london_record = JObj [(''latitude'', JNum (Dec 515 (-1))), (''longitude'', JNum (Dec (-1) (-1))), (''id'', JStr ''london'')]"

definition ny_query :: query where
  "ny_query = [(''latitude'', QStr ''40.7''), (''longitude'', QStr ''-74.0'')]"

lemma ny_query_center: "query_center ny_query = Inr (Fin (Dec 407 (-1)), Fin (Dec (-74) 0))"
  by (simp add: ny_query_def query_center_def js_simps norm_dec.simps)

lemma london_from_ny: "within_radius (query_center ny_query) london_record = Inr False"
proof -
  have "within_radius (query_center ny_query) london_record =
          Inr (great_circle (51.5, - 0.1) (40.7, - 74) * 0.000621371 \<le> 65)"
    using within_radius_record [of london_record "Dec 515 (-1)" "Dec (-1) (-1)" "Dec 407 (-1)" "Dec (-74) 0"]
    by (simp add: ny_query_center london_record_def record_coordinate_def)
  then show ?thesis using london_new_york_far by (simp add: pos_divide_less_eq)
qed

lemma ny_query_truthy: "truthy (map_of ny_query ''latitude'')" "truthy (map_of ny_query ''longitude'')"
  by (simp_all add: ny_query_def)

lemma radius_query_spec_scenario:
  "radius_query_spec (dec_val (Dec 407 (-1)), dec_val (Dec (-74) 0)) [ny_record, london_record] = [ny_record]"
  using london_new_york_far
  by (simp add: radius_query_spec_def record_coordinate_def ny_record_def london_record_def pos_divide_less_eq
      del: great_circle.simps)

text \<open>C1: The handler refines the radius query of the specification: when both query parameters are present and non-empty, parse to finite numbers, and every snapshot record has a numeric latitude and longitude, the answer is 200 with exactly the records the specification's query keeps (great-circle distance from the centre at most 65 miles), in snapshot order.\<close>

theorem properties_within_radius_refines:
  assumes "truthy (map_of q ''latitude'')" and "truthy (map_of q ''longitude'')"
    and "query_center q = Inr (Fin c, Fin d)" and "\<forall>r \<in> set xs. record_coordinate r \<noteq> None"
  shows "properties_within_radius (JArr xs) q =
           Resp 200 (JObj [(''propertiesWithinRadius'', JArr (radius_query_spec (dec_val c, dec_val d) xs))])"
  using assms by (rule properties_within_radius_spec_core)

theorem properties_within_radius_refines_witness:
  "properties_within_radius (JArr [ny_record, london_record]) ny_query =
     Resp 200 (JObj [(''propertiesWithinRadius'', JArr [ny_record])])"
proof -
  have "properties_within_radius (JArr [ny_record, london_record]) ny_query =
          Resp 200 (JObj [(''propertiesWithinRadius'', JArr (radius_query_spec
             (dec_val (Dec 407 (-1)), dec_val (Dec (-74) 0)) [ny_record, london_record]))])"
    by (rule properties_within_radius_refines [OF ny_query_truthy ny_query_center])
      (simp add: record_coordinate_def ny_record_def london_record_def)
  then show ?thesis by (simp only: radius_query_spec_scenario)
qed

text \<open>C2: On a record with a numeric latitude and longitude and a finite centre, the callback keeps the record exactly when its great-circle distance d from the centre satisfies d <= 65 / 0.000621371 metres (the inclusive bound of 65 miles after the code's conversion).\<close>

theorem within_radius_iff:
  assumes "map_of ps ''latitude'' = Some (JNum la)" and "map_of ps ''longitude'' = Some (JNum lo)"
  shows "within_radius (Inr (Fin c, Fin d)) (JObj ps) =
           Inr (great_circle (dec_val la, dec_val lo) (dec_val c, dec_val d) \<le> 65 / 0.000621371)"
  using assms by (simp add: within_radius_def meters_to_miles_le_iff del: great_circle.simps)

theorem within_radius_iff_witness:
  "within_radius (Inr (Fin (Dec 40 0), Fin (Dec (-74) 0)))
     (JObj [(''latitude'', JNum (Dec 40 0)), (''longitude'', JNum (Dec (-74) 0))]) = Inr True"
  using within_radius_iff [of "[(''latitude'', JNum (Dec 40 0)), (''longitude'', JNum (Dec (-74) 0))]" "Dec 40 0" "Dec (-74) 0" "Dec 40 0" "Dec (-74) 0"]
  by (simp del: great_circle.simps)

text \<open>C20: A null element anywhere in the snapshot array makes every query with both parameters fail with status 500: the callback reads property.latitude of null (or an earlier record already threw). The specification's 'malformed records are silently excluded, never crash the scan' does not hold for null.\<close>

theorem properties_within_radius_null_record:
  assumes "truthy (map_of q ''latitude'')" and "truthy (map_of q ''longitude'')" and "JNull \<in> set xs"
  shows "status (properties_within_radius (JArr xs) q) = 500"
proof -
  have "\<exists>x \<in> set xs. \<exists>e. within_radius (query_center q) x = Inl e"
    using assms(3) within_radius_JNull by blast
  then have "\<exists>e. js_filter (within_radius (query_center q)) xs = Inl e"
    by (rule js_filter_throws)
  with assms(1,2) show ?thesis by (auto simp: properties_within_radius_def)
qed

theorem properties_within_radius_null_record_witness:
  "status (properties_within_radius (JArr [ny_record, JNull]) ny_query) = 500"
  by (rule properties_within_radius_null_record [OF ny_query_truthy]) simp

text \<open>C28: A centre parameter that is not numeric (parseFloat gives NaN) is not rejected: when the latitude converts to NaN and every record has numeric coordinates, the handler answers 200 with an empty list, since a NaN distance compares false against 65.\<close>

theorem properties_within_radius_nan_center:
  assumes "truthy (map_of q ''latitude'')" and "truthy (map_of q ''longitude'')"
    and "query_center q = Inr (NaN, y)" and "\<forall>r \<in> set xs. record_coordinate r \<noteq> None"
  shows "properties_within_radius (JArr xs) q = Resp 200 (JObj [(''propertiesWithinRadius'', JArr [])])"
proof -
  have "within_radius (query_center q) r = Inr False" if "r \<in> set xs" for r
  proof -
    have "r \<noteq> JNull" using assms(4) that by (auto simp: record_coordinate_def)
    then show ?thesis using within_radius_nan [of r y] assms(3) by simp
  qed
  then have "js_filter (within_radius (query_center q)) xs = Inr []"
    by (subst js_filter_total) (auto simp: filter_empty_conv)
  with assms(1,2) show ?thesis by (simp add: properties_within_radius_def)
qed

theorem properties_within_radius_nan_center_witness:
  "properties_within_radius (JArr [ny_record])
     [(''latitude'', QStr ''abc''), (''longitude'', QStr ''-74'')] =
   Resp 200 (JObj [(''propertiesWithinRadius'', JArr [])])"
  by (rule properties_within_radius_nan_center)
    (simp_all add: query_center_def record_coordinate_def ny_record_def js_simps)

text \<open>C29: A query parameter whose string conversion throws (an object with its own toString member, which Express 4's query parser builds from ?latitude[toString]=x) passes the guard, and parseFloat's String() throws inside the filter callback: the handler answers with Express's error page (500) on a non-empty snapshot, with that TypeError unless the first record is null, and 200 with an empty list on an empty snapshot.\<close>

theorem properties_within_radius_param_throws:
  assumes "truthy (map_of q ''latitude'')" and "truthy (map_of q ''longitude'')"
    and "query_center q = Inl e"
  shows "properties_within_radius (JArr xs) q =
           (case xs of
              [] \<Rightarrow> Resp 200 (JObj [(''propertiesWithinRadius'', JArr [])])
            | x # _ \<Rightarrow> ErrorPage (if x = JNull then null_read_error ''latitude'' else e))"
proof (cases xs)
  case Nil
  with assms(1,2) show ?thesis by (simp add: properties_within_radius_def)
next
  case (Cons x ys)
  have "within_radius (Inl e) x = Inl (if x = JNull then null_read_error ''latitude'' else e)"
    by (cases x) (simp_all add: within_radius_def)
  with assms Cons show ?thesis by (simp add: properties_within_radius_def)
qed

theorem properties_within_radius_param_throws_witness:
  "properties_within_radius (JArr [ny_record])
     [(''latitude'', QObj [(''toString'', ''x'')]), (''longitude'', QStr ''-74'')] =
   ErrorPage (TypeError ''Cannot convert object to primitive value'')"
  using properties_within_radius_param_throws
    [of "[(''latitude'', QObj [(''toString'', ''x'')]), (''longitude'', QStr ''-74'')]"
        "TypeError ''Cannot convert object to primitive value''" "[ny_record]"]
  by (simp add: query_center_def ny_record_def)

text \<open>C19: The handler answers 400 exactly when the latitude or the longitude parameter is missing or empty, whatever the snapshot.\<close>

theorem properties_within_radius_400_iff:
  "status (properties_within_radius s q) = 400 \<longleftrightarrow>
     \<not> truthy (map_of q ''latitude'') \<or> \<not> truthy (map_of q ''longitude'')"
  by (auto simp: properties_within_radius_def split: json.splits sum.splits)

theorem properties_within_radius_400_iff_witness:
  "status (properties_within_radius (JArr []) [(''latitude'', QStr ''40.7'')]) = 400"
  by (subst properties_within_radius_400_iff) simp

text \<open>C27: A successful response lists a subsequence of the snapshot: no record is invented and the snapshot order is kept.\<close>

theorem properties_within_radius_subseq:
  assumes "properties_within_radius (JArr xs) q = Resp 200 (JObj [(''propertiesWithinRadius'', JArr ys)])"
  shows "subseq ys xs"
  using assms
  by (auto simp: properties_within_radius_def split: if_splits sum.splits dest!: js_filter_Inr)

theorem properties_within_radius_subseq_witness:
  "properties_within_radius (JArr [ny_record, london_record]) ny_query =
     Resp 200 (JObj [(''propertiesWithinRadius'', JArr [ny_record])]) \<and>
   subseq [ny_record] [ny_record, london_record]"
proof -
  have r: "properties_within_radius (JArr [ny_record, london_record]) ny_query =
          Resp 200 (JObj [(''propertiesWithinRadius'', JArr [ny_record])])"
    using properties_within_radius_spec_core [OF ny_query_truthy ny_query_center, of "[ny_record, london_record]"]
    by (simp only: radius_query_spec_scenario) (simp add: record_coordinate_def ny_record_def london_record_def)
  then have "subseq [ny_record] [ny_record, london_record]" by (rule properties_within_radius_subseq)
  with r show ?thesis by simp
qed

text \<open>C30: When the snapshot is not an array (a JSON object, number, string, boolean or null in the file), every well-formed radius query fails with status 500.\<close>

theorem properties_within_radius_not_array:
  assumes "truthy (map_of q ''latitude'')" and "truthy (map_of q ''longitude'')"
    and "\<forall>xs. snapshotData \<noteq> JArr xs"
  shows "status (properties_within_radius snapshotData q) = 500"
  using assms by (cases snapshotData) (auto simp: properties_within_radius_def)

theorem properties_within_radius_not_array_witness:
  "status (properties_within_radius (JObj []) ny_query) = 500"
  by (rule properties_within_radius_not_array [OF ny_query_truthy]) simp

end
