(* ===== verification/Json_Parse.thy ===== *)
theory Json_Parse
  imports Js_Builtins
begin

text \<open>
  \<open>JSON.parse\<close>, as \<open>require\<close> applies it to a \<open>.json\<close> file after removing a
  byte-order mark (Node's \<open>Module._extensions['.json']\<close>). The text is a byte
  string; the parse is split, as the grammar of RFC 8259 allows, into a lexer
  (white space, punctuation, string and number literals, the three keywords) and a
  deterministic push-down automaton over the tokens. Both recurse structurally or by
  length, so the parser is a total executable function: \<open>None\<close> is the SyntaxError.
  A \<open>\u\<close> escape yields the UTF-8 bytes of its UTF-16 code unit (a surrogate pair gives
  two three-byte groups).
\<close>

section \<open>Tokens\<close>

datatype token =
    TLBrace | TRBrace | TLBrack | TRBrack | TColon | TComma
  | TStr string | TNum dec | TTrue | TFalse | TNull

definition is_json_ws :: "char \<Rightarrow> bool" where
  "is_json_ws c \<longleftrightarrow> c \<in> set [CHR 0x20, CHR 0x09, CHR 0x0A, CHR 0x0D]"

section \<open>String literals\<close>

definition hex_val :: "char \<Rightarrow> nat option" where
  "hex_val c =
     (if is_digit c then Some (of_char c - 48)
      else if c \<in> set ''abcdef'' then Some (of_char c - 87)
      else if c \<in> set ''ABCDEF'' then Some (of_char c - 55)
      else None)"

definition utf8_unit :: "nat \<Rightarrow> string" where
  "utf8_unit u =
     (if u < 0x80 then [char_of u]
      else if u < 0x800 then [char_of (0xC0 + u div 64), char_of (0x80 + u mod 64)]
      else [char_of (0xE0 + u div 4096), char_of (0x80 + (u div 64) mod 64),
            char_of (0x80 + u mod 64)])"

definition escape_char :: "char \<Rightarrow> char option" where
  "escape_char e =
     (if e = CHR 0x22 then Some (CHR 0x22)
      else if e = CHR 0x5C then Some (CHR 0x5C)
      else if e = CHR ''/'' then Some (CHR ''/'')
      else if e = CHR ''b'' then Some (CHR 0x08)
      else if e = CHR ''f'' then Some (CHR 0x0C)
      else if e = CHR ''n'' then Some (CHR 0x0A)
      else if e = CHR ''r'' then Some (CHR 0x0D)
      else if e = CHR ''t'' then Some (CHR 0x09)
      else None)"

text \<open>
  The body of a string literal after its opening quote, up to and including the closing
  quote (\<open>0x22\<close>); the accumulator holds the decoded bytes in reverse. A raw control
  character is an error, as is an unknown escape.
\<close>

fun hex4 :: "char list \<Rightarrow> nat option" where
  "hex4 [h1, h2, h3, h4] =
     (case (hex_val h1, hex_val h2, hex_val h3, hex_val h4) of
        (Some a, Some b, Some c, Some d) \<Rightarrow> Some (((a * 16 + b) * 16 + c) * 16 + d)
      | _ \<Rightarrow> None)"
| "hex4 _ = None"

function lex_string :: "string \<Rightarrow> string \<Rightarrow> (string \<times> string) option" where
  "lex_string [] acc = None"
| "lex_string (c # cs) acc =
     (if c = CHR 0x22 then Some (rev acc, cs)
      else if c = CHR 0x5C then
        (case cs of
           [] \<Rightarrow> None
         | e # cs' \<Rightarrow>
             (if e = CHR ''u'' then
                (case hex4 (take 4 cs') of
                   None \<Rightarrow> None
                 | Some u \<Rightarrow> lex_string (drop 4 cs') (rev (utf8_unit u) @ acc))
              else (case escape_char e of
                      None \<Rightarrow> None
                    | Some x \<Rightarrow> lex_string cs' (x # acc))))
      else if of_char c < (32::nat) then None
      else lex_string cs (c # acc))"
  by pat_completeness auto
termination
  by (relation "measure (\<lambda>(cs, acc). length cs)") auto

section \<open>Number literals\<close>

text \<open>\<open>-? (0 | [1-9][0-9]*) (. [0-9]+)? ([eE] [+-]? [0-9]+)?\<close>, read as an exact decimal.\<close>

definition lex_frac :: "string \<Rightarrow> (string \<times> string) option" where
  "lex_frac s =
     (case s of
        c # r \<Rightarrow>
          if c = CHR ''.'' then
            (let f = takeWhile is_digit r in
             if f = [] then None else Some (f, dropWhile is_digit r))
          else Some ([], s)
      | [] \<Rightarrow> Some ([], s))"

definition lex_exp :: "string \<Rightarrow> (int \<times> string) option" where
  "lex_exp s =
     (case s of
        c # r \<Rightarrow>
          if c = CHR ''e'' \<or> c = CHR ''E'' then
            (let (sg, r') = (case r of
                               d # r'' \<Rightarrow> if d = CHR ''-'' then (-1, r'')
                                         else if d = CHR ''+'' then (1, r'') else (1, r)
                             | [] \<Rightarrow> (1, r));
                 ds = takeWhile is_digit r'
             in if ds = [] then None else Some (sg * digits_int ds, dropWhile is_digit r'))
          else Some (0, s)
      | [] \<Rightarrow> Some (0, s))"

definition lex_number :: "string \<Rightarrow> (dec \<times> string) option" where
  "lex_number s =
     (let (sg, s1) = (case s of
                        c # r \<Rightarrow> if c = CHR ''-'' then (-1 :: int, r) else (1, s)
                      | [] \<Rightarrow> (1, s));
          ip = takeWhile is_digit s1; s2 = dropWhile is_digit s1
      in if ip = [] \<or> (hd ip = CHR ''0'' \<and> 1 < length ip) then None
         else
           (case lex_frac s2 of
              None \<Rightarrow> None
            | Some (fp, s3) \<Rightarrow>
                (case lex_exp s3 of
                   None \<Rightarrow> None
                 | Some (ex, s4) \<Rightarrow>
                     Some (norm_dec (Dec (sg * digits_int (ip @ fp)) (ex - int (length fp))), s4))))"

section \<open>The lexer\<close>

text \<open>Each literal reader returns a strictly shorter rest: the lexer's termination measure.\<close>

lemma lex_string_length: "lex_string cs acc = Some (s, rest) \<Longrightarrow> length rest \<le> length cs"
proof (induction cs acc rule: lex_string.induct)
  case (1 acc)
  then show ?case by simp
next
  case (2 c cs acc)
  note ret = "2.prems"
  show ?case
  proof (cases "c = CHR 0x22")
    case True
    with ret show ?thesis by simp
  next
    case nq: False
    show ?thesis
    proof (cases "c = CHR 0x5C")
      case bs: True
      with nq ret obtain e cs' where cs: "cs = e # cs'"
        by (cases cs) auto
      show ?thesis
      proof (cases "e = CHR ''u''")
        case u: True
        with nq bs cs ret obtain x where h: "hex4 (take 4 cs') = Some x"
            and r: "lex_string (drop 4 cs') (rev (utf8_unit x) @ acc) = Some (s, rest)"
          by (auto split: option.splits)
        have "length rest \<le> length (drop 4 cs')"
          by (rule "2.IH"(1) [OF nq bs cs u h r])
        with cs show ?thesis by simp
      next
        case nu: False
        with nq bs cs ret obtain x where h: "escape_char e = Some x"
            and r: "lex_string cs' (x # acc) = Some (s, rest)"
          by (auto split: option.splits)
        have "length rest \<le> length cs'"
          by (rule "2.IH"(2) [OF nq bs cs nu h r])
        with cs show ?thesis by simp
      qed
    next
      case nbs: False
      with nq ret have c: "\<not> of_char c < (32::nat)" and r: "lex_string cs (c # acc) = Some (s, rest)"
        by (auto split: if_splits)
      have "length rest \<le> length cs"
        by (rule "2.IH"(3) [OF nq nbs c r])
      then show ?thesis by simp
    qed
  qed
qed

lemma length_dropWhile_less: "takeWhile P xs \<noteq> [] \<Longrightarrow> length (dropWhile P xs) < length xs"
  by (cases xs) (auto split: if_splits intro: le_less_trans [OF length_dropWhile_le])

lemma lex_frac_length: "lex_frac s = Some (f, rest) \<Longrightarrow> length rest \<le> length s"
  by (auto simp: lex_frac_def Let_def split: list.splits if_splits
           intro: le_SucI [OF length_dropWhile_le])

lemma lex_exp_length: "lex_exp s = Some (e, rest) \<Longrightarrow> length rest \<le> length s"
  unfolding lex_exp_def Let_def
  by (auto split: list.splits if_splits prod.splits
           intro: le_SucI [OF length_dropWhile_le] le_SucI [OF le_SucI [OF length_dropWhile_le]])

lemma lex_number_length: "lex_number s = Some (d, rest) \<Longrightarrow> length rest < length s"
proof -
  assume ok: "lex_number s = Some (d, rest)"
  obtain sg s1 where s1: "(case s of c # r \<Rightarrow> if c = CHR ''-'' then (-1 :: int, r) else (1, s)
                                   | [] \<Rightarrow> (1, s)) = (sg, s1)"
    by fastforce
  have le: "length s1 \<le> length s" using s1 by (auto split: list.splits if_splits)
  from ok s1 have ip: "takeWhile is_digit s1 \<noteq> []"
    by (auto simp: lex_number_def Let_def)
  from ok s1 obtain fp s3 ex where
      f: "lex_frac (dropWhile is_digit s1) = Some (fp, s3)" and x: "lex_exp s3 = Some (ex, rest)"
    by (auto simp: lex_number_def Let_def split: if_splits option.splits)
  have "length rest \<le> length (dropWhile is_digit s1)"
    using lex_frac_length [OF f] lex_exp_length [OF x] by simp
  also have "\<dots> < length s1" using ip by (rule length_dropWhile_less)
  finally show ?thesis using le by simp
qed

function lex :: "string \<Rightarrow> token list option" where
  "lex [] = Some []"
| "lex (c # cs) =
     (if is_json_ws c then lex cs
      else if c = CHR ''{'' then map_option (Cons TLBrace) (lex cs)
      else if c = CHR ''}'' then map_option (Cons TRBrace) (lex cs)
      else if c = CHR ''['' then map_option (Cons TLBrack) (lex cs)
      else if c = CHR '']'' then map_option (Cons TRBrack) (lex cs)
      else if c = CHR '':'' then map_option (Cons TColon) (lex cs)
      else if c = CHR '','' then map_option (Cons TComma) (lex cs)
      else if c = CHR 0x22 then
        (case lex_string cs [] of
           None \<Rightarrow> None
         | Some (str, rest) \<Rightarrow> map_option (Cons (TStr str)) (lex rest))
      else if c = CHR ''-'' \<or> is_digit c then
        (case lex_number (c # cs) of
           None \<Rightarrow> None
         | Some (d, rest) \<Rightarrow> map_option (Cons (TNum d)) (lex rest))
      else if c = CHR ''t'' \<and> take 3 cs = ''rue'' then map_option (Cons TTrue) (lex (drop 3 cs))
      else if c = CHR ''f'' \<and> take 4 cs = ''alse'' then map_option (Cons TFalse) (lex (drop 4 cs))
      else if c = CHR ''n'' \<and> take 3 cs = ''ull'' then map_option (Cons TNull) (lex (drop 3 cs))
      else None)"
  by pat_completeness auto
termination
proof (relation "measure length", simp_all)
  show "\<And>cs x2 x y. lex_string cs [] = Some x2 \<Longrightarrow> (x, y) = x2 \<Longrightarrow> length y < Suc (length cs)"
    by (metis le_imp_less_Suc lex_string_length)
  show "\<And>c cs x2 x y. lex_number (c # cs) = Some x2 \<Longrightarrow> (x, y) = x2 \<Longrightarrow> length y < Suc (length cs)"
    by (metis length_Cons lex_number_length)
qed

section \<open>The parser: a push-down automaton over the tokens\<close>

text \<open>
  A frame is an open array (its elements so far), an open object between members, or an
  open object waiting for the value of a key. The mode says what the next token may be.
\<close>

datatype frame =
    FArr "json list"
  | FObj "(string, json) alist"
  | FMember "(string, json) alist" string

datatype mode =
    MValue            \<comment> \<open>a value must start\<close>
  | MArrFirst         \<comment> \<open>after \<open>[\<close>: a value or \<open>]\<close>\<close>
  | MObjFirst         \<comment> \<open>after \<open>{\<close>: a key or \<open>}\<close>\<close>
  | MKey              \<comment> \<open>after \<open>,\<close> in an object: a key\<close>
  | MColon string     \<comment> \<open>after a key: \<open>:\<close>\<close>
  | MAfter json       \<comment> \<open>a value is complete: \<open>,\<close>, a closing bracket, or the end\<close>

definition value_start :: "frame list \<Rightarrow> token \<Rightarrow> (frame list \<times> mode) option" where
  "value_start st t =
     (case t of
        TLBrack \<Rightarrow> Some (FArr [] # st, MArrFirst)
      | TLBrace \<Rightarrow> Some (FObj [] # st, MObjFirst)
      | TStr s \<Rightarrow> Some (st, MAfter (JStr s))
      | TNum d \<Rightarrow> Some (st, MAfter (JNum d))
      | TTrue \<Rightarrow> Some (st, MAfter (JBool True))
      | TFalse \<Rightarrow> Some (st, MAfter (JBool False))
      | TNull \<Rightarrow> Some (st, MAfter JNull)
      | _ \<Rightarrow> None)"

definition pstep :: "frame list \<Rightarrow> mode \<Rightarrow> token \<Rightarrow> (frame list \<times> mode) option" where
  "pstep st m t =
     (case m of
        MValue \<Rightarrow> value_start st t
      | MArrFirst \<Rightarrow>
          (if t = TRBrack then Some (tl st, MAfter (JArr [])) else value_start st t)
      | MObjFirst \<Rightarrow>
          (case t of
             TRBrace \<Rightarrow> Some (tl st, MAfter (JObj []))
           | TStr k \<Rightarrow> Some (st, MColon k)
           | _ \<Rightarrow> None)
      | MKey \<Rightarrow> (case t of TStr k \<Rightarrow> Some (st, MColon k) | _ \<Rightarrow> None)
      | MColon k \<Rightarrow>
          (case (t, st) of
             (TColon, FObj acc # st') \<Rightarrow> Some (FMember acc k # st', MValue)
           | _ \<Rightarrow> None)
      | MAfter v \<Rightarrow>
          (case (st, t) of
             (FArr acc # st', TComma) \<Rightarrow> Some (FArr (acc @ [v]) # st', MValue)
           | (FArr acc # st', TRBrack) \<Rightarrow> Some (st', MAfter (JArr (acc @ [v])))
           | (FMember acc k # st', TComma) \<Rightarrow> Some (FObj (al_put acc k v) # st', MKey)
           | (FMember acc k # st', TRBrace) \<Rightarrow> Some (st', MAfter (JObj (al_put acc k v)))
           | _ \<Rightarrow> None))"

fun parse_tokens :: "frame list \<Rightarrow> mode \<Rightarrow> token list \<Rightarrow> json option" where
  "parse_tokens st m [] = (case (st, m) of ([], MAfter v) \<Rightarrow> Some v | _ \<Rightarrow> None)"
| "parse_tokens st m (t # ts) =
     (case pstep st m t of None \<Rightarrow> None | Some (st', m') \<Rightarrow> parse_tokens st' m' ts)"

definition json_parse :: "string \<Rightarrow> json option" where
  "json_parse s = (case lex s of None \<Rightarrow> None | Some ts \<Rightarrow> parse_tokens [] MValue ts)"

section \<open>The parser builds well-formed values\<close>

fun wf_frame :: "frame \<Rightarrow> bool" where
  "wf_frame (FArr acc) = (\<forall>v \<in> set acc. wf_json v)"
| "wf_frame (FObj acc) = wf_json (JObj acc)"
| "wf_frame (FMember acc k) = wf_json (JObj acc)"

fun wf_mode :: "mode \<Rightarrow> bool" where
  "wf_mode (MAfter v) = wf_json v"
| "wf_mode _ = True"

lemma value_start_wf:
  "value_start st t = Some (st', m') \<Longrightarrow> \<forall>f \<in> set st. wf_frame f \<Longrightarrow>
     (\<forall>f \<in> set st'. wf_frame f) \<and> wf_mode m'"
  by (auto simp: value_start_def split: token.splits)

lemma ball_set_tl: "\<forall>f \<in> set st. P f \<Longrightarrow> \<forall>f \<in> set (tl st). P f"
  by (cases st) auto

lemma pstep_wf:
  assumes "pstep st m t = Some (st', m')" and wf: "\<forall>f \<in> set st. wf_frame f" and "wf_mode m"
  shows "(\<forall>f \<in> set st'. wf_frame f) \<and> wf_mode m'"
proof (cases m)
  case (MAfter v)
  with assms(1,3) wf show ?thesis
    by (auto simp: pstep_def dest!: set_al_put [THEN subsetD] split: list.splits frame.splits token.splits)
      (metis snd_conv)
next
  case (MColon k)
  with assms(1) wf show ?thesis
    by (auto simp: pstep_def split: list.splits frame.splits token.splits)
qed (use assms(1) wf in \<open>auto simp: pstep_def dest: value_start_wf ball_set_tl
                           split: if_splits token.splits\<close>)

lemma parse_tokens_wf:
  "parse_tokens st m ts = Some v \<Longrightarrow> \<forall>f \<in> set st. wf_frame f \<Longrightarrow> wf_mode m \<Longrightarrow> wf_json v"
proof (induction st m ts rule: parse_tokens.induct)
  case (1 st m)
  then show ?case by (auto split: list.splits mode.splits)
next
  case (2 st m t ts)
  then show ?case by (auto split: option.splits dest: pstep_wf)
qed

text \<open>Every value \<open>JSON.parse\<close> returns is well formed: no object has two members of the same name.\<close>

theorem json_parse_wf: "json_parse s = Some v \<Longrightarrow> wf_json v"
  by (auto simp: json_parse_def split: option.splits elim: parse_tokens_wf)

theorem json_parse_wf_witness:
  "json_parse (''{'' @ [CHR 0x22, CHR ''a'', CHR 0x22] @ '':1,'' @ [CHR 0x22, CHR ''a'', CHR 0x22] @ '':2}'') =
     Some (JObj [(''a'', JNum (Dec 2 0))]) \<and>
   wf_json (JObj [(''a'', JNum (Dec 2 0))])"
proof -
  have h: "json_parse (''{'' @ [CHR 0x22, CHR ''a'', CHR 0x22] @ '':1,'' @ [CHR 0x22, CHR ''a'', CHR 0x22] @ '':2}'') =
     Some (JObj [(''a'', JNum (Dec 2 0))])"
    by (simp add: json_parse_def pstep_def value_start_def is_json_ws_def lex_number_def lex_frac_def
        lex_exp_def js_simps norm_dec.simps)
  show ?thesis using h json_parse_wf [OF h] by simp
qed

text \<open>Node's \<open>stripBOM\<close>: one leading U+FEFF, whose UTF-8 bytes are EF BB BF.\<close>

definition strip_bom :: "string \<Rightarrow> string" where
  "strip_bom s = (if take 3 s = [CHR 0xEF, CHR 0xBB, CHR 0xBF] then drop 3 s else s)"

end
