(* ===== verification/Store.thy ===== *)
theory Store
  imports Json_Parse
begin

text \<open>
  The snapshot store of src/server.js (lines 7--33): the module variable
  \<open>snapshotData\<close>, \<open>loadData\<close>, the startup load, and the \<open>fs.watchFile\<close>
  listener. The process shares the file system with an external writer, so the model
  keeps the file system in the state. \<open>require\<close> keeps a module cache keyed by the
  resolved path; \<open>loadData\<close> deletes the snapshot's entry before requiring it.
  \<open>loadData\<close> is given twice: as one function of the state (no other process acts
  while it runs) and as its four system calls (\<open>existsSync\<close>, \<open>statSync\<close>,
  \<open>require.resolve\<close>, \<open>require\<close>), between which the writer may act.
\<close>

section \<open>The file system\<close>

text \<open>
  The inode attributes besides size and times that libuv's \<open>statbuf_eq\<close> compares
  (\<open>st_ino\<close>, \<open>st_dev\<close>, \<open>st_mode\<close>, \<open>st_uid\<close>, \<open>st_gid\<close>,
  \<open>st_birthtim\<close>, \<open>st_flags\<close>, \<open>st_gen\<close>); a file replaced by a rename has a
  new \<open>ino\<close>.
\<close>

record attrs =
  ino :: nat
  dev :: nat
  mode :: nat
  uid :: nat
  gid :: nat
  birthtime :: nat
  flags :: nat
  gen :: nat

record fentry =
  content :: string
  mtime :: nat    \<comment> \<open>milliseconds\<close>
  ctime :: nat
  attr :: attrs

type_synonym filesys = "path \<rightharpoonup> fentry"

text \<open>
  The fields of \<open>fs.Stats\<close> the watcher compares. A failed stat (a missing file)
  gives libuv's \<open>zero_statbuf\<close>: every field zero.
\<close>

record stat =
  st_size :: nat
  st_mtime :: nat
  st_ctime :: nat
  st_attr :: attrs

definition zero_attrs :: attrs where
  "zero_attrs = \<lparr>ino = 0, dev = 0, mode = 0, uid = 0, gid = 0, birthtime = 0, flags = 0, gen = 0\<rparr>"

definition zero_stat :: stat where
  "zero_stat = \<lparr>st_size = 0, st_mtime = 0, st_ctime = 0, st_attr = zero_attrs\<rparr>"

definition stat_of :: "filesys \<Rightarrow> path \<Rightarrow> stat" where
  "stat_of f p =
     (case f p of
        None \<Rightarrow> zero_stat
      | Some e \<Rightarrow> \<lparr>st_size = length (content e), st_mtime = mtime e, st_ctime = ctime e,
                   st_attr = attr e\<rparr>)"

text \<open>\<open>path.join(dir, rel)\<close> for an absolute directory without trailing slash, or the root.\<close>

definition path_join :: "path \<Rightarrow> string \<Rightarrow> path" where
  "path_join dir rel = (if dir = ''/'' then [] else dir) @ ''/'' @ rel"

section \<open>The process state\<close>

text \<open>
  libuv's \<open>busy_polling\<close>: 0 before the first stat, 1 after a successful one, the
  (negative) error code after a failed one.
\<close>

datatype poll_status = PollIdle | PollOk | PollErr

text \<open>
  \<open>app_dir\<close> is \<open>__dirname\<close>; \<open>resolved\<close> the paths in Node's resolution cache
  (\<open>Module._pathCache\<close>), which \<open>require.resolve\<close> answers from without looking at the
  file system again; \<open>watch_busy\<close> and \<open>watch_stat\<close> the state of the stat
  watcher (libuv's \<open>busy_polling\<close> and \<open>statbuf\<close>, below); \<open>next_obj\<close> the identity the next JavaScript object the watcher allocates
  gets.
\<close>

record server =
  fs :: filesys
  app_dir :: path
  cwd :: path
  snapshotData :: json
  require_cache :: "path \<rightharpoonup> json"
  resolved :: "path set"
  errlog :: "string list"
  watch_busy :: poll_status
  watch_stat :: stat
  next_obj :: nat

definition snapshotPath :: "server \<Rightarrow> path" where
  "snapshotPath s = path_join (app_dir s) ''data/snapshots/day_2.json''"

section \<open>require of a JSON module\<close>

fun error_text :: "js_error \<Rightarrow> string" where
  "error_text (TypeError m) = ''TypeError: '' @ m"
| "error_text (SyntaxError m) = ''SyntaxError: '' @ m"
| "error_text (FsError code p) = ''Error: '' @ code @ '', '' @ p"
| "error_text (ModuleNotFound p) = ''Error: Cannot find module '' @ p"

text \<open>
  A cached module is returned as it is. Otherwise the path is resolved: from the
  resolution cache, or by finding the file (which enters it in the cache), and a path
  that is neither is MODULE_NOT_FOUND; then the file is read (ENOENT when it is gone),
  stripped of a byte-order mark and parsed, and the result is cached; a parse failure is
  a SyntaxError whose message starts with the path, and caches nothing.
\<close>

definition js_require :: "path \<Rightarrow> server \<Rightarrow> js_error + (json \<times> server)" where
  "js_require p s =
     (case require_cache s p of
        Some v \<Rightarrow> Inr (v, s)
      | None \<Rightarrow>
          if p \<notin> resolved s \<and> p \<notin> dom (fs s) then Inl (ModuleNotFound p)
          else
            (case fs s p of
               None \<Rightarrow> Inl (FsError ''ENOENT'' p)
             | Some e \<Rightarrow>
                 (case json_parse (strip_bom (content e)) of
                    None \<Rightarrow> Inl (SyntaxError p)
                  | Some v \<Rightarrow> Inr (v, s\<lparr>require_cache := (require_cache s)(p \<mapsto> v),
                                          resolved := insert p (resolved s)\<rparr>))))"

section \<open>loadData (lines 12--21)\<close>

definition load_failed :: "js_error \<Rightarrow> string" where
  "load_failed err = ''Failed to load snapshot data: '' @ error_text err"

definition loadData :: "server \<Rightarrow> server" where
  "loadData s =
     (if snapshotPath s \<in> dom (fs s) \<and> st_size (stat_of (fs s) (snapshotPath s)) \<noteq> 0 then
        (let s1 = s\<lparr>require_cache := (require_cache s)(snapshotPath s := None),
                     resolved := insert (snapshotPath s) (resolved s)\<rparr> in
         case js_require (snapshotPath s) s1 of
           Inr (v, s2) \<Rightarrow> s2\<lparr>snapshotData := v\<rparr>
         | Inl err \<Rightarrow> s1\<lparr>errlog := errlog s1 @ [load_failed err]\<rparr>)
      else s)"

section \<open>loadData as four system calls\<close>

text \<open>
  The program counter names the call about to run. A step either continues, returns
  from \<open>loadData\<close>, or throws: \<open>statSync\<close> and \<open>require.resolve\<close> sit outside the
  \<open>try\<close>, so their errors escape the listener (or the module's top level) and end the
  process; errors of \<open>require\<close> are caught and logged. \<open>require.resolve\<close> fails only
  for a path that was never resolved and is not on disk: once resolved, Node answers
  from its resolution cache, and a file deleted since fails in \<open>require\<close> instead.
\<close>

datatype load_pc = LExists | LStat | LResolve | LRequire

datatype load_result = Continue load_pc server | Returned server | Thrown js_error

fun load_step :: "load_pc \<Rightarrow> server \<Rightarrow> load_result" where
  "load_step LExists s =
     (if snapshotPath s \<in> dom (fs s) then Continue LStat s else Returned s)"
| "load_step LStat s =
     (case fs s (snapshotPath s) of
        None \<Rightarrow> Thrown (FsError ''ENOENT'' (snapshotPath s))
      | Some e \<Rightarrow> if length (content e) \<noteq> 0 then Continue LResolve s else Returned s)"
| "load_step LResolve s =
     (if snapshotPath s \<notin> resolved s \<and> snapshotPath s \<notin> dom (fs s)
      then Thrown (ModuleNotFound (snapshotPath s))
      else Continue LRequire (s\<lparr>require_cache := (require_cache s)(snapshotPath s := None),
                                resolved := insert (snapshotPath s) (resolved s)\<rparr>))"
| "load_step LRequire s =
     (case js_require (snapshotPath s) s of
        Inr (v, s2) \<Rightarrow> Returned (s2\<lparr>snapshotData := v\<rparr>)
      | Inl err \<Rightarrow> Returned (s\<lparr>errlog := errlog s @ [load_failed err]\<rparr>))"

section \<open>The watcher (lines 26--33)\<close>

text \<open>
  \<open>fs.watchFile\<close> polls the file; when its stat differs from the last one seen, Node
  builds two fresh \<open>fs.Stats\<close> objects, each with its own \<open>Date\<close> for \<open>mtime\<close>,
  and calls the listener. A \<open>Date\<close> is an object: it has an identity and a time value.
\<close>

datatype date = Date nat nat  \<comment> \<open>object identity, time value in milliseconds\<close>

fun obj_id :: "date \<Rightarrow> nat" where
  "obj_id (Date i _) = i"

fun date_time :: "date \<Rightarrow> nat" where
  "date_time (Date _ t) = t"

text \<open>The listener: \<open>curr.mtime !== prev.mtime\<close> compares two objects, by identity.\<close>

definition watch_listener :: "date \<Rightarrow> date \<Rightarrow> server \<Rightarrow> server" where
  "watch_listener curr_mtime prev_mtime s =
     (if obj_id curr_mtime \<noteq> obj_id prev_mtime then loadData s else s)"

text \<open>
  One poll of Node's stat watcher: libuv's \<open>poll_cb\<close> (src/fs-poll.c) and Node's
  \<open>StatWatcher\<close>. A failed stat calls back (with zeroed current stats and the last
  successful stat as previous) unless the previous stat failed with the same error; so a
  file missing at the first stat calls the listener once, as Node documents. A
  successful stat calls back when an earlier stat failed or differs from it, and not at
  the first stat, which only records the baseline. The callback builds fresh
  \<open>fs.Stats\<close> objects and calls the listener; \<open>poll_quiet\<close> is the state after a
  poll that calls nothing.
\<close>

definition poll_change :: "server \<Rightarrow> (date \<times> date \<times> server) option" where
  "poll_change s =
     (case fs s (snapshotPath s) of
        None \<Rightarrow>
          if watch_busy s = PollErr then None
          else Some (Date (next_obj s) 0, Date (Suc (next_obj s)) (st_mtime (watch_stat s)),
                     s\<lparr>watch_busy := PollErr, next_obj := next_obj s + 2\<rparr>)
      | Some _ \<Rightarrow>
          (let st = stat_of (fs s) (snapshotPath s) in
           if watch_busy s = PollErr \<or> (watch_busy s = PollOk \<and> st \<noteq> watch_stat s) then
             Some (Date (next_obj s) (st_mtime st), Date (Suc (next_obj s)) (st_mtime (watch_stat s)),
                   s\<lparr>watch_busy := PollOk, watch_stat := st, next_obj := next_obj s + 2\<rparr>)
           else None))"

definition poll_quiet :: "server \<Rightarrow> server" where
  "poll_quiet s =
     (case fs s (snapshotPath s) of
        None \<Rightarrow> s
      | Some _ \<Rightarrow> s\<lparr>watch_busy := PollOk, watch_stat := stat_of (fs s) (snapshotPath s)\<rparr>)"

definition poll :: "server \<Rightarrow> server" where
  "poll s =
     (case poll_change s of
        None \<Rightarrow> poll_quiet s
      | Some (curr_mtime, prev_mtime, s1) \<Rightarrow> watch_listener curr_mtime prev_mtime s1)"

text \<open>
  \<open>writeFileSync\<close> opens with \<open>O_TRUNC\<close>: an existing file keeps its inode and
  attributes; a file it creates gets attributes no part of the program reads, written as zero.
\<close>

definition file_attrs :: "fentry option \<Rightarrow> attrs" where
  "file_attrs e = (case e of Some f \<Rightarrow> attr f | None \<Rightarrow> zero_attrs)"

section \<open>Startup (lines 7--9, 24, 27)\<close>

definition init_state :: "filesys \<Rightarrow> path \<Rightarrow> path \<Rightarrow> server" where
  "init_state f dir wd =
     \<lparr>fs = f, app_dir = dir, cwd = wd, snapshotData = JArr [], require_cache = Map.empty,
      resolved = {}, errlog = [], watch_busy = PollIdle,
      watch_stat = zero_stat, next_obj = 0\<rparr>"

text \<open>\<open>loadData()\<close> runs once; then \<open>fs.watchFile\<close> registers the watcher, which has
  seen no stat yet: its first stat is taken later, by its first poll.\<close>

definition startup :: "filesys \<Rightarrow> path \<Rightarrow> path \<Rightarrow> server" where
  "startup f dir wd = (loadData (init_state f dir wd))\<lparr>watch_busy := PollIdle, watch_stat := zero_stat\<rparr>"

section \<open>The specification's reload (section 4.1)\<close>

text \<open>
  The store of the specification, on the snapshot alone: \<open>reload()\<close> reads the file;
  a missing or empty file is a no-op; it decodes the contents as a sequence of Records
  (the file layout of section 6: a JSON array), and contents that do not decode as one,
  either not JSON or JSON of another shape, leave the snapshot unchanged
  (stale-but-valid); otherwise the decoded sequence replaces it. The Records themselves
  are not validated (section 3).
\<close>

definition spec_reload :: "string option \<Rightarrow> json \<Rightarrow> json" where
  "spec_reload file current =
     (case file of
        None \<Rightarrow> current
      | Some c \<Rightarrow>
          if c = [] then current
          else (case json_parse (strip_bom c) of Some (JArr xs) \<Rightarrow> JArr xs | _ \<Rightarrow> current))"

section \<open>Properties of the store\<close>

lemma snapshotPath_upd [simp]:
  "snapshotPath (s\<lparr>require_cache := c\<rparr>) = snapshotPath s"
  "snapshotPath (s\<lparr>require_cache := c, resolved := r\<rparr>) = snapshotPath s"
  "snapshotPath (s\<lparr>errlog := l\<rparr>) = snapshotPath s"
  "snapshotPath (s\<lparr>snapshotData := v\<rparr>) = snapshotPath s"
  "snapshotPath (s\<lparr>watch_busy := b, next_obj := n\<rparr>) = snapshotPath s"
  "snapshotPath (s\<lparr>watch_busy := b, watch_stat := st, next_obj := n\<rparr>) = snapshotPath s"
  "snapshotPath (s\<lparr>watch_busy := b, watch_stat := st\<rparr>) = snapshotPath s"
  by (simp_all add: snapshotPath_def)

lemma zero_stat_simps [simp]:
  "st_size zero_stat = 0" "st_mtime zero_stat = 0" "st_ctime zero_stat = 0"
  by (simp_all add: zero_stat_def)

lemma poll_quiet_simps [simp]:
  "snapshotData (poll_quiet s) = snapshotData s" "fs (poll_quiet s) = fs s" "app_dir (poll_quiet s) = app_dir s"
  "require_cache (poll_quiet s) = require_cache s" "snapshotPath (poll_quiet s) = snapshotPath s"
  "resolved (poll_quiet s) = resolved s" "cwd (poll_quiet s) = cwd s"
  by (simp_all add: poll_quiet_def snapshotPath_def split: option.splits)

lemma init_state_simps [simp]:
  "fs (init_state f dir wd) = f" "require_cache (init_state f dir wd) = Map.empty"
  "snapshotData (init_state f dir wd) = JArr []" "app_dir (init_state f dir wd) = dir"
  by (simp_all add: init_state_def)

lemma stat_size_nonzero: "st_size (stat_of f p) \<noteq> 0 \<longleftrightarrow> (\<exists>e. f p = Some e \<and> content e \<noteq> [])"
  by (auto simp: stat_of_def split: option.splits)

lemma loadData_watch_upd:
  "loadData (s\<lparr>watch_busy := b, next_obj := n\<rparr>) = (loadData s)\<lparr>watch_busy := b, next_obj := n\<rparr>"
  "loadData (s\<lparr>watch_busy := b, watch_stat := st, next_obj := n\<rparr>) =
     (loadData s)\<lparr>watch_busy := b, watch_stat := st, next_obj := n\<rparr>"
  by (auto simp: loadData_def js_require_def Let_def snapshotPath_def stat_of_def split: option.splits sum.splits)

lemma poll_change_Some:
  assumes "poll_change s = Some (c, d, s1)"
  shows "obj_id c \<noteq> obj_id d \<and> fs s1 = fs s \<and> snapshotPath s1 = snapshotPath s \<and>
         snapshotData s1 = snapshotData s \<and> require_cache s1 = require_cache s \<and> resolved s1 = resolved s"
  using assms by (auto simp: poll_change_def Let_def snapshotPath_def split: option.splits if_splits)

lemma loadData_frame:
  "fs (loadData s) = fs s \<and> app_dir (loadData s) = app_dir s \<and> cwd (loadData s) = cwd s \<and>
   watch_busy (loadData s) = watch_busy s \<and> watch_stat (loadData s) = watch_stat s \<and> next_obj (loadData s) = next_obj s"
  by (auto simp: loadData_def js_require_def Let_def split: option.splits sum.splits)

text \<open>C7: When the snapshot file is missing or empty, loadData changes nothing at all.\<close>

theorem loadData_no_file: "st_size (stat_of (fs s) (snapshotPath s)) = 0 \<Longrightarrow> loadData s = s"
  by (simp add: loadData_def)

theorem loadData_no_file_witness:
  "loadData (init_state Map.empty ''/app'' ''/app'') = init_state Map.empty ''/app'' ''/app''"
  by (rule loadData_no_file) (simp add: init_state_def stat_of_def)

text \<open>C3: When the snapshot file exists, is non-empty and decodes as JSON (after a leading byte-order mark is removed), loadData replaces snapshotData by the decoded value.\<close>

theorem loadData_ok:
  assumes "fs s (snapshotPath s) = Some e" and "content e \<noteq> []"
    and "json_parse (strip_bom (content e)) = Some v"
  shows "snapshotData (loadData s) = v"
  using assms by (simp add: loadData_def js_require_def stat_of_def domI)

theorem loadData_ok_witness:
  "snapshotData (loadData (init_state [''/app/data/snapshots/day_2.json'' \<mapsto> \<lparr>content = ''[40]'', mtime = 1, ctime = 1, attr = zero_attrs\<rparr>] ''/app'' ''/app'')) = JArr [JNum (Dec 4 1)]"
  by (rule loadData_ok [where e = "\<lparr>content = ''[40]'', mtime = 1, ctime = 1, attr = zero_attrs\<rparr>"])
    (simp_all add: init_state_def snapshotPath_def path_join_def json_parse_def
      strip_bom_def pstep_def value_start_def lex_number_def lex_frac_def lex_exp_def js_simps
      is_json_ws_def norm_dec.simps)

text \<open>C4: Stale-but-valid: when the snapshot file is non-empty but does not decode, loadData keeps the previous snapshotData and appends exactly one 'Failed to load snapshot data' line to the error log.\<close>

theorem loadData_corrupt:
  assumes "fs s (snapshotPath s) = Some e" and "content e \<noteq> []"
    and "json_parse (strip_bom (content e)) = None"
  shows "snapshotData (loadData s) = snapshotData s \<and>
         errlog (loadData s) = errlog s @ [load_failed (SyntaxError (snapshotPath s))]"
  using assms by (simp add: loadData_def js_require_def stat_of_def domI)

theorem loadData_corrupt_witness:
  "snapshotData (loadData (init_state [''/app/data/snapshots/day_2.json'' \<mapsto> \<lparr>content = ''['', mtime = 1, ctime = 1, attr = zero_attrs\<rparr>] ''/app'' ''/app'')) = JArr [] \<and>
   errlog (loadData (init_state [''/app/data/snapshots/day_2.json'' \<mapsto> \<lparr>content = ''['', mtime = 1, ctime = 1, attr = zero_attrs\<rparr>] ''/app'' ''/app'')) = [load_failed (SyntaxError ''/app/data/snapshots/day_2.json'')]"
  using loadData_corrupt [of "init_state [''/app/data/snapshots/day_2.json'' \<mapsto> \<lparr>content = ''['', mtime = 1, ctime = 1, attr = zero_attrs\<rparr>] ''/app'' ''/app''"]
  by (simp add: init_state_def snapshotPath_def path_join_def json_parse_def strip_bom_def
      pstep_def value_start_def is_json_ws_def)

text \<open>C15: Idempotent reload: reloading twice with no change of the file in between gives the same snapshot as reloading once.\<close>

theorem loadData_idem: "snapshotData (loadData (loadData s)) = snapshotData (loadData s)"
  by (auto simp: loadData_def js_require_def Let_def split: option.splits if_splits)

text \<open>C17: Every call of the watcher's listener reloads, whatever field of the stat changed and even when the modification time is the same: curr.mtime !== prev.mtime compares two fresh Date objects and is always true.\<close>

theorem poll_reloads:
  assumes "poll_change s \<noteq> None"
  shows "snapshotData (poll s) = snapshotData (loadData s)"
proof -
  obtain c d s1 where pc: "poll_change s = Some (c, d, s1)" using assms by auto
  then have "obj_id c \<noteq> obj_id d" and "snapshotData (loadData s1) = snapshotData (loadData s)"
    by (auto simp: poll_change_def Let_def loadData_watch_upd split: option.splits if_splits)
  then show ?thesis using pc by (simp add: poll_def watch_listener_def)
qed

theorem poll_reloads_witness:
  "poll_change ((init_state [''/app/data/snapshots/day_2.json'' \<mapsto> \<lparr>content = ''[]'', mtime = 1, ctime = 1, attr = zero_attrs\<rparr>] ''/app'' ''/app'')\<lparr>watch_busy := PollOk, watch_stat := \<lparr>st_size = 3, st_mtime = 1, st_ctime = 1, st_attr = zero_attrs\<rparr>, snapshotData := JArr [JNull]\<rparr>) \<noteq> None \<and> snapshotData (poll ((init_state [''/app/data/snapshots/day_2.json'' \<mapsto> \<lparr>content = ''[]'', mtime = 1, ctime = 1, attr = zero_attrs\<rparr>] ''/app'' ''/app'')\<lparr>watch_busy := PollOk, watch_stat := \<lparr>st_size = 3, st_mtime = 1, st_ctime = 1, st_attr = zero_attrs\<rparr>, snapshotData := JArr [JNull]\<rparr>)) = JArr []"
proof -
  have pc: "poll_change ((init_state [''/app/data/snapshots/day_2.json'' \<mapsto> \<lparr>content = ''[]'', mtime = 1, ctime = 1, attr = zero_attrs\<rparr>] ''/app'' ''/app'')\<lparr>watch_busy := PollOk, watch_stat := \<lparr>st_size = 3, st_mtime = 1, st_ctime = 1, st_attr = zero_attrs\<rparr>, snapshotData := JArr [JNull]\<rparr>) \<noteq> None"
    by (simp add: poll_change_def init_state_def snapshotPath_def path_join_def stat_of_def Let_def)
  have "snapshotData (poll ((init_state [''/app/data/snapshots/day_2.json'' \<mapsto> \<lparr>content = ''[]'', mtime = 1, ctime = 1, attr = zero_attrs\<rparr>] ''/app'' ''/app'')\<lparr>watch_busy := PollOk, watch_stat := \<lparr>st_size = 3, st_mtime = 1, st_ctime = 1, st_attr = zero_attrs\<rparr>, snapshotData := JArr [JNull]\<rparr>)) = snapshotData (loadData ((init_state [''/app/data/snapshots/day_2.json'' \<mapsto> \<lparr>content = ''[]'', mtime = 1, ctime = 1, attr = zero_attrs\<rparr>] ''/app'' ''/app'')\<lparr>watch_busy := PollOk, watch_stat := \<lparr>st_size = 3, st_mtime = 1, st_ctime = 1, st_attr = zero_attrs\<rparr>, snapshotData := JArr [JNull]\<rparr>))"
    by (rule poll_reloads [OF pc])
  also have "\<dots> = JArr []"
    by (simp add: loadData_def init_state_def snapshotPath_def path_join_def stat_of_def js_require_def
        json_parse_def strip_bom_def pstep_def value_start_def is_json_ws_def)
  finally show ?thesis using pc by simp
qed

text \<open>C26: After startup the snapshot is the decoded file when the file exists, is non-empty and decodes, and the empty array otherwise.\<close>

theorem startup_snapshot:
  "snapshotData (startup f dir wd) =
     (case f (path_join dir ''data/snapshots/day_2.json'') of
        None \<Rightarrow> JArr []
      | Some e \<Rightarrow>
          if content e = [] then JArr []
          else (case json_parse (strip_bom (content e)) of None \<Rightarrow> JArr [] | Some v \<Rightarrow> v))"
  by (auto simp: startup_def loadData_def init_state_def snapshotPath_def js_require_def stat_of_def
           Let_def split: option.splits)

text \<open>C9: loadData implements reload() of section 4.1, which decodes the file as a sequence of Records: a missing or empty file is a no-op, contents that do not decode keep the current snapshot, and contents that decode to an array replace it, whatever the module and resolution caches held; the code also installs a decoded value that is not an array, which the specification does not (see the finding on properties_within_radius_not_array).\<close>

theorem loadData_refines_reload:
  assumes "\<forall>e v. fs s (snapshotPath s) = Some e \<longrightarrow> json_parse (strip_bom (content e)) = Some v \<longrightarrow>
             (\<exists>xs. v = JArr xs)"
  shows "snapshotData (loadData s) =
           spec_reload (map_option content (fs s (snapshotPath s))) (snapshotData s)"
  using assms
  by (auto simp: spec_reload_def loadData_def js_require_def stat_of_def Let_def domIff
           split: option.splits json.splits)

theorem loadData_refines_reload_witness:
  "snapshotData (loadData (init_state [''/app/data/snapshots/day_2.json'' \<mapsto> \<lparr>content = ''[40]'', mtime = 1, ctime = 1, attr = zero_attrs\<rparr>] ''/app'' ''/app'')) =
     spec_reload (Some ''[40]'') (JArr []) \<and>
   spec_reload (Some ''[40]'') (JArr []) = JArr [JNum (Dec 4 1)]"
proof -
  have p: "json_parse (strip_bom ''[40]'') = Some (JArr [JNum (Dec 4 1)])"
    by (simp add: json_parse_def strip_bom_def pstep_def value_start_def lex_number_def lex_frac_def lex_exp_def
        js_simps is_json_ws_def norm_dec.simps)
  have f: "fs (init_state [''/app/data/snapshots/day_2.json'' \<mapsto> \<lparr>content = ''[40]'', mtime = 1, ctime = 1, attr = zero_attrs\<rparr>] ''/app'' ''/app'')
             (snapshotPath (init_state [''/app/data/snapshots/day_2.json'' \<mapsto> \<lparr>content = ''[40]'', mtime = 1, ctime = 1, attr = zero_attrs\<rparr>] ''/app'' ''/app''))
           = Some \<lparr>content = ''[40]'', mtime = 1, ctime = 1, attr = zero_attrs\<rparr>"
    and d: "snapshotData (init_state [''/app/data/snapshots/day_2.json'' \<mapsto> \<lparr>content = ''[40]'', mtime = 1, ctime = 1, attr = zero_attrs\<rparr>] ''/app'' ''/app'') = JArr []"
    by (simp_all add: init_state_def snapshotPath_def path_join_def)
  have "snapshotData (loadData (init_state [''/app/data/snapshots/day_2.json'' \<mapsto> \<lparr>content = ''[40]'', mtime = 1, ctime = 1, attr = zero_attrs\<rparr>] ''/app'' ''/app'')) =
          spec_reload (Some ''[40]'') (JArr [])"
    using loadData_refines_reload [of "init_state [''/app/data/snapshots/day_2.json'' \<mapsto> \<lparr>content = ''[40]'', mtime = 1, ctime = 1, attr = zero_attrs\<rparr>] ''/app'' ''/app''"]
    by (simp only: f d option.map) (simp add: p)
  moreover have "spec_reload (Some ''[40]'') (JArr []) = JArr [JNum (Dec 4 1)]"
    using p by (simp add: spec_reload_def)
  ultimately show ?thesis by simp
qed

end
