(* ===== verification/Json_Print.thy ===== *)
theory Json_Print
  imports Json_Parse
begin

text \<open>
  \<open>JSON.stringify(v, null, 4)\<close>, which the pass-through endpoint writes to disk and
  \<open>res.json\<close> uses (without indentation) for every response. Following ECMAScript:
  numbers by Number::toString (here on the exact decimal; for a double that decimal is its
  shortest round-trip form), strings by QuoteJSONString (on bytes: bytes from 0x80 pass
  unchanged), objects in the order of OrdinaryOwnPropertyKeys (array-index keys in
  ascending numeric order first, then the other keys in insertion order).
\<close>

section \<open>Numbers\<close>

fun nat_digits :: "nat \<Rightarrow> string" where
  "nat_digits n =
     (if n < 10 then [char_of (48 + n)] else nat_digits (n div 10) @ [char_of (48 + n mod 10)])"

declare nat_digits.simps [simp del]

text \<open>Number::toString for \<open>\<plusminus>0.d\<^sub>1\<dots>d\<^sub>k \<times> 10^n\<close>: plain notation for \<open>-6 < n \<le> 21\<close>, exponent notation otherwise.\<close>

definition num_to_string :: "dec \<Rightarrow> string" where
  "num_to_string d =
     (case norm_dec d of
        Dec m e \<Rightarrow>
          if m = 0 then ''0''
          else
            (let ds = nat_digits (nat \<bar>m\<bar>); k = int (length ds); n = e + k;
                 body =
                   (if k \<le> n \<and> n \<le> 21 then ds @ replicate (nat (n - k)) (CHR ''0'')
                    else if 0 < n \<and> n \<le> 21 then take (nat n) ds @ ''.'' @ drop (nat n) ds
                    else if -6 < n \<and> n \<le> 0 then ''0.'' @ replicate (nat (- n)) (CHR ''0'') @ ds
                    else
                      (let x = n - 1;
                           es = (if x < 0 then CHR ''-'' else CHR ''+'') # nat_digits (nat \<bar>x\<bar>)
                       in if k = 1 then ds @ ''e'' @ es else [hd ds] @ ''.'' @ tl ds @ ''e'' @ es))
             in (if m < 0 then ''-'' else []) @ body))"

section \<open>Strings\<close>

definition hex_digit :: "nat \<Rightarrow> char" where
  "hex_digit n = (if n < 10 then char_of (48 + n) else char_of (87 + n))"

definition quote_char :: "char \<Rightarrow> string" where
  "quote_char c =
     (if c = CHR 0x08 then [CHR 0x5C, CHR ''b'']
      else if c = CHR 0x09 then [CHR 0x5C, CHR ''t'']
      else if c = CHR 0x0A then [CHR 0x5C, CHR ''n'']
      else if c = CHR 0x0C then [CHR 0x5C, CHR ''f'']
      else if c = CHR 0x0D then [CHR 0x5C, CHR ''r'']
      else if c = CHR 0x22 then [CHR 0x5C, CHR 0x22]
      else if c = CHR 0x5C then [CHR 0x5C, CHR 0x5C]
      else if of_char c < (32::nat) then
        [CHR 0x5C, CHR ''u'', CHR ''0'', CHR ''0'', hex_digit (of_char c div 16), hex_digit (of_char c mod 16)]
      else [c])"

definition json_quote :: "string \<Rightarrow> string" where
  "json_quote s = [CHR 0x22] @ concat (map quote_char s) @ [CHR 0x22]"

section \<open>Property order\<close>

text \<open>An array index is the canonical decimal form of a number below \<open>2^32 - 1\<close>.\<close>

definition array_index :: "string \<Rightarrow> int option" where
  "array_index k =
     (if k \<noteq> [] \<and> list_all is_digit k \<and> (k = ''0'' \<or> hd k \<noteq> CHR ''0'')
         \<and> digits_int k < 4294967295
      then Some (digits_int k) else None)"

definition own_keys_order :: "(string, 'a) alist \<Rightarrow> (string, 'a) alist" where
  "own_keys_order ps =
     sort_key (\<lambda>p. the (array_index (fst p))) (filter (\<lambda>p. array_index (fst p) \<noteq> None) ps)
     @ filter (\<lambda>p. array_index (fst p) = None) ps"

lemma set_own_keys_order [simp]: "set (own_keys_order ps) = set ps"
  by (auto simp: own_keys_order_def)

section \<open>Serialisation with a gap\<close>

definition join_with :: "string \<Rightarrow> string list \<Rightarrow> string" where
  "join_with sep xs = (case xs of [] \<Rightarrow> [] | x # ys \<Rightarrow> x @ concat (map (\<lambda>y. sep @ y) ys))"

text \<open>\<open>stringify_gap gap ind v\<close>: \<open>ind\<close> is the current indentation; \<open>gap\<close> the step.\<close>

function stringify_gap :: "string \<Rightarrow> string \<Rightarrow> json \<Rightarrow> string" where
  "stringify_gap gap ind JNull = ''null''"
| "stringify_gap gap ind (JBool b) = (if b then ''true'' else ''false'')"
| "stringify_gap gap ind (JNum d) = num_to_string d"
| "stringify_gap gap ind (JStr s) = json_quote s"
| "stringify_gap gap ind (JArr vs) =
     (if vs = [] then ''[]''
      else if gap = [] then ''['' @ join_with '','' (map (stringify_gap gap ind) vs) @ '']''
      else
        ''['' @ [CHR 0x0A] @ ind @ gap
        @ join_with ('','' @ [CHR 0x0A] @ ind @ gap) (map (stringify_gap gap (ind @ gap)) vs)
        @ [CHR 0x0A] @ ind @ '']'')"
| "stringify_gap gap ind (JObj ps) =
     (if ps = [] then ''{}''
      else if gap = [] then
        ''{'' @ join_with '',''
                 (map (\<lambda>(k, v). json_quote k @ '':'' @ stringify_gap gap ind v) (own_keys_order ps))
        @ ''}''
      else
        ''{'' @ [CHR 0x0A] @ ind @ gap
        @ join_with ('','' @ [CHR 0x0A] @ ind @ gap)
            (map (\<lambda>(k, v). json_quote k @ '': '' @ stringify_gap gap (ind @ gap) v) (own_keys_order ps))
        @ [CHR 0x0A] @ ind @ ''}'')"
  by pat_completeness auto
termination
proof (relation "measure (\<lambda>(gap, ind, v). size v)", goal_cases)
  case 1 show ?case by simp
next
  case (2 gap ind vs x)
  then show ?case by (auto intro: le_imp_less_Suc size_list_estimation')
next
  case (3 gap ind vs x)
  then show ?case by (auto intro: le_imp_less_Suc size_list_estimation')
next
  case (4 gap ind ps x k v)
  then have "(k, v) \<in> set ps" by simp
  then have "size v \<le> size_list (size_prod (\<lambda>x. 0) size) ps"
    by (rule size_list_estimation') simp
  then show ?case by simp
next
  case (5 gap ind ps x k v)
  then have "(k, v) \<in> set ps" by simp
  then have "size v \<le> size_list (size_prod (\<lambda>x. 0) size) ps"
    by (rule size_list_estimation') simp
  then show ?case by simp
qed

definition json_stringify4 :: "json \<Rightarrow> string" where
  "json_stringify4 v = stringify_gap ''    '' [] v"
  \<comment> \<open>\<open>JSON.stringify(v, null, 4)\<close>\<close>

text \<open>\<open>JSON.stringify(v)\<close>, which Express's \<open>res.json\<close> sends as the response body when
  the application sets no \<open>json spaces\<close>, \<open>json replacer\<close> or \<open>json escape\<close>.\<close>

definition json_stringify :: "json \<Rightarrow> string" where
  "json_stringify v = stringify_gap [] [] v"

end
