(* ===== verification/Server.thy ===== *)
theory Server
  imports Radius_Query Store Json_Print
begin

text \<open>
  The HTTP side of src/server.js: the pass-through endpoint \<open>POST /update_properties\<close>
  (lines 41--49), Express's routing of a request to the two handlers, and the process as
  a whole: a step relation in which requests, watcher polls, the system calls of
  \<open>loadData\<close> and the writes of an external process interleave.
\<close>

section \<open>The pass-through endpoint (lines 41--49)\<close>

definition received_path :: "server \<Rightarrow> path" where
  "received_path s = path_join (cwd s) ''received_properties.json''"

text \<open>
  \<open>JSON.stringify(undefined)\<close> is \<open>undefined\<close>, which \<open>writeFileSync\<close> refuses with a
  TypeError (Express 5 leaves \<open>req.body\<close> undefined for a request without a JSON body).
  A failing write (the environment decides: \<open>write_err\<close> is the error code) leaves
  the file system as it was. \<open>now\<close> is the clock, stamped on the written file.
\<close>

definition update_properties ::
  "jsval \<Rightarrow> string option \<Rightarrow> nat \<Rightarrow> server \<Rightarrow> response \<times> server" where
  "update_properties body write_err now s =
     (case body of
        Undefined \<Rightarrow>
          (Resp 500 (message_body (''An error occurred: '' @
             error_text (TypeError ''[ERR_INVALID_ARG_TYPE]: The data argument must be of type string''))), s)
      | Val data \<Rightarrow>
          (case write_err of
             Some code \<Rightarrow>
               (Resp 500 (message_body (''An error occurred: '' @
                  error_text (FsError code ''received_properties.json''))), s)
           | None \<Rightarrow>
               (Resp 200 (JObj [(''message'', JStr ''Properties updated successfully''),
                                (''properties'', data)]),
                s\<lparr>fs := (fs s)(received_path s \<mapsto>
                     \<lparr>content = json_stringify4 data, mtime = now, ctime = now,
                      attr = file_attrs (fs s (received_path s))\<rparr>)\<rparr>)))"

section \<open>Routing\<close>

text \<open>
  Express matches a route path case-insensitively and, by default, with an optional
  trailing slash; an unmatched request gets the 404 page of the final handler.
  \<open>app.get\<close> also answers HEAD. An OPTIONS request to a route's path, which no route
  handles, is answered by the router itself with 200 and the route's methods
  (\<open>GET,HEAD\<close> for a route with \<open>get\<close>).
\<close>

definition lower_ascii :: "char \<Rightarrow> char" where
  "lower_ascii c = (if c \<in> set ''ABCDEFGHIJKLMNOPQRSTUVWXYZ'' then char_of (of_char c + (32::nat)) else c)"

definition route_matches :: "string \<Rightarrow> string \<Rightarrow> bool" where
  "route_matches route p \<longleftrightarrow>
     map lower_ascii p = route \<or> map lower_ascii p = route @ ''/''"

datatype request = Req string string query jsval
  \<comment> \<open>method, path, parsed query string, parsed body\<close>

definition handle_request ::
  "request \<Rightarrow> string option \<Rightarrow> nat \<Rightarrow> server \<Rightarrow> response \<times> server" where
  "handle_request r write_err now s =
     (case r of
        Req m p q body \<Rightarrow>
          if m = ''POST'' \<and> route_matches ''/update_properties'' p then
            update_properties body write_err now s
          else if (m = ''GET'' \<or> m = ''HEAD'') \<and> route_matches ''/properties_within_radius'' p then
            (properties_within_radius (snapshotData s) q, s)
          else if m = ''OPTIONS'' \<and> route_matches ''/update_properties'' p then (OptionsAllow ''POST'', s)
          else if m = ''OPTIONS'' \<and> route_matches ''/properties_within_radius'' p then (OptionsAllow ''GET,HEAD'', s)
          else (NotFound m p, s))"

section \<open>The process: an interleaving of events\<close>

text \<open>
  JavaScript runs one thing at a time: while \<open>loadData\<close> runs (at startup or in the
  watcher's listener) no request is served and no other poll fires, but the external
  writer may change the file system between two of its system calls. \<open>Loading b pc s\<close>
  is the process inside \<open>loadData\<close> about to make call \<open>pc\<close>; \<open>b\<close> marks the startup
  load, after which the watcher takes its first stat. An exception that escapes
  \<open>loadData\<close> ends the process.
\<close>

datatype proc = Running server | Loading bool load_pc server | Crashed js_error

text \<open>The listener of lines 27--33, as it starts \<open>loadData\<close> in the interleaved model.\<close>

definition listener_start :: "date \<Rightarrow> date \<Rightarrow> server \<Rightarrow> proc" where
  "listener_start curr_mtime prev_mtime s =
     (if obj_id curr_mtime \<noteq> obj_id prev_mtime then Loading False LExists s else Running s)"

text \<open>When the startup \<open>loadData()\<close> returns, line 27 registers the watcher, which has
  taken no stat yet.\<close>

definition finish_load :: "bool \<Rightarrow> server \<Rightarrow> server" where
  "finish_load at_startup s =
     (if at_startup then s\<lparr>watch_busy := PollIdle, watch_stat := zero_stat\<rparr> else s)"

definition boot :: "filesys \<Rightarrow> path \<Rightarrow> path \<Rightarrow> proc" where
  "boot f dir wd = Loading True LExists (init_state f dir wd)"

datatype event =
    FsWrite path "fentry option"   \<comment> \<open>another process writes or deletes a file\<close>
  | Poll                           \<comment> \<open>a tick of the stat watcher\<close>
  | LoadStep                       \<comment> \<open>the next system call of \<open>loadData\<close>\<close>
  | Request request response       \<comment> \<open>a request served, with its response\<close>

inductive sys_step :: "proc \<Rightarrow> event \<Rightarrow> proc \<Rightarrow> bool"
  where
  write_running: "sys_step (Running s) (FsWrite p e) (Running (s\<lparr>fs := (fs s)(p := e)\<rparr>))"
| write_loading: "sys_step (Loading b pc s) (FsWrite p e) (Loading b pc (s\<lparr>fs := (fs s)(p := e)\<rparr>))"
| poll_quiet: "poll_change s = None \<Longrightarrow> sys_step (Running s) Poll (Running (poll_quiet s))"
| poll_fire: "poll_change s = Some (c, d, s1) \<Longrightarrow> sys_step (Running s) Poll (listener_start c d s1)"
| load_continue: "load_step pc s = Continue pc' s' \<Longrightarrow> sys_step (Loading b pc s) LoadStep (Loading b pc' s')"
| load_return: "load_step pc s = Returned s' \<Longrightarrow> sys_step (Loading b pc s) LoadStep (Running (finish_load b s'))"
| load_throw: "load_step pc s = Thrown err \<Longrightarrow> sys_step (Loading b pc s) LoadStep (Crashed err)"
| request: "handle_request r write_err now s = (resp, s') \<Longrightarrow> sys_step (Running s) (Request r resp) (Running s')"

inductive_cases sys_step_RunningE: "sys_step (Running s) ev q"
inductive_cases sys_step_LoadingE: "sys_step (Loading b pc s) ev q"
inductive_cases sys_step_CrashedE: "sys_step (Crashed err) ev q"
inductive_simps sys_step_load_simps: "sys_step (Loading b pc s) LoadStep q"
inductive_simps sys_step_request_simps: "sys_step (Running s) (Request r resp) q"
inductive_simps sys_step_poll_simps: "sys_step (Running s) Poll q"

text \<open>A run: the events taken and the states they lead to.\<close>

fun steps :: "proc \<Rightarrow> (event \<times> proc) list \<Rightarrow> bool" where
  "steps p [] = True"
| "steps p ((ev, q) # rest) = (sys_step p ev q \<and> steps q rest)"

fun proc_server :: "proc \<Rightarrow> server option" where
  "proc_server (Running s) = Some s"
| "proc_server (Loading _ _ s) = Some s"
| "proc_server (Crashed _) = None"

definition decoded_in :: "json \<Rightarrow> path \<Rightarrow> filesys \<Rightarrow> bool" where
  "decoded_in v p f =
     (case f p of None \<Rightarrow> False | Some e \<Rightarrow> json_parse (strip_bom (content e)) = Some v)"

text \<open>Between \<open>require.resolve\<close> and \<open>require\<close> the module cache holds no snapshot entry.\<close>

definition cache_ok :: "proc \<Rightarrow> bool" where
  "cache_ok p = (case p of Loading _ LRequire s \<Rightarrow> require_cache s (snapshotPath s) = None | _ \<Rightarrow> True)"

text \<open>A snapshot is the initial empty array or the decoding of the snapshot file in one of
  the states \<open>H\<close>.\<close>

definition snap_from :: "server set \<Rightarrow> server \<Rightarrow> bool" where
  "snap_from H t \<longleftrightarrow>
     snapshotData t = JArr [] \<or> (\<exists>s \<in> H. decoded_in (snapshotData t) (snapshotPath t) (fs s))"


text \<open>A snapshot file holding one record in New York (the scenarios of section 8).\<close>

definition ny_file :: filesys where
  "ny_file = [''/app/data/snapshots/day_2.json'' \<mapsto>
     \<lparr>content = ''[{'' @ [CHR 0x22] @ ''latitude'' @ [CHR 0x22] @ '':40.7,'' @ [CHR 0x22] @ ''longitude''
        @ [CHR 0x22] @ '':-74,'' @ [CHR 0x22] @ ''id'' @ [CHR 0x22] @ '':'' @ [CHR 0x22] @ ''ny'' @ [CHR 0x22] @ ''}]'',
      mtime = 1, ctime = 1, attr = zero_attrs\<rparr>]"

section \<open>Properties of the process\<close>

lemma load_step_server:
  "load_step pc s = Continue pc' s' \<Longrightarrow>
     app_dir s' = app_dir s \<and> fs s' = fs s \<and> snapshotData s' = snapshotData s"
  by (cases pc) (auto split: option.splits if_splits sum.splits)

lemma js_require_Inr:
  "js_require p s = Inr (v, s2) \<Longrightarrow> require_cache s p = None \<Longrightarrow>
     decoded_in v p (fs s) \<and> app_dir s2 = app_dir s \<and> fs s2 = fs s"
  by (auto simp: js_require_def decoded_in_def split: option.splits if_splits)

lemma snapshotPath_fs [simp]: "snapshotPath (s\<lparr>fs := f\<rparr>) = snapshotPath s"
  by (simp add: snapshotPath_def)

lemma cache_ok_step: "sys_step p ev q \<Longrightarrow> cache_ok p \<Longrightarrow> cache_ok q"
proof (induction rule: sys_step.induct)
  case (poll_fire s c d s1)
  then show ?case by (auto simp: cache_ok_def listener_start_def)
next
  case (load_continue pc s pc' s' b)
  then show ?case by (cases pc) (auto simp: cache_ok_def split: option.splits if_splits sum.splits prod.splits)
qed (auto simp: cache_ok_def poll_quiet_def split: load_pc.splits option.splits)

lemma received_path_ne: "snapshotPath s \<noteq> received_path t"
proof
  assume eq: "snapshotPath s = received_path t"
  have "take 7 (rev ''data/snapshots/day_2.json'') = take 7 (rev ''received_properties.json'')"
    using eq unfolding snapshotPath_def received_path_def path_join_def
    by (intro append_eq_take_rev [of "(if app_dir s = ''/'' then [] else app_dir s) @ ''/''" _
          "(if cwd t = ''/'' then [] else cwd t) @ ''/''"]) simp_all
  then show False by simp
qed

lemma handle_request_frame:
  assumes "handle_request r werr now s = (resp, s')"
  shows "snapshotData s' = snapshotData s \<and> fs s' (snapshotPath s) = fs s (snapshotPath s) \<and>
         require_cache s' = require_cache s \<and> app_dir s' = app_dir s \<and>
         watch_busy s' = watch_busy s \<and> watch_stat s' = watch_stat s"
  using assms received_path_ne [of s s]
  by (auto simp: handle_request_def update_properties_def split: request.splits if_splits jsval.splits option.splits)

lemma finish_load_simps [simp]:
  "snapshotData (finish_load b s) = snapshotData s" "snapshotPath (finish_load b s) = snapshotPath s"
  "fs (finish_load b s) = fs s" "require_cache (finish_load b s) = require_cache s"
  "app_dir (finish_load b s) = app_dir s"
  by (simp_all add: finish_load_def snapshotPath_def)

lemma sys_step_snapshot:
  assumes "sys_step p ev q" and "cache_ok p" and "proc_server q = Some t"
  shows "\<exists>s. proc_server p = Some s \<and> snapshotPath t = snapshotPath s \<and>
           (snapshotData t = snapshotData s \<or> decoded_in (snapshotData t) (snapshotPath s) (fs s))"
  using assms
proof (induction rule: sys_step.induct)
  case (poll_fire s c d s1)
  then show ?case
    by (auto simp: poll_change_def listener_start_def Let_def snapshotPath_def split: if_splits option.splits)
next
  case (load_continue pc s pc' s' b)
  then show ?case using load_step_server [OF load_continue.hyps] by (auto simp: snapshotPath_def)
next
  case (load_return pc s s' b)
  then show ?case
  proof (cases pc)
    case LRequire
    with load_return show ?thesis
      by (auto simp: cache_ok_def snapshotPath_def split: sum.splits dest: js_require_Inr)
  qed (auto split: option.splits if_splits)
next
  case (request r write_err now s resp s')
  then show ?case using handle_request_frame [OF request.hyps] by (auto simp: snapshotPath_def)
qed (auto simp: snapshotPath_def)

lemma snap_from_step:
  assumes "sys_step p ev q" and "cache_ok p" and "proc_server p = Some s" and "s \<in> H"
    and "snap_from H s" and "proc_server q = Some t"
  shows "snap_from H t"
proof -
  from sys_step_snapshot [OF assms(1,2,6)] assms(3) have
    path: "snapshotPath t = snapshotPath s" and
    data: "snapshotData t = snapshotData s \<or> decoded_in (snapshotData t) (snapshotPath s) (fs s)"
    by auto
  from data show ?thesis
  proof
    assume "snapshotData t = snapshotData s"
    with assms(5) path show ?thesis by (simp add: snap_from_def)
  next
    assume "decoded_in (snapshotData t) (snapshotPath s) (fs s)"
    with assms(4) path show ?thesis by (auto simp: snap_from_def)
  qed
qed

lemma snap_from_mono: "snap_from H t \<Longrightarrow> H \<subseteq> H' \<Longrightarrow> snap_from H' t"
  by (auto simp: snap_from_def)

lemma steps_snap_from:
  assumes "steps p tr" and "cache_ok p" and "proc_server p = Some s" and "s \<in> H" and "snap_from H s"
    and "q \<in> set (map snd tr)" and "proc_server q = Some t"
  shows "snap_from (H \<union> set (List.map_filter proc_server (map snd tr))) t"
  using assms
proof (induction tr arbitrary: p s H)
  case Nil
  then show ?case by simp
next
  case (Cons x tr)
  obtain ev q1 where x: "x = (ev, q1)" by fastforce
  with Cons.prems have st: "sys_step p ev q1" and rest: "steps q1 tr" by simp_all
  have c1: "cache_ok q1" using cache_ok_step [OF st Cons.prems(2)] .
  show ?case
  proof (cases "proc_server q1")
    case None
    then obtain err where "q1 = Crashed err" by (cases q1) auto
    with rest have "tr = []" by (cases tr) (auto elim: sys_step_CrashedE)
    with Cons.prems x None show ?thesis by auto
  next
    case (Some t1)
    have snap1: "snap_from H t1" by (rule snap_from_step [OF st Cons.prems(2-5) Some])
    let ?H' = "insert t1 H"
    have ih: "q \<in> set (map snd tr) \<Longrightarrow>
              snap_from (?H' \<union> set (List.map_filter proc_server (map snd tr))) t"
      using Cons.IH [OF rest c1 Some, of ?H'] snap1 Cons.prems(7)
      by (auto intro: snap_from_mono)
    have eqH: "?H' \<union> set (List.map_filter proc_server (map snd tr)) =
               H \<union> set (List.map_filter proc_server (map snd (x # tr)))"
      using x Some by (auto simp: List.map_filter_def)
    show ?thesis
    proof (cases "q = q1")
      case True
      with Some Cons.prems(7) snap1 x show ?thesis by (auto intro: snap_from_mono simp: List.map_filter_def)
    next
      case False
      with Cons.prems(6) x have "q \<in> set (map snd tr)" by simp
      then show ?thesis using ih eqH by simp
    qed
  qed
qed

text \<open>Loading at startup with no other process acting.\<close>

lemma boot_load_path:
  assumes "f (snapshotPath (init_state f dir wd)) = Some e" and "content e \<noteq> []"
    and "json_parse (strip_bom (content e)) = Some v"
    and "steps (boot f dir wd) [(LoadStep, p1), (LoadStep, p2), (LoadStep, p3), (LoadStep, p4)]"
  shows "\<exists>s. p4 = Running s \<and> snapshotData s = v \<and> snapshotPath s = snapshotPath (init_state f dir wd) \<and>
             watch_busy s = PollIdle"
  using assms
  by (auto simp: boot_def sys_step_load_simps js_require_def domI snapshotPath_def init_state_def
      finish_load_def)

lemma boot_load_exists:
  assumes "f (snapshotPath (init_state f dir wd)) = Some e" and "content e \<noteq> []"
    and "json_parse (strip_bom (content e)) = Some v"
  shows "\<exists>p1 p2 p3 s. steps (boot f dir wd)
           [(LoadStep, p1), (LoadStep, p2), (LoadStep, p3), (LoadStep, Running s)]"
proof -
  let ?s0 = "init_state f dir wd"
  let ?s2 = "?s0\<lparr>require_cache := (require_cache ?s0)(snapshotPath ?s0 := None),
                  resolved := insert (snapshotPath ?s0) (resolved ?s0)\<rparr>"
  let ?s3 = "?s2\<lparr>require_cache := (require_cache ?s2)(snapshotPath ?s0 \<mapsto> v),
                  resolved := insert (snapshotPath ?s0) (resolved ?s2), snapshotData := v\<rparr>"
  have "steps (boot f dir wd)
          [(LoadStep, Loading True LStat ?s0), (LoadStep, Loading True LResolve ?s0),
           (LoadStep, Loading True LRequire ?s2), (LoadStep, Running (finish_load True ?s3))]"
    using assms by (simp add: boot_def sys_step_load_simps js_require_def domI)
  then show ?thesis by blast
qed

lemma ny_file_snapshot:
  "ny_file (snapshotPath (init_state ny_file ''/app'' ''/app'')) = Some (the (ny_file ''/app/data/snapshots/day_2.json''))"
  "content (the (ny_file ''/app/data/snapshots/day_2.json'')) \<noteq> []"
  "json_parse (strip_bom (content (the (ny_file ''/app/data/snapshots/day_2.json'')))) = Some (JArr [ny_record])"
  by (simp_all add: ny_file_def snapshotPath_def init_state_def path_join_def json_parse_def strip_bom_def
      pstep_def value_start_def is_json_ws_def lex_number_def lex_frac_def lex_exp_def js_simps norm_dec.simps
      ny_record_def)

text \<open>C5: Along every run from startup, with requests, polls, the system calls of loadData and writes by another process interleaved, snapshotData is always the initial empty array or the complete decoding of the snapshot file as it stood in some state of the run: readers never see a partial or invented snapshot.\<close>

theorem run_snapshot_decoded:
  assumes "steps (boot f dir wd) tr" and "q \<in> set (map snd tr)" and "proc_server q = Some t"
  shows "snapshotData t = JArr [] \<or>
         (\<exists>s \<in> set (List.map_filter proc_server (boot f dir wd # map snd tr)).
            decoded_in (snapshotData t) (snapshotPath t) (fs s))"
proof -
  let ?s0 = "init_state f dir wd"
  have c0: "cache_ok (boot f dir wd)" by (simp add: cache_ok_def boot_def)
  have s0: "snap_from {?s0} ?s0" by (simp add: snap_from_def init_state_def)
  have "snap_from ({?s0} \<union> set (List.map_filter proc_server (map snd tr))) t"
    by (rule steps_snap_from [OF assms(1) c0 _ _ s0 assms(2,3)]) (simp_all add: boot_def)
  then show ?thesis by (auto simp: snap_from_def boot_def List.map_filter_def)
qed

theorem run_snapshot_decoded_witness:
  "\<exists>tr t. steps (boot ny_file ''/app'' ''/app'') tr \<and> snd (last tr) = Running t \<and>
     fs t ''/app/data/snapshots/day_2.json'' = None \<and> snapshotData t = JArr [ny_record] \<and>
     (snapshotData t = JArr [] \<or>
      (\<exists>s \<in> set (List.map_filter proc_server (boot ny_file ''/app'' ''/app'' # map snd tr)).
         decoded_in (snapshotData t) (snapshotPath t) (fs s)))"
proof -
  obtain p1 p2 p3 s where run:
    "steps (boot ny_file ''/app'' ''/app'') [(LoadStep, p1), (LoadStep, p2), (LoadStep, p3), (LoadStep, Running s)]"
    using boot_load_exists [where f = ny_file and dir = "''/app''" and wd = "''/app''", OF ny_file_snapshot] by auto
  obtain s' where "Running s = Running s'" and "snapshotData s' = JArr [ny_record]"
    and "snapshotPath s' = snapshotPath (init_state ny_file ''/app'' ''/app'')"
    using boot_load_path [where f = ny_file and dir = "''/app''" and wd = "''/app''", OF ny_file_snapshot run] by blast
  then have d: "snapshotData s = JArr [ny_record]" and pth: "snapshotPath s = ''/app/data/snapshots/day_2.json''"
    by (simp_all add: snapshotPath_def init_state_def path_join_def)
  let ?t = "s\<lparr>fs := (fs s)(''/app/data/snapshots/day_2.json'' := None)\<rparr>"
  let ?tr = "[(LoadStep, p1), (LoadStep, p2), (LoadStep, p3), (LoadStep, Running s),
              (FsWrite ''/app/data/snapshots/day_2.json'' None, Running ?t)]"
  have tr: "steps (boot ny_file ''/app'' ''/app'') ?tr"
    using run sys_step.write_running [of s "''/app/data/snapshots/day_2.json''" None] by simp
  have "snapshotData ?t = JArr [] \<or>
        (\<exists>s \<in> set (List.map_filter proc_server (boot ny_file ''/app'' ''/app'' # map snd ?tr)).
           decoded_in (snapshotData ?t) (snapshotPath ?t) (fs s))"
    by (rule run_snapshot_decoded [OF tr, where q = "Running ?t" and t = ?t]) simp_all
  then show ?thesis using tr d by (intro exI [of _ ?tr] exI [of _ ?t]) simp
qed

text \<open>C6: If another process deletes the snapshot file between loadData's existsSync and statSync, statSync throws outside the try block and the process crashes: from every state in which the snapshot file exists and a poll calls the listener, some interleaving ends in a crash with ENOENT.\<close>

theorem watcher_toctou_crash:
  assumes "fs s (snapshotPath s) = Some e"
    and "poll_change s \<noteq> None"
  shows "\<exists>tr. steps (Running s) tr \<and> snd (last tr) = Crashed (FsError ''ENOENT'' (snapshotPath s))"
proof -
  obtain c d s1 where pc: "poll_change s = Some (c, d, s1)" using assms(2) by auto
  have ids: "obj_id c \<noteq> obj_id d" and p1: "snapshotPath s1 = snapshotPath s" and f1: "fs s1 = fs s"
    using poll_change_Some [OF pc] by simp_all
  let ?s2 = "s1\<lparr>fs := (fs s1)(snapshotPath s := None)\<rparr>"
  have "steps (Running s)
          [(Poll, Loading False LExists s1), (LoadStep, Loading False LStat s1),
           (FsWrite (snapshotPath s) None, Loading False LStat ?s2),
           (LoadStep, Crashed (FsError ''ENOENT'' (snapshotPath s)))]"
  proof -
    have "sys_step (Running s) Poll (Loading False LExists s1)"
      using sys_step.poll_fire [OF pc] ids by (simp add: listener_start_def)
    moreover have "sys_step (Loading False LExists s1) LoadStep (Loading False LStat s1)"
      by (rule sys_step.load_continue) (use assms(1) p1 f1 in \<open>simp add: domI\<close>)
    moreover have "sys_step (Loading False LStat s1) (FsWrite (snapshotPath s) None) (Loading False LStat ?s2)"
      by (rule sys_step.write_loading)
    moreover have "sys_step (Loading False LStat ?s2) LoadStep (Crashed (FsError ''ENOENT'' (snapshotPath s)))"
      by (rule sys_step.load_throw) (simp add: p1)
    ultimately show ?thesis by simp
  qed
  then show ?thesis by fastforce
qed

theorem watcher_toctou_crash_witness:
  "\<exists>tr. steps (Running ((init_state [''/app/data/snapshots/day_2.json'' \<mapsto> \<lparr>content = ''[]'', mtime = 1, ctime = 1, attr = zero_attrs\<rparr>] ''/app'' ''/app'')\<lparr>watch_busy := PollOk\<rparr>)) tr \<and>
        snd (last tr) = Crashed (FsError ''ENOENT'' ''/app/data/snapshots/day_2.json'')"
  using watcher_toctou_crash [of "(init_state [''/app/data/snapshots/day_2.json'' \<mapsto> \<lparr>content = ''[]'', mtime = 1, ctime = 1, attr = zero_attrs\<rparr>] ''/app'' ''/app'')\<lparr>watch_busy := PollOk\<rparr>" "\<lparr>content = ''[]'', mtime = 1, ctime = 1, attr = zero_attrs\<rparr>"]
  by (simp add: init_state_def snapshotPath_def path_join_def stat_of_def zero_stat_def poll_change_def)

text \<open>C13: When a poll calls the listener (the file's stat changed, or it reappeared) and the file holds valid JSON v, that poll followed by the four system calls of loadData, with no other process acting, brings the process back to serving requests with snapshot v.\<close>

theorem poll_then_load_fresh:
  assumes "poll_change s \<noteq> None"
    and "fs s (snapshotPath s) = Some e"
    and "content e \<noteq> []" and "json_parse (strip_bom (content e)) = Some v"
  shows "\<exists>tr t. steps (Running s) tr \<and> map fst tr = [Poll, LoadStep, LoadStep, LoadStep, LoadStep] \<and>
           snd (last tr) = Running t \<and> snapshotData t = v"
proof -
  obtain c d s1 where pc: "poll_change s = Some (c, d, s1)" using assms(1) by auto
  have ids: "obj_id c \<noteq> obj_id d" and p1: "snapshotPath s1 = snapshotPath s" and f1: "fs s1 = fs s"
    using poll_change_Some [OF pc] by simp_all
  let ?s2 = "s1\<lparr>require_cache := (require_cache s1)(snapshotPath s := None),
                  resolved := insert (snapshotPath s) (resolved s1)\<rparr>"
  let ?s3 = "?s2\<lparr>require_cache := (require_cache ?s2)(snapshotPath s \<mapsto> v),
                  resolved := insert (snapshotPath s) (resolved ?s2), snapshotData := v\<rparr>"
  have "steps (Running s)
          [(Poll, Loading False LExists s1), (LoadStep, Loading False LStat s1),
           (LoadStep, Loading False LResolve s1), (LoadStep, Loading False LRequire ?s2),
           (LoadStep, Running ?s3)]"
  proof -
    have "sys_step (Running s) Poll (Loading False LExists s1)"
      using sys_step.poll_fire [OF pc] ids by (simp add: listener_start_def)
    moreover have "sys_step (Loading False LExists s1) LoadStep (Loading False LStat s1)"
      by (rule sys_step.load_continue) (use assms(2) p1 f1 in \<open>simp add: domI\<close>)
    moreover have "sys_step (Loading False LStat s1) LoadStep (Loading False LResolve s1)"
      by (rule sys_step.load_continue) (use assms(2,3) p1 f1 in simp)
    moreover have "sys_step (Loading False LResolve s1) LoadStep (Loading False LRequire ?s2)"
      by (rule sys_step.load_continue) (use assms(2) p1 f1 in \<open>simp add: domI\<close>)
    moreover have "sys_step (Loading False LRequire ?s2) LoadStep (Running ?s3)"
    proof -
      have "load_step LRequire ?s2 = Returned ?s3"
        using assms(2,4) p1 f1 by (simp add: js_require_def)
      then have "sys_step (Loading False LRequire ?s2) LoadStep (Running (finish_load False ?s3))"
        by (rule sys_step.load_return)
      then show ?thesis by (simp add: finish_load_def)
    qed
    ultimately show ?thesis by simp
  qed
  then show ?thesis by fastforce
qed

theorem poll_then_load_fresh_witness:
  "\<exists>tr t. steps (Running ((init_state [''/app/data/snapshots/day_2.json'' \<mapsto> \<lparr>content = ''[]'', mtime = 1, ctime = 1, attr = zero_attrs\<rparr>] ''/app'' ''/app'')\<lparr>watch_busy := PollOk\<rparr>)) tr \<and> map fst tr = [Poll, LoadStep, LoadStep, LoadStep, LoadStep] \<and>
           snd (last tr) = Running t \<and> snapshotData t = JArr []"
  using poll_then_load_fresh [of "(init_state [''/app/data/snapshots/day_2.json'' \<mapsto> \<lparr>content = ''[]'', mtime = 1, ctime = 1, attr = zero_attrs\<rparr>] ''/app'' ''/app'')\<lparr>watch_busy := PollOk\<rparr>" "\<lparr>content = ''[]'', mtime = 1, ctime = 1, attr = zero_attrs\<rparr>" "JArr []"]
  by (simp add: init_state_def snapshotPath_def path_join_def stat_of_def zero_stat_def poll_change_def json_parse_def
      strip_bom_def pstep_def value_start_def is_json_ws_def)

lemma poll_armed_idle:
  assumes "watch_busy t = PollOk" and "fs t (snapshotPath t) \<noteq> None"
    and "watch_stat t = stat_of (fs t) (snapshotPath t)"
  shows "sys_step (Running t) Poll q \<longleftrightarrow> q = Running t"
  using assms by (auto simp: sys_step_poll_simps poll_change_def poll_quiet_def Let_def)

text \<open>C16: A change written during startup is never loaded: when another process rewrites the snapshot file after startup's loadData has read it but before the watcher's first stat (fs.watchFile takes its baseline asynchronously, after line 27), the watcher records the new stat as its baseline, so from then on every poll does nothing and snapshotData keeps the old decoding while the file holds a different content, until the file changes again.\<close>

theorem startup_write_missed:
  assumes "f (snapshotPath (init_state f dir wd)) = Some e" and "content e \<noteq> []"
    and "json_parse (strip_bom (content e)) = Some v"
  shows "\<exists>tr t. steps (boot f dir wd) tr \<and>
           map fst tr = [LoadStep, LoadStep, LoadStep, LoadStep,
                         FsWrite (snapshotPath (init_state f dir wd)) (Some e'), Poll] \<and>
           snd (last tr) = Running t \<and> snapshotData t = v \<and> fs t (snapshotPath t) = Some e' \<and>
           (\<forall>q. sys_step (Running t) Poll q \<longleftrightarrow> q = Running t)"
proof -
  let ?P = "snapshotPath (init_state f dir wd)"
  obtain p1 p2 p3 s where run: "steps (boot f dir wd) [(LoadStep, p1), (LoadStep, p2), (LoadStep, p3), (LoadStep, Running s)]"
    using boot_load_exists [where f = f and dir = dir and wd = wd, OF assms] by blast
  obtain s' where "Running s = Running s'" and data: "snapshotData s' = v" and path: "snapshotPath s' = ?P"
    and unarmed: "watch_busy s' = PollIdle"
    using boot_load_path [where f = f and dir = dir and wd = wd, OF assms run] by blast
  then have s: "snapshotData s = v" "snapshotPath s = ?P" "watch_busy s = PollIdle" by simp_all
  let ?s1 = "s\<lparr>fs := (fs s)(?P \<mapsto> e')\<rparr>"
  let ?t = "poll_quiet ?s1"
  have w: "sys_step (Running s) (FsWrite ?P (Some e')) (Running ?s1)" by (rule sys_step.write_running)
  have p: "sys_step (Running ?s1) Poll (Running ?t)" by (rule sys_step.poll_quiet) (simp add: s poll_change_def)
  have t: "snapshotData ?t = v" "fs ?t (snapshotPath ?t) = Some e'"
      "watch_busy ?t = PollOk" "fs ?t (snapshotPath ?t) \<noteq> None"
      "watch_stat ?t = stat_of (fs ?t) (snapshotPath ?t)"
    using s by (simp_all add: poll_quiet_def)
  have "steps (boot f dir wd) [(LoadStep, p1), (LoadStep, p2), (LoadStep, p3), (LoadStep, Running s),
          (FsWrite ?P (Some e'), Running ?s1), (Poll, Running ?t)]"
    using run w p by simp
  then show ?thesis using t poll_armed_idle [OF t(3-5)] by fastforce
qed

theorem startup_write_missed_witness:
  "\<exists>tr t. steps (boot [''/app/data/snapshots/day_2.json'' \<mapsto> \<lparr>content = ''[]'', mtime = 1, ctime = 1, attr = zero_attrs\<rparr>] ''/app'' ''/app'') tr \<and>
     map fst tr = [LoadStep, LoadStep, LoadStep, LoadStep,
                   FsWrite ''/app/data/snapshots/day_2.json'' (Some \<lparr>content = ''[{}]'', mtime = 2, ctime = 2, attr = zero_attrs\<rparr>), Poll] \<and>
     snd (last tr) = Running t \<and> snapshotData t = JArr [] \<and>
     fs t (snapshotPath t) = Some \<lparr>content = ''[{}]'', mtime = 2, ctime = 2, attr = zero_attrs\<rparr> \<and>
     (\<forall>q. sys_step (Running t) Poll q \<longleftrightarrow> q = Running t)"
proof -
  have f: "[''/app/data/snapshots/day_2.json'' \<mapsto> \<lparr>content = ''[]'', mtime = 1, ctime = 1, attr = zero_attrs\<rparr>]
             (snapshotPath (init_state [''/app/data/snapshots/day_2.json'' \<mapsto> \<lparr>content = ''[]'', mtime = 1, ctime = 1, attr = zero_attrs\<rparr>] ''/app'' ''/app''))
           = Some \<lparr>content = ''[]'', mtime = 1, ctime = 1, attr = zero_attrs\<rparr>"
    and sp: "snapshotPath (init_state [''/app/data/snapshots/day_2.json'' \<mapsto> \<lparr>content = ''[]'', mtime = 1, ctime = 1, attr = zero_attrs\<rparr>] ''/app'' ''/app'')
           = ''/app/data/snapshots/day_2.json''"
    by (simp_all add: snapshotPath_def init_state_def path_join_def)
  have ne: "content \<lparr>content = ''[]'', mtime = 1, ctime = 1, attr = zero_attrs\<rparr> \<noteq> []" by simp
  have "json_parse (strip_bom (content \<lparr>content = ''[]'', mtime = 1, ctime = 1, attr = zero_attrs\<rparr>)) = Some (JArr [])"
    by (simp add: json_parse_def strip_bom_def pstep_def value_start_def is_json_ws_def)
  from startup_write_missed [where f = "[''/app/data/snapshots/day_2.json'' \<mapsto> \<lparr>content = ''[]'', mtime = 1, ctime = 1, attr = zero_attrs\<rparr>]"
      and dir = "''/app''" and wd = "''/app''" and e' = "\<lparr>content = ''[{}]'', mtime = 2, ctime = 2, attr = zero_attrs\<rparr>"
      , OF f ne this]
  show ?thesis by (simp only: sp)
qed

text \<open>C21: Serving a request, GET or POST, never changes snapshotData and never writes the snapshot file: the pass-through endpoint writes received_properties.json, whose name differs from day_2.json.\<close>

theorem request_keeps_snapshot:
  assumes "sys_step (Running s) (Request r resp) q"
  shows "\<exists>s'. q = Running s' \<and> snapshotData s' = snapshotData s \<and>
              fs s' (snapshotPath s) = fs s (snapshotPath s)"
  using assms by (auto elim!: sys_step_RunningE dest!: handle_request_frame)


theorem request_keeps_snapshot_witness:
  "\<exists>resp s'. sys_step (Running (init_state ny_file ''/app'' ''/app''))
       (Request (Req ''POST'' ''/update_properties'' [] (Val (JArr []))) resp) (Running s') \<and>
     snapshotData s' = JArr [] \<and>
     fs s' ''/app/data/snapshots/day_2.json'' = ny_file ''/app/data/snapshots/day_2.json'' \<and>
     fs s' ''/app/received_properties.json'' = Some \<lparr>content = ''[]'', mtime = 0, ctime = 0, attr = zero_attrs\<rparr>"
proof -
  let ?s = "init_state ny_file ''/app'' ''/app''"
  let ?r = "Req ''POST'' ''/update_properties'' [] (Val (JArr []))"
  have st: "sys_step (Running ?s) (Request ?r (fst (handle_request ?r None 0 ?s))) (Running (snd (handle_request ?r None 0 ?s)))"
    by (rule sys_step.request) simp
  from request_keeps_snapshot [OF st] obtain s' where
    "Running (snd (handle_request ?r None 0 ?s)) = Running s'" and "snapshotData s' = snapshotData ?s"
    and "fs s' (snapshotPath ?s) = fs ?s (snapshotPath ?s)"
    by blast
  moreover have "fs (snd (handle_request ?r None 0 ?s)) ''/app/received_properties.json'' =
      Some \<lparr>content = ''[]'', mtime = 0, ctime = 0, attr = zero_attrs\<rparr>"
    by (simp add: handle_request_def route_matches_def lower_ascii_def update_properties_def received_path_def
        path_join_def init_state_def json_stringify4_def file_attrs_def ny_file_def)
  ultimately show ?thesis using st
    by (auto simp: init_state_def snapshotPath_def path_join_def)
qed

text \<open>C22: The pass-through endpoint changes no file but received_properties.json, and never the snapshot or the module cache, whatever the body and whether the write fails.\<close>

theorem update_properties_frame:
  assumes "update_properties body write_err now s = (resp, s')"
  shows "(\<forall>p. p \<noteq> received_path s \<longrightarrow> fs s' p = fs s p) \<and> snapshotData s' = snapshotData s \<and>
         require_cache s' = require_cache s"
  using assms by (auto simp: update_properties_def split: jsval.splits option.splits)

theorem update_properties_frame_witness:
  "fs (snd (update_properties (Val JNull) None 5 (init_state [''/app/data/snapshots/day_2.json'' \<mapsto> \<lparr>content = ''[]'', mtime = 1, ctime = 1, attr = zero_attrs\<rparr>] ''/app'' ''/app''))) ''/app/data/snapshots/day_2.json'' =
     Some \<lparr>content = ''[]'', mtime = 1, ctime = 1, attr = zero_attrs\<rparr>"
proof -
  have "''/app/data/snapshots/day_2.json'' \<noteq> received_path (init_state [''/app/data/snapshots/day_2.json'' \<mapsto> \<lparr>content = ''[]'', mtime = 1, ctime = 1, attr = zero_attrs\<rparr>] ''/app'' ''/app'')"
    by (simp add: received_path_def init_state_def path_join_def)
  with update_properties_frame [of "Val JNull" None 5 "init_state [''/app/data/snapshots/day_2.json'' \<mapsto> \<lparr>content = ''[]'', mtime = 1, ctime = 1, attr = zero_attrs\<rparr>] ''/app'' ''/app''" "fst (update_properties (Val JNull) None 5 (init_state [''/app/data/snapshots/day_2.json'' \<mapsto> \<lparr>content = ''[]'', mtime = 1, ctime = 1, attr = zero_attrs\<rparr>] ''/app'' ''/app''))"
      "snd (update_properties (Val JNull) None 5 (init_state [''/app/data/snapshots/day_2.json'' \<mapsto> \<lparr>content = ''[]'', mtime = 1, ctime = 1, attr = zero_attrs\<rparr>] ''/app'' ''/app''))"]
  show ?thesis by (simp add: init_state_def)
qed

text \<open>C23: The pass-through endpoint answers 500 exactly when the body is undefined (JSON.stringify gives undefined, which writeFileSync refuses) or the write fails, and 200 otherwise.\<close>

theorem update_properties_status:
  "status (fst (update_properties body write_err now s)) =
     (if body = Undefined \<or> write_err \<noteq> None then 500 else 200)"
  by (auto simp: update_properties_def split: jsval.splits option.splits)

section \<open>Routing\<close>

lemma update_properties_status_cases: "status (fst (update_properties b werr now s)) \<in> {200, 500}"
  by (auto simp: update_properties_def split: jsval.splits option.splits)

lemma properties_within_radius_status_cases:
  "status (properties_within_radius d q) \<in> {200, 400, 500}"
  by (auto simp: properties_within_radius_def split: json.splits sum.splits)

text \<open>C25: Express answers 404 exactly for the requests that match no route: a POST to /update_properties, a GET or HEAD to /properties_within_radius, and an OPTIONS to either path (answered 200 by the router with the route's methods) never get 404, paths compared case-insensitively with an optional trailing slash, and the handlers never answer 404 themselves.\<close>

theorem handle_request_404_iff:
  "status (fst (handle_request (Req m p q b) werr now s)) = 404 \<longleftrightarrow>
     \<not> (m = ''POST'' \<and> route_matches ''/update_properties'' p) \<and>
     \<not> ((m = ''GET'' \<or> m = ''HEAD'') \<and> route_matches ''/properties_within_radius'' p) \<and>
     \<not> (m = ''OPTIONS'' \<and> (route_matches ''/update_properties'' p \<or> route_matches ''/properties_within_radius'' p))"
proof -
  have "status (fst (update_properties b werr now s)) \<noteq> 404"
    using update_properties_status_cases [of b werr now s] by auto
  moreover have "status (properties_within_radius (snapshotData s) q) \<noteq> 404"
    using properties_within_radius_status_cases [of "snapshotData s" q] by auto
  ultimately show ?thesis by (auto simp: handle_request_def)
qed

theorem handle_request_404_iff_witness:
  "status (fst (handle_request (Req ''GET'' ''/Properties_within_radius/'' [] Undefined) None 0
     (init_state Map.empty ''/app'' ''/app''))) \<noteq> 404 \<and>
   status (fst (handle_request (Req ''POST'' ''/properties_within_radius'' [] Undefined) None 0
     (init_state Map.empty ''/app'' ''/app''))) = 404 \<and>
   status (fst (handle_request (Req ''OPTIONS'' ''/properties_within_radius'' [] Undefined) None 0
     (init_state Map.empty ''/app'' ''/app''))) \<noteq> 404"
proof -
  have r1: "route_matches ''/properties_within_radius'' ''/Properties_within_radius/''"
    using char_of_char [of "CHR ''p''"] by (simp add: route_matches_def lower_ascii_def)
  have r2: "route_matches ''/properties_within_radius'' ''/properties_within_radius''"
    by (simp add: route_matches_def lower_ascii_def)
  have r3: "\<not> route_matches ''/update_properties'' ''/properties_within_radius''"
    by (simp add: route_matches_def lower_ascii_def)
  show ?thesis
    using handle_request_404_iff [of "''GET''" "''/Properties_within_radius/''" "[]" Undefined None 0]
      handle_request_404_iff [of "''POST''" "''/properties_within_radius''" "[]" Undefined None 0]
      handle_request_404_iff [of "''OPTIONS''" "''/properties_within_radius''" "[]" Undefined None 0]
      r1 r2 r3 by simp
qed

end
