(* ===== verification/Json_Roundtrip.thy ===== *)
theory Json_Roundtrip
  imports Json_Print
begin

text \<open>
  \<open>JSON.parse\<close> reads back what \<open>JSON.stringify(v, null, 4)\<close> writes: the text that the
  pass-through endpoint writes to received_properties.json (src/server.js, line 44) decodes
  to the value it was given, with its numbers in normal form and the members of each object
  in the order \<open>JSON.stringify\<close> enumerates them (\<open>canon\<close>). The proof follows the parser:
  string literals (every byte survives \<open>QuoteJSONString\<close> and the lexer), number literals
  (Number::toString in each of its four notations is read back by the number lexer), the
  token stream of a printed value (\<open>json_tokens\<close>, white space of the indentation skipped),
  and the push-down automaton over that stream.
\<close>

section \<open>String literals\<close>

lemma lower_hex_iff: "c \<in> set ''abcdef'' \<longleftrightarrow> 97 \<le> (of_char c :: nat) \<and> (of_char c :: nat) < 103"
  by (simp add: char_eq_of_char [of c]) presburger

lemma upper_hex_iff: "c \<in> set ''ABCDEF'' \<longleftrightarrow> 65 \<le> (of_char c :: nat) \<and> (of_char c :: nat) < 71"
  by (simp add: char_eq_of_char [of c]) presburger

lemma hex_val_code:
  "hex_val c =
     (let k = (of_char c :: nat) in
      if 48 \<le> k \<and> k < 58 then Some (k - 48) else if 97 \<le> k \<and> k < 103 then Some (k - 87)
      else if 65 \<le> k \<and> k < 71 then Some (k - 55) else None)"
  by (simp only: hex_val_def is_digit_iff lower_hex_iff upper_hex_iff Let_def)

lemma hex_val_hex_digit: "n < 16 \<Longrightarrow> hex_val (hex_digit n) = Some n"
  by (simp add: hex_val_code hex_digit_def of_char_of)

lemma hex4_control:
  assumes "of_char c < (32::nat)"
  shows "hex4 [CHR ''0'', CHR ''0'', hex_digit (of_char c div 16), hex_digit (of_char c mod 16)] = Some (of_char c)"
proof -
  have a: "hex_val (hex_digit (of_char c div 16)) = Some (of_char c div 16)"
    by (rule hex_val_hex_digit) (use assms in simp)
  have b: "hex_val (hex_digit (of_char c mod 16)) = Some (of_char c mod 16)"
    by (rule hex_val_hex_digit) simp
  have z: "hex_val (CHR ''0'') = Some 0" by (simp add: hex_val_def is_digit_def)
  have "(of_char c div 16) * 16 + of_char c mod 16 = (of_char c :: nat)" by simp
  then show ?thesis by (simp only: hex4.simps a b z option.case prod.case) simp
qed

lemma quote_char_cases:
  "(\<exists>e. quote_char c = [CHR 0x5C, e] \<and> e \<noteq> CHR ''u'' \<and> escape_char e = Some c) \<or>
   (quote_char c = [CHR 0x5C, CHR ''u'', CHR ''0'', CHR ''0'', hex_digit (of_char c div 16),
                    hex_digit (of_char c mod 16)] \<and> of_char c < (32::nat)) \<or>
   (quote_char c = [c] \<and> c \<noteq> CHR 0x22 \<and> c \<noteq> CHR 0x5C \<and> \<not> of_char c < (32::nat))"
  unfolding quote_char_def by (auto simp: escape_char_def)

lemma lex_string_quote:
  "lex_string (concat (map quote_char s) @ CHR 0x22 # rest) acc = Some (rev acc @ s, rest)"
proof (induction s arbitrary: acc)
  case Nil
  then show ?case by simp
next
  case (Cons c s)
  from quote_char_cases [of c] show ?case
  proof (elim disjE exE conjE)
    fix e assume "quote_char c = [CHR 0x5C, e]" "e \<noteq> CHR ''u''" "escape_char e = Some c"
    then show ?case using Cons.IH [of "c # acc"] by simp
  next
    assume q: "quote_char c = [CHR 0x5C, CHR ''u'', CHR ''0'', CHR ''0'', hex_digit (of_char c div 16),
                    hex_digit (of_char c mod 16)]" and lt: "of_char c < (32::nat)"
    have "utf8_unit (of_char c) = [c]" using lt by (simp add: utf8_unit_def)
    then show ?case using q hex4_control [OF lt] Cons.IH [of "c # acc"] by simp
  next
    assume "quote_char c = [c]" "c \<noteq> CHR 0x22" "c \<noteq> CHR 0x5C" "\<not> of_char c < (32::nat)"
    then show ?case using Cons.IH [of "c # acc"] by simp
  qed
qed

section \<open>Number literals\<close>

subsection \<open>Digit strings\<close>

definition starts_digit :: "string \<Rightarrow> bool" where
  "starts_digit r = (case r of c # _ \<Rightarrow> is_digit c | [] \<Rightarrow> False)"

lemma is_digit_char_of: "(k::nat) < 10 \<Longrightarrow> is_digit (char_of (48 + k))"
  by (simp add: is_digit_iff of_char_of)

lemma digit_val_char_of: "(k::nat) < 10 \<Longrightarrow> digit_val (char_of (48 + k)) = int k"
  by (simp add: digit_val_def of_char_of)

lemma foldl_digits: "foldl (\<lambda>a d. 10 * a + digit_val d) a ys = a * 10 ^ length ys + digits_int ys"
proof (induction ys arbitrary: a)
  case Nil
  then show ?case by (simp add: digits_int_def)
next
  case (Cons y ys)
  have d: "digits_int (y # ys) = digit_val y * 10 ^ length ys + digits_int ys"
    using Cons.IH [of "digit_val y"] by (simp add: digits_int_def)
  have "foldl (\<lambda>a d. 10 * a + digit_val d) a (y # ys) = (10 * a + digit_val y) * 10 ^ length ys + digits_int ys"
    using Cons.IH [of "10 * a + digit_val y"] by simp
  also have "\<dots> = a * 10 ^ length (y # ys) + digits_int (y # ys)"
    by (simp add: d distrib_right)
  finally show ?case .
qed

lemma digits_int_append: "digits_int (xs @ ys) = digits_int xs * 10 ^ length ys + digits_int ys"
proof -
  have "digits_int (xs @ ys) = foldl (\<lambda>a d. 10 * a + digit_val d) (digits_int xs) ys"
    by (simp only: digits_int_def foldl_append)
  also have "\<dots> = digits_int xs * 10 ^ length ys + digits_int ys"
    by (rule foldl_digits)
  finally show ?thesis .
qed

lemma digits_int_zeros: "digits_int (replicate z (CHR ''0'') @ ys) = digits_int ys"
proof (induction z)
  case 0
  then show ?case by simp
next
  case (Suc z)
  have "digits_int (CHR ''0'' # xs) = digits_int xs" for xs
    using digits_int_append [of "[CHR ''0'']" xs] by (simp add: digits_int_def digit_val_def)
  with Suc show ?case by simp
qed

lemma nat_digits_props:
  "nat_digits n \<noteq> [] \<and> (\<forall>c \<in> set (nat_digits n). is_digit c) \<and>
   digits_int (nat_digits n) = int n \<and> (0 < n \<longrightarrow> hd (nat_digits n) \<noteq> CHR ''0'')"
proof (induction n rule: nat_digits.induct)
  case (1 n)
  show ?case
  proof (cases "n < 10")
    case True
    have "char_of (48 + n) \<noteq> CHR ''0''" if "0 < n"
      using that True by (simp add: char_eq_of_char of_char_of)
    then show ?thesis using True
      by (simp add: nat_digits.simps [of n] is_digit_char_of digits_int_def digit_val_char_of)
  next
    case False
    then have ih: "nat_digits (n div 10) \<noteq> [] \<and> (\<forall>c \<in> set (nat_digits (n div 10)). is_digit c) \<and>
        digits_int (nat_digits (n div 10)) = int (n div 10) \<and> hd (nat_digits (n div 10)) \<noteq> CHR ''0''"
      using "1.IH" by simp
    have "int (n div 10) * 10 + int (n mod 10) = int (n div 10 * 10 + n mod 10)"
      by (simp only: of_nat_add of_nat_mult of_nat_numeral)
    also have "\<dots> = int n" by (simp only: div_mult_mod_eq)
    finally have "int (n div 10) * 10 + int (n mod 10) = int n" .
    then show ?thesis using False ih
      by (simp add: nat_digits.simps [of n] is_digit_char_of digits_int_append digit_val_char_of
          digits_int_def [of "[_]"])
  qed
qed

lemma take_dropWhile_digits:
  assumes "\<forall>c \<in> set ds. is_digit c" and "\<not> starts_digit r"
  shows "takeWhile is_digit (ds @ r) = ds" and "dropWhile is_digit (ds @ r) = r"
  using assms by (auto simp: starts_digit_def takeWhile_append2 dropWhile_append2 split: list.splits)


subsection \<open>The number lexer on printed numbers\<close>

lemma nondigit_take_drop [simp]:
  "\<not> starts_digit r \<Longrightarrow> takeWhile is_digit r = []"
  "\<not> starts_digit r \<Longrightarrow> dropWhile is_digit r = r"
  by (auto simp: starts_digit_def split: list.splits)

lemma punct_not_digit [simp]:
  "\<not> is_digit CHR ''+''" "\<not> is_digit CHR ''-''" "\<not> is_digit CHR ''.''" "\<not> is_digit CHR ''e''"
  by (simp_all add: is_digit_def)

lemma lex_frac_none: "(case r of c # _ \<Rightarrow> c \<noteq> CHR ''.'' | [] \<Rightarrow> True) \<Longrightarrow> lex_frac r = Some ([], r)"
  by (simp add: lex_frac_def split: list.splits)

lemma lex_frac_digits:
  "fp \<noteq> [] \<Longrightarrow> \<forall>c \<in> set fp. is_digit c \<Longrightarrow> \<not> starts_digit r \<Longrightarrow>
     lex_frac (CHR ''.'' # fp @ r) = Some (fp, r)"
  by (simp add: lex_frac_def take_dropWhile_digits)

lemma lex_exp_none:
  "(case r of c # _ \<Rightarrow> c \<noteq> CHR ''e'' \<and> c \<noteq> CHR ''E'' | [] \<Rightarrow> True) \<Longrightarrow> lex_exp r = Some (0, r)"
  by (simp add: lex_exp_def split: list.splits)

lemma lex_exp_digits:
  assumes "xs \<noteq> []" and "\<forall>c \<in> set xs. is_digit c" and "\<not> starts_digit r"
    and "sc = CHR ''+'' \<or> sc = CHR ''-''"
  shows "lex_exp (CHR ''e'' # sc # xs @ r) = Some ((if sc = CHR ''-'' then -1 else 1) * digits_int xs, r)"
  using assms by (auto simp: lex_exp_def take_dropWhile_digits)

lemma lex_number_digits:
  assumes "ip \<noteq> []" and "\<forall>c \<in> set ip. is_digit c" and "hd ip = CHR ''0'' \<Longrightarrow> length ip = 1"
    and "\<not> starts_digit s2" and "lex_frac s2 = Some (fp, s3)" and "lex_exp s3 = Some (ex, s4)"
  shows "lex_number (ip @ s2) = Some (norm_dec (Dec (digits_int (ip @ fp)) (ex - int (length fp))), s4)"
    and "lex_number (CHR ''-'' # ip @ s2) =
           Some (norm_dec (Dec (- digits_int (ip @ fp)) (ex - int (length fp))), s4)"
proof -
  obtain c ip' where ip: "ip = c # ip'" using assms(1) by (cases ip) auto
  have "c \<noteq> CHR ''-''" using assms(2) ip by (auto simp: is_digit_def)
  then show "lex_number (ip @ s2) = Some (norm_dec (Dec (digits_int (ip @ fp)) (ex - int (length fp))), s4)"
    using assms ip by (simp add: lex_number_def take_dropWhile_digits)
  show "lex_number (CHR ''-'' # ip @ s2) =
           Some (norm_dec (Dec (- digits_int (ip @ fp)) (ex - int (length fp))), s4)"
    using assms by (simp add: lex_number_def take_dropWhile_digits)
qed

lemma norm_dec_pow10: "norm_dec (Dec (m * 10 ^ z) e) = norm_dec (Dec m (e + int z))"
proof (induction z arbitrary: e)
  case 0
  then show ?case by simp
next
  case (Suc z)
  show ?case
  proof (cases "m = 0")
    case True
    then show ?thesis by (simp add: norm_dec.simps)
  next
    case False
    then have "m * 10 ^ z * 10 \<noteq> 0" by simp
    then have "norm_dec (Dec (m * 10 ^ z * 10) e) = norm_dec (Dec (m * 10 ^ z) (e + 1))"
      by (simp add: norm_dec.simps [of "m * 10 ^ z * 10"])
    also have "\<dots> = norm_dec (Dec m (e + int (Suc z)))"
      using Suc.IH [of "e + 1"] by (simp add: add.assoc)
    finally have "norm_dec (Dec (m * 10 ^ z * 10) e) = norm_dec (Dec m (e + int (Suc z)))" .
    moreover have "m * 10 ^ Suc z = m * 10 ^ z * 10" by simp
    ultimately show ?thesis by metis
  qed
qed

lemma lex_number_signed:
  assumes "ip \<noteq> []" and "\<forall>c \<in> set ip. is_digit c" and "hd ip = CHR ''0'' \<Longrightarrow> length ip = 1"
    and "\<not> starts_digit s2" and "lex_frac s2 = Some (fp, s3)" and "lex_exp s3 = Some (ex, s4)"
  shows "lex_number ((if (m::int) < 0 then ''-'' else []) @ ip @ s2) =
           Some (norm_dec (Dec (if m < 0 then - digits_int (ip @ fp) else digits_int (ip @ fp))
                               (ex - int (length fp))), s4)"
  using lex_number_digits [OF assms] by (cases "m < (0::int)") simp_all

definition num_end :: "string \<Rightarrow> bool" where
  "num_end r = (case r of [] \<Rightarrow> True
                | c # _ \<Rightarrow> \<not> is_digit c \<and> c \<noteq> CHR ''.'' \<and> c \<noteq> CHR ''e'' \<and> c \<noteq> CHR ''E'')"

lemma num_end_simps:
  "num_end r \<Longrightarrow> \<not> starts_digit r"
  "num_end r \<Longrightarrow> lex_frac r = Some ([], r)"
  "num_end r \<Longrightarrow> lex_exp r = Some (0, r)"
  by (auto simp: num_end_def starts_digit_def intro!: lex_frac_none lex_exp_none split: list.splits)

lemma norm_dec_zero: "norm_dec d = Dec 0 e \<Longrightarrow> e = 0"
  by (induction d rule: norm_dec.induct) (auto simp: norm_dec.simps split: if_splits)

lemma norm_dec_fixed: "norm_dec d = Dec m e \<Longrightarrow> norm_dec (Dec m e) = Dec m e"
  by (metis norm_dec_idem)

lemma signed_abs: "(if m < 0 then - \<bar>m\<bar> else \<bar>m\<bar>) = (m :: int)"
  by simp

lemma signed_abs_mult: "(if m < 0 then - (\<bar>m\<bar> * c) else \<bar>m\<bar> * c) = (m :: int) * c"
  by simp

lemma digits_int_replicate_zero: "digits_int (replicate z (CHR ''0'')) = 0"
  using digits_int_zeros [of z "[]"] by (simp add: digits_int_def)

lemma lex_number_num_to_string:
  assumes "num_end rest"
  shows "lex_number (num_to_string d @ rest) = Some (norm_dec d, rest)"
proof -
  obtain m e where nd: "norm_dec d = Dec m e" by (cases "norm_dec d") auto
  have fixd: "norm_dec (Dec m e) = Dec m e" using nd by (rule norm_dec_fixed)
  have nsd: "\<not> starts_digit rest" and frac_r: "lex_frac rest = Some ([], rest)"
    and exp_r: "lex_exp rest = Some (0, rest)"
    using assms by (simp_all add: num_end_simps)
  show ?thesis
  proof (cases "m = 0")
    case True
    then have e0: "e = 0" using nd norm_dec_zero by blast
    have "num_to_string d = ''0''" by (simp add: num_to_string_def nd True)
    moreover have "lex_number ([CHR ''0''] @ rest) =
        Some (norm_dec (Dec (digits_int ([CHR ''0''] @ [])) (0 - int (length ([] :: string)))), rest)"
      by (rule lex_number_digits(1) [OF _ _ _ nsd frac_r exp_r]) (simp_all add: is_digit_def)
    ultimately show ?thesis using nd True e0 by (simp add: digits_int_def digit_val_def norm_dec.simps)
  next
    case False
    define ds where "ds = nat_digits (nat \<bar>m\<bar>)"
    define k where "k = int (length ds)"
    define n where "n = e + k"
    have "0 < nat \<bar>m\<bar>" using False by simp
    then have ds: "ds \<noteq> []" "\<forall>c \<in> set ds. is_digit c" "digits_int ds = \<bar>m\<bar>" "hd ds \<noteq> CHR ''0''"
      using nat_digits_props [of "nat \<bar>m\<bar>"] by (simp_all add: ds_def)
    have body: "num_to_string d = (if m < 0 then ''-'' else []) @
       (if k \<le> n \<and> n \<le> 21 then ds @ replicate (nat (n - k)) (CHR ''0'')
        else if 0 < n \<and> n \<le> 21 then take (nat n) ds @ ''.'' @ drop (nat n) ds
        else if -6 < n \<and> n \<le> 0 then ''0.'' @ replicate (nat (- n)) (CHR ''0'') @ ds
        else (let x = n - 1;
                  es = (if x < 0 then CHR ''-'' else CHR ''+'') # nat_digits (nat \<bar>x\<bar>)
              in if k = 1 then ds @ ''e'' @ es else [hd ds] @ ''.'' @ tl ds @ ''e'' @ es))"
      by (simp add: num_to_string_def nd False Let_def ds_def k_def n_def)
    have en: "e = n - k" by (simp add: n_def)
    have k1: "1 \<le> k" using ds(1) by (simp add: k_def Suc_le_eq)
    let ?P = "if m < 0 then ''-'' else []"
    have res: "norm_dec (Dec (if m < 0 then - digits_int ip else digits_int ip) x) = Dec m e"
      if "digits_int ip = \<bar>m\<bar> * 10 ^ z" and "x + int z = e" for ip x z
    proof -
      have "norm_dec (Dec (if m < 0 then - digits_int ip else digits_int ip) x) = norm_dec (Dec (m * 10 ^ z) x)"
        using that(1) signed_abs_mult [of m "10 ^ z"] by simp
      also have "\<dots> = Dec m e" using norm_dec_pow10 [of m z x] that(2) fixd by simp
      finally show ?thesis .
    qed
    have z0: "is_digit (CHR ''0'')" by (simp add: is_digit_def)
    have dsd: "\<forall>c \<in> set ds. is_digit c" using ds(2) .
    have hd0: "hd ds \<noteq> CHR ''0''" using ds(4) .
    have exps: "lex_exp (CHR ''e'' # ((if n - 1 < 0 then CHR ''-'' else CHR ''+'') # nat_digits (nat \<bar>n - 1\<bar>)) @ rest)
                  = Some (n - 1, rest)"
    proof -
      have nd: "nat_digits (nat \<bar>n - 1\<bar>) \<noteq> []" "\<forall>c \<in> set (nat_digits (nat \<bar>n - 1\<bar>)). is_digit c"
          "digits_int (nat_digits (nat \<bar>n - 1\<bar>)) = \<bar>n - 1\<bar>"
        using nat_digits_props [of "nat \<bar>n - 1\<bar>"] by simp_all
      have "lex_exp (CHR ''e'' # (if n - 1 < 0 then CHR ''-'' else CHR ''+'') # nat_digits (nat \<bar>n - 1\<bar>) @ rest)
              = Some ((if (if n - 1 < 0 then CHR ''-'' else CHR ''+'') = CHR ''-'' then -1 else 1)
                      * digits_int (nat_digits (nat \<bar>n - 1\<bar>)), rest)"
        by (rule lex_exp_digits [OF nd(1,2) nsd]) simp
      then show ?thesis using nd(3) by (simp split: if_splits)
    qed
    consider (i) "k \<le> n \<and> n \<le> 21" | (ii) "\<not> (k \<le> n \<and> n \<le> 21)" "0 < n \<and> n \<le> 21"
      | (iii) "\<not> (0 < n \<and> n \<le> 21)" "-6 < n \<and> n \<le> 0"
      | (iv) "\<not> (k \<le> n \<and> n \<le> 21)" "\<not> (0 < n \<and> n \<le> 21)" "\<not> (-6 < n \<and> n \<le> 0)"
      by linarith
    then show ?thesis
    proof cases
      case i
      define z where "z = nat (n - k)"
      let ?ip = "ds @ replicate z (CHR ''0'')"
      have s: "num_to_string d @ rest = ?P @ ?ip @ rest"
        using i by (simp add: body z_def)
      have ipd: "\<forall>c \<in> set ?ip. is_digit c" using dsd z0 by auto
      have iph: "hd ?ip = CHR ''0'' \<Longrightarrow> length ?ip = 1" using ds(1) hd0 by simp
      have L: "lex_number (?P @ ?ip @ rest) =
          Some (norm_dec (Dec (if m < 0 then - digits_int (?ip @ []) else digits_int (?ip @ []))
                          (0 - int (length ([] :: string)))), rest)"
        by (rule lex_number_signed [OF _ ipd iph nsd frac_r exp_r]) (simp add: ds(1))
      have D: "digits_int (?ip @ []) = \<bar>m\<bar> * 10 ^ z"
        using ds(3) digits_int_replicate_zero [of z] by (simp add: digits_int_append)
      have E: "0 - int (length ([] :: string)) + int z = e" using i en by (simp add: z_def)
      show ?thesis by (simp only: s L res [OF D E] nd)
    next
      case ii
      define t where "t = nat n"
      have tk: "0 < t" "t < length ds" using ii by (auto simp: t_def k_def nat_less_iff)
      let ?ip = "take t ds" and ?fp = "drop t ds"
      have s: "num_to_string d @ rest = ?P @ ?ip @ (CHR ''.'' # ?fp @ rest)"
        using ii by (simp add: body t_def)
      have ipd: "\<forall>c \<in> set ?ip. is_digit c" using dsd by (auto dest: in_set_takeD)
      have fpd: "\<forall>c \<in> set ?fp. is_digit c" using dsd by (auto dest: in_set_dropD)
      have iph: "hd ?ip = CHR ''0'' \<Longrightarrow> length ?ip = 1" using tk ds(1) hd0 by (simp add: hd_take)
      have fr: "lex_frac (CHR ''.'' # ?fp @ rest) = Some (?fp, rest)"
        by (rule lex_frac_digits) (use tk fpd nsd in simp_all)
      have L: "lex_number (?P @ ?ip @ (CHR ''.'' # ?fp @ rest)) =
          Some (norm_dec (Dec (if m < 0 then - digits_int (?ip @ ?fp) else digits_int (?ip @ ?fp))
                          (0 - int (length ?fp))), rest)"
        by (rule lex_number_signed [OF _ ipd iph _ fr exp_r]) (use tk ds(1) in \<open>simp_all add: starts_digit_def\<close>)
      have D: "digits_int (?ip @ ?fp) = \<bar>m\<bar> * 10 ^ 0" using ds(3) by simp
      have E: "0 - int (length ?fp) + int 0 = e" using ii tk en by (simp add: t_def k_def)
      show ?thesis by (simp only: s L res [OF D E] nd)
    next
      case iii
      define w where "w = nat (- n)"
      let ?fp = "replicate w (CHR ''0'') @ ds"
      have s: "num_to_string d @ rest = ?P @ [CHR ''0''] @ (CHR ''.'' # ?fp @ rest)"
        using iii k1 by (simp add: body w_def)
      have fpd: "\<forall>c \<in> set ?fp. is_digit c" using dsd z0 by auto
      have fr: "lex_frac (CHR ''.'' # ?fp @ rest) = Some (?fp, rest)"
        by (rule lex_frac_digits) (use ds(1) fpd nsd in simp_all)
      have L: "lex_number (?P @ [CHR ''0''] @ (CHR ''.'' # ?fp @ rest)) =
          Some (norm_dec (Dec (if m < 0 then - digits_int ([CHR ''0''] @ ?fp) else digits_int ([CHR ''0''] @ ?fp))
                          (0 - int (length ?fp))), rest)"
        by (rule lex_number_signed [OF _ _ _ _ fr exp_r]) (simp_all add: z0 starts_digit_def)
      have D: "digits_int ([CHR ''0''] @ ?fp) = \<bar>m\<bar> * 10 ^ 0"
        using ds(3) digits_int_zeros [of "Suc w" ds] by simp
      have E: "0 - int (length ?fp) + int 0 = e" using iii en by (simp add: w_def k_def)
      show ?thesis by (simp only: s L res [OF D E] nd)
    next
      case iv
      let ?es = "(if n - 1 < 0 then CHR ''-'' else CHR ''+'') # nat_digits (nat \<bar>n - 1\<bar>)"
      have en1: "n - 1 - (k - 1) = e" using en by simp
      show ?thesis
      proof (cases "k = 1")
        case True
        have s: "num_to_string d @ rest = ?P @ ds @ (CHR ''e'' # ?es @ rest)"
          unfolding body Let_def
          by (simp only: if_not_P [OF iv(1)] if_not_P [OF iv(2)] if_not_P [OF iv(3)] if_P [OF True]) simp
        have fr: "lex_frac (CHR ''e'' # ?es @ rest) = Some ([], CHR ''e'' # ?es @ rest)"
          by (rule lex_frac_none) simp
        have dh: "hd ds = CHR ''0'' \<Longrightarrow> length ds = 1" using hd0 by simp
        have L: "lex_number (?P @ ds @ (CHR ''e'' # ?es @ rest)) =
            Some (norm_dec (Dec (if m < 0 then - digits_int (ds @ []) else digits_int (ds @ []))
                            (n - 1 - int (length ([] :: string)))), rest)"
          by (rule lex_number_signed [OF ds(1) dsd dh _ fr exps]) (simp_all add: starts_digit_def)
        have D: "digits_int (ds @ []) = \<bar>m\<bar> * 10 ^ 0" using ds(3) by simp
        have E: "n - 1 - int (length ([] :: string)) + int 0 = e" using en1 True by simp
        show ?thesis by (simp only: s L res [OF D E] nd)
      next
        case False
        then have k2: "1 < length ds" using k1 by (simp add: k_def)
        let ?fp = "tl ds"
        have s: "num_to_string d @ rest = ?P @ [hd ds] @ (CHR ''.'' # ?fp @ (CHR ''e'' # ?es @ rest))"
          unfolding body Let_def
          by (simp only: if_not_P [OF iv(1)] if_not_P [OF iv(2)] if_not_P [OF iv(3)] if_not_P [OF False]) simp
        have fpd: "\<forall>c \<in> set ?fp. is_digit c" using dsd by (cases ds) auto
        have tl: "?fp \<noteq> []" using k2 by (cases ds) auto
        have fr: "lex_frac (CHR ''.'' # ?fp @ (CHR ''e'' # ?es @ rest)) = Some (?fp, CHR ''e'' # ?es @ rest)"
          by (rule lex_frac_digits) (use tl fpd in \<open>simp_all add: starts_digit_def\<close>)
        have L: "lex_number (?P @ [hd ds] @ (CHR ''.'' # ?fp @ (CHR ''e'' # ?es @ rest))) =
            Some (norm_dec (Dec (if m < 0 then - digits_int ([hd ds] @ ?fp) else digits_int ([hd ds] @ ?fp))
                            (n - 1 - int (length ?fp))), rest)"
          by (rule lex_number_signed [OF _ _ _ _ fr exps]) (use ds(1) dsd in \<open>simp_all add: starts_digit_def\<close>)
        have D: "digits_int ([hd ds] @ ?fp) = \<bar>m\<bar> * 10 ^ 0" using ds(1,3) by simp
        have E: "n - 1 - int (length ?fp) + int 0 = e" using en1 k2 by (simp add: k_def)
        show ?thesis by (simp only: s L res [OF D E] nd)
      qed
    qed
  qed
qed

section \<open>The token stream of a printed value\<close>

definition join_tok :: "token list list \<Rightarrow> token list" where
  "join_tok xss = (case xss of [] \<Rightarrow> [] | x # ys \<Rightarrow> x @ concat (map (\<lambda>y. TComma # y) ys))"

lemma join_tok_simps [simp]:
  "join_tok [] = []" "join_tok [x] = x" "join_tok (x # y # ys) = x @ TComma # join_tok (y # ys)"
  by (simp_all add: join_tok_def)

lemma join_with_simps [simp]:
  "join_with sep [] = []" "join_with sep [x] = x" "join_with sep (x # y # ys) = x @ sep @ join_with sep (y # ys)"
  by (simp_all add: join_with_def)

function json_tokens :: "json \<Rightarrow> token list" where
  "json_tokens JNull = [TNull]"
| "json_tokens (JBool b) = [if b then TTrue else TFalse]"
| "json_tokens (JNum d) = [TNum (norm_dec d)]"
| "json_tokens (JStr s) = [TStr s]"
| "json_tokens (JArr vs) = TLBrack # join_tok (map json_tokens vs) @ [TRBrack]"
| "json_tokens (JObj ps) =
     TLBrace # join_tok (map (\<lambda>(k, v). TStr k # TColon # json_tokens v) (own_keys_order ps)) @ [TRBrace]"
  by pat_completeness auto
termination
proof (relation "measure size", goal_cases)
  case 1 show ?case by simp
next
  case (2 vs x)
  then show ?case by (auto intro: le_imp_less_Suc size_list_estimation')
next
  case (3 ps x k v)
  then have "(k, v) \<in> set ps" by simp
  then have "size v \<le> size_list (size_prod (\<lambda>x. 0) size) ps"
    by (rule size_list_estimation') simp
  then show ?case by simp
qed

text \<open>What \<open>JSON.parse\<close> gives back: numbers in their normal form, object members in
  the order \<open>JSON.stringify\<close> enumerates them.\<close>

function canon :: "json \<Rightarrow> json" where
  "canon JNull = JNull"
| "canon (JBool b) = JBool b"
| "canon (JNum d) = JNum (norm_dec d)"
| "canon (JStr s) = JStr s"
| "canon (JArr vs) = JArr (map canon vs)"
| "canon (JObj ps) = JObj (map (\<lambda>(k, v). (k, canon v)) (own_keys_order ps))"
  by pat_completeness auto
termination
proof (relation "measure size", goal_cases)
  case 1 show ?case by simp
next
  case (2 vs x)
  then show ?case by (auto intro: le_imp_less_Suc size_list_estimation')
next
  case (3 ps x k v)
  then have "(k, v) \<in> set ps" by simp
  then have "size v \<le> size_list (size_prod (\<lambda>x. 0) size) ps"
    by (rule size_list_estimation') simp
  then show ?case by simp
qed

section \<open>Lexing the printed text\<close>

lemma lex_ws: "\<forall>c \<in> set w. is_json_ws c \<Longrightarrow> lex (w @ s) = lex s"
  by (induction w) simp_all

lemma lex_punct [simp]:
  "lex (CHR ''['' # s) = map_option (Cons TLBrack) (lex s)"
  "lex (CHR '']'' # s) = map_option (Cons TRBrack) (lex s)"
  "lex (CHR ''{'' # s) = map_option (Cons TLBrace) (lex s)"
  "lex (CHR ''}'' # s) = map_option (Cons TRBrace) (lex s)"
  "lex (CHR '':'' # s) = map_option (Cons TColon) (lex s)"
  "lex (CHR '','' # s) = map_option (Cons TComma) (lex s)"
  "lex (CHR '' '' # s) = lex s"
  "lex (CHR 0x0A # s) = lex s"
  by (simp_all add: is_json_ws_def)

lemma lex_keywords:
  "lex (''null'' @ s) = map_option (Cons TNull) (lex s)"
  "lex (''true'' @ s) = map_option (Cons TTrue) (lex s)"
  "lex (''false'' @ s) = map_option (Cons TFalse) (lex s)"
  by (simp_all add: is_json_ws_def is_digit_def)

lemma lex_quote: "lex (json_quote s @ rest) = map_option (Cons (TStr s)) (lex rest)"
  by (simp add: json_quote_def lex_string_quote is_json_ws_def)

lemma lex_digit_start:
  "c = CHR ''-'' \<or> is_digit c \<Longrightarrow>
     lex (c # cs) = (case lex_number (c # cs) of None \<Rightarrow> None
                     | Some (d, rest) \<Rightarrow> map_option (Cons (TNum d)) (lex rest))"
  by (auto simp: is_digit_def is_json_ws_def)

text \<open>From here on the lexer is unfolded only through the lemmas above, one character
  class at a time; its defining equation returns to the simplifier at the end of the theory.\<close>

declare lex.simps(2) [simp del]

lemma num_end_simps2 [simp]:
  "num_end []" "num_end (CHR '','' # r)" "num_end (CHR 0x0A # r)" "num_end (CHR '']'' # r)"
  "num_end (CHR ''}'' # r)"
  by (simp_all add: num_end_def is_digit_def)

lemma num_to_string_hd: "\<exists>c cs. num_to_string d = c # cs \<and> (c = CHR ''-'' \<or> is_digit c)"
proof -
  obtain m e where nd: "norm_dec d = Dec m e" by (cases "norm_dec d") auto
  show ?thesis
  proof (cases "m = 0")
    case True
    then show ?thesis by (simp add: num_to_string_def nd is_digit_def)
  next
    case False
    define ds where "ds = nat_digits (nat \<bar>m\<bar>)"
    have ds: "ds \<noteq> []" "is_digit (hd ds)"
      using nat_digits_props [of "nat \<bar>m\<bar>"] by (simp_all add: ds_def)
    obtain x xs where dsx: "ds = x # xs" using ds(1) by (cases ds) auto
    have z: "is_digit (CHR ''0'')" by (simp add: is_digit_def)
    have "\<exists>c cs. (let k = int (length ds); n = e + k in
                 if k \<le> n \<and> n \<le> 21 then ds @ replicate (nat (n - k)) (CHR ''0'')
                 else if 0 < n \<and> n \<le> 21 then take (nat n) ds @ ''.'' @ drop (nat n) ds
                 else if -6 < n \<and> n \<le> 0 then ''0.'' @ replicate (nat (- n)) (CHR ''0'') @ ds
                 else (let x = n - 1;
                           es = (if x < 0 then CHR ''-'' else CHR ''+'') # nat_digits (nat \<bar>x\<bar>)
                       in if k = 1 then ds @ ''e'' @ es else [hd ds] @ ''.'' @ tl ds @ ''e'' @ es))
               = c # cs \<and> is_digit c"
      using ds(2) z by (auto simp: Let_def dsx take_Cons')
    then show ?thesis using False
      by (auto simp: num_to_string_def nd ds_def [symmetric] Let_def)
  qed
qed

lemma lex_num:
  assumes "num_end rest"
  shows "lex (num_to_string d @ rest) = map_option (Cons (TNum (norm_dec d))) (lex rest)"
proof -
  obtain c cs where s: "num_to_string d = c # cs" and c: "c = CHR ''-'' \<or> is_digit c"
    using num_to_string_hd by blast
  have "lex_number (c # cs @ rest) = Some (norm_dec d, rest)"
    using lex_number_num_to_string [OF assms, of d] s by simp
  then show ?thesis using lex_digit_start [OF c, of "cs @ rest"] s by simp
qed

lemma append_curry: "(@) (xs @ ys) = (\<lambda>zs. xs @ ys @ zs)" "(@) (x # xs) = (\<lambda>zs. x # xs @ zs)"
  by (simp_all add: fun_eq_iff)

lemma lex_join:
  assumes "\<forall>x \<in> set xs. \<forall>r. num_end r \<longrightarrow> lex (f x @ r) = map_option ((@) (g x)) (lex r)"
    and "\<forall>c \<in> set w. is_json_ws c" and "num_end rest"
  shows "lex (join_with (CHR '','' # w) (map f xs) @ rest) = map_option ((@) (join_tok (map g xs))) (lex rest)"
  using assms(1)
proof (induction xs rule: induct_list012)
  case 1
  then show ?case by (simp add: option.map_ident)
next
  case (2 x)
  then show ?case using assms(3) by simp
next
  case (3 x y ys)
  have "lex (f x @ (CHR '','' # w @ join_with (CHR '','' # w) (map f (y # ys)) @ rest)) =
          map_option ((@) (g x)) (lex (CHR '','' # w @ join_with (CHR '','' # w) (map f (y # ys)) @ rest))"
    using "3.prems" by simp
  also have "\<dots> = map_option ((@) (g x @ TComma # join_tok (map g (y # ys)))) (lex rest)"
    using "3.IH"(2) "3.prems" lex_ws [OF assms(2)] by (simp add: option.map_comp o_def is_json_ws_def append_curry)
  finally show ?case by (simp add: append_curry)
qed

lemma lex_member:
  assumes "\<forall>r. num_end r \<longrightarrow> lex (sv @ r) = map_option ((@) tv) (lex r)" and "w = [] \<or> w = '' ''"
    and "num_end rest"
  shows "lex ((json_quote k @ CHR '':'' # w @ sv) @ rest) = map_option ((@) (TStr k # TColon # tv)) (lex rest)"
  using assms by (auto simp: lex_quote is_json_ws_def option.map_comp o_def append_curry)

lemma lex_stringify:
  assumes "\<forall>c \<in> set gap. is_json_ws c" and "\<forall>c \<in> set ind. is_json_ws c" and "num_end rest"
  shows "lex (stringify_gap gap ind v @ rest) = map_option ((@) (json_tokens v)) (lex rest)"
  using assms
proof (induction gap ind v arbitrary: rest rule: stringify_gap.induct)
  case (1 gap ind)
  then show ?case using lex_keywords(1) by (simp add: append_curry)
next
  case (2 gap ind b)
  then show ?case using lex_keywords(2,3) by (simp add: append_curry)
next
  case (3 gap ind d)
  then show ?case using lex_num by (simp add: append_curry)
next
  case (4 gap ind s)
  then show ?case using lex_quote by (simp add: append_curry)
next
  case (5 gap ind vs)
  show ?case
  proof (cases "vs = []")
    case True
    then show ?thesis by (simp add: append_curry is_json_ws_def option.map_comp o_def)
  next
    case ne: False
    show ?thesis
    proof (cases "gap = []")
      case True
      have ih: "\<forall>x \<in> set vs. \<forall>r. num_end r \<longrightarrow>
                  lex (stringify_gap gap ind x @ r) = map_option ((@) (json_tokens x)) (lex r)"
        using "5.IH"(1) [OF ne True] "5.prems"(1,2) by blast
      have "lex (join_with (CHR '','' # []) (map (stringify_gap gap ind) vs) @ CHR '']'' # rest) =
              map_option ((@) (join_tok (map json_tokens vs))) (lex (CHR '']'' # rest))"
        by (rule lex_join [OF ih]) simp_all
      then show ?thesis using ne True by (simp add: option.map_comp o_def append_curry)
    next
      case False
      have ws: "\<forall>c \<in> set (CHR 0x0A # ind @ gap). is_json_ws c"
        using "5.prems"(1,2) by (auto simp: is_json_ws_def)
      have w1: "lex (ind @ s) = lex s" "lex (gap @ s) = lex s" for s
        using lex_ws "5.prems"(1,2) by blast+
      have ih: "\<forall>x \<in> set vs. \<forall>r. num_end r \<longrightarrow>
                  lex (stringify_gap gap (ind @ gap) x @ r) = map_option ((@) (json_tokens x)) (lex r)"
        using "5.IH"(2) [OF ne False] "5.prems"(1,2) by auto
      have "lex (join_with (CHR '','' # CHR 0x0A # ind @ gap) (map (stringify_gap gap (ind @ gap)) vs)
                 @ CHR 0x0A # ind @ CHR '']'' # rest) =
              map_option ((@) (join_tok (map json_tokens vs))) (lex (CHR 0x0A # ind @ CHR '']'' # rest))"
        by (rule lex_join [OF ih]) (use ws(1) in simp_all)
      then show ?thesis using ne False
        by (simp add: w1 option.map_comp o_def append_curry)
    qed
  qed
next
  case (6 gap ind ps)
  show ?case
  proof (cases "ps = []")
    case True
    then show ?thesis by (simp add: append_curry option.map_comp o_def own_keys_order_def)
  next
    case ne: False
    have w1: "lex (ind @ s) = lex s" "lex (gap @ s) = lex s" for s
      using lex_ws "6.prems"(1,2) by blast+
    show ?thesis
    proof (cases "gap = []")
      case True
      have ih: "\<forall>x \<in> set (own_keys_order ps). \<forall>r. num_end r \<longrightarrow>
                  lex ((\<lambda>(k, v). json_quote k @ '':'' @ stringify_gap gap ind v) x @ r) =
                  map_option ((@) ((\<lambda>(k, v). TStr k # TColon # json_tokens v) x)) (lex r)"
      proof (intro ballI allI impI)
        fix x r assume x: "x \<in> set (own_keys_order ps)" and r: "num_end r"
        obtain k v where xkv: "x = (k, v)" by fastforce
        have "\<forall>r. num_end r \<longrightarrow> lex (stringify_gap gap ind v @ r) = map_option ((@) (json_tokens v)) (lex r)"
          using "6.IH"(1) [OF ne True x xkv [symmetric]] "6.prems"(1,2) by blast
        then show "lex ((\<lambda>(k, v). json_quote k @ '':'' @ stringify_gap gap ind v) x @ r) =
                  map_option ((@) ((\<lambda>(k, v). TStr k # TColon # json_tokens v) x)) (lex r)"
          using lex_member [of "stringify_gap gap ind v" "json_tokens v" "[]" r k] r xkv by simp
      qed
      have "lex (join_with (CHR '','' # []) (map (\<lambda>(k, v). json_quote k @ '':'' @ stringify_gap gap ind v) (own_keys_order ps))
                 @ CHR ''}'' # rest) =
              map_option ((@) (join_tok (map (\<lambda>(k, v). TStr k # TColon # json_tokens v) (own_keys_order ps))))
                (lex (CHR ''}'' # rest))"
        by (rule lex_join [OF ih]) simp_all
      then show ?thesis using ne True by (simp add: option.map_comp o_def append_curry)
    next
      case False
      have ih: "\<forall>x \<in> set (own_keys_order ps). \<forall>r. num_end r \<longrightarrow>
                  lex ((\<lambda>(k, v). json_quote k @ '': '' @ stringify_gap gap (ind @ gap) v) x @ r) =
                  map_option ((@) ((\<lambda>(k, v). TStr k # TColon # json_tokens v) x)) (lex r)"
      proof (intro ballI allI impI)
        fix x r assume x: "x \<in> set (own_keys_order ps)" and r: "num_end r"
        obtain k v where xkv: "x = (k, v)" by fastforce
        have "\<forall>r. num_end r \<longrightarrow> lex (stringify_gap gap (ind @ gap) v @ r) = map_option ((@) (json_tokens v)) (lex r)"
          using "6.IH"(2) [OF ne False x xkv [symmetric]] "6.prems"(1,2) by auto
        then show "lex ((\<lambda>(k, v). json_quote k @ '': '' @ stringify_gap gap (ind @ gap) v) x @ r) =
                  map_option ((@) ((\<lambda>(k, v). TStr k # TColon # json_tokens v) x)) (lex r)"
          using lex_member [of "stringify_gap gap (ind @ gap) v" "json_tokens v" "'' ''" r k] r xkv by simp
      qed
      have ws: "\<forall>c \<in> set (CHR 0x0A # ind @ gap). is_json_ws c"
        using "6.prems"(1,2) by (auto simp: is_json_ws_def)
      have "lex (join_with (CHR '','' # CHR 0x0A # ind @ gap)
                   (map (\<lambda>(k, v). json_quote k @ '': '' @ stringify_gap gap (ind @ gap) v) (own_keys_order ps))
                 @ CHR 0x0A # ind @ CHR ''}'' # rest) =
              map_option ((@) (join_tok (map (\<lambda>(k, v). TStr k # TColon # json_tokens v) (own_keys_order ps))))
                (lex (CHR 0x0A # ind @ CHR ''}'' # rest))"
        by (rule lex_join [OF ih]) (use ws in simp_all)
      then show ?thesis using ne False
        by (simp add: w1 option.map_comp o_def append_curry)
    qed
  qed
qed

section \<open>Parsing the token stream\<close>

lemma distinct_own_keys_order:
  assumes "distinct (map fst ps)"
  shows "distinct (map fst (own_keys_order ps))"
proof -
  let ?P = "\<lambda>p. array_index (fst p) \<noteq> None"
  have a: "distinct (map fst (filter ?P ps))" "distinct (map fst (filter (\<lambda>p. array_index (fst p) = None) ps))"
    using assms by (simp_all add: distinct_map_filter)
  have b: "distinct (map fst (sort_key g (filter ?P ps)))" for g
    using a(1) by (simp add: distinct_map)
  have c: "fst ` set (filter ?P ps) \<inter> fst ` set (filter (\<lambda>p. array_index (fst p) = None) ps) = {}"
    by auto
  show ?thesis using b a(2) c by (simp add: own_keys_order_def)
qed

lemma json_tokens_start: "\<exists>t ts. json_tokens v = t # ts \<and> t \<noteq> TRBrack"
  by (cases v) simp_all

lemma parse_elems:
  assumes "xs \<noteq> []"
    and "\<forall>x \<in> set xs. \<forall>st m ts. m = MValue \<or> m = MArrFirst \<longrightarrow>
           parse_tokens st m (g x @ ts) = parse_tokens st (MAfter (h x)) ts"
    and "m = MValue \<or> m = MArrFirst"
  shows "parse_tokens (FArr acc # st) m (join_tok (map g xs) @ TRBrack # ts) =
           parse_tokens st (MAfter (JArr (acc @ map h xs))) ts"
  using assms
proof (induction xs arbitrary: acc m rule: induct_list012)
  case 1
  then show ?case by simp
next
  case (2 x)
  have H: "parse_tokens st' m' (g x @ ts') = parse_tokens st' (MAfter (h x)) ts'"
    if "m' = MValue \<or> m' = MArrFirst" for st' m' ts' using "2.prems"(2) that by fastforce
  show ?case by (simp add: H [OF "2.prems"(3)] pstep_def)
next
  case (3 x y ys)
  have H: "parse_tokens st' m' (g x @ ts') = parse_tokens st' (MAfter (h x)) ts'"
    if "m' = MValue \<or> m' = MArrFirst" for st' m' ts' using "3.prems"(2) that by fastforce
  have "parse_tokens (FArr acc # st) m (g x @ TComma # join_tok (g y # map g ys) @ TRBrack # ts) =
          parse_tokens (FArr acc # st) (MAfter (h x)) (TComma # join_tok (g y # map g ys) @ TRBrack # ts)"
    by (rule H [OF "3.prems"(3)])
  also have "\<dots> = parse_tokens (FArr (acc @ [h x]) # st) MValue (join_tok (map g (y # ys)) @ TRBrack # ts)"
    by (simp add: pstep_def)
  also have "\<dots> = parse_tokens st (MAfter (JArr ((acc @ [h x]) @ map h (y # ys)))) ts"
    by (rule "3.IH"(2)) (use "3.prems"(2) in simp_all)
  finally show ?case by simp
qed

lemma parse_members:
  assumes "qs \<noteq> []" and "distinct (map fst (acc @ qs))"
    and "\<forall>q \<in> set qs. \<forall>st m ts. m = MValue \<or> m = MArrFirst \<longrightarrow>
           parse_tokens st m (g (snd q) @ ts) = parse_tokens st (MAfter (h (snd q))) ts"
    and "m = MObjFirst \<or> m = MKey"
  shows "parse_tokens (FObj acc # st) m (join_tok (map (\<lambda>(k, v). TStr k # TColon # g v) qs) @ TRBrace # ts) =
           parse_tokens st (MAfter (JObj (acc @ map (\<lambda>(k, v). (k, h v)) qs))) ts"
  using assms
proof (induction qs arbitrary: acc m rule: induct_list012)
  case 1
  then show ?case by simp
next
  case (2 q)
  obtain k v where q: "q = (k, v)" by fastforce
  have fresh: "k \<notin> fst ` set acc" using "2.prems"(2) q by simp
  have H: "parse_tokens st' MValue (g v @ ts') = parse_tokens st' (MAfter (h v)) ts'" for st' ts'
    using "2.prems"(3) q by simp
  have "parse_tokens (FObj acc # st) m (TStr k # TColon # g v @ TRBrace # ts) =
          parse_tokens (FMember acc k # st) MValue (g v @ TRBrace # ts)"
    using "2.prems"(4) by (auto simp: pstep_def)
  also have "\<dots> = parse_tokens (FMember acc k # st) (MAfter (h v)) (TRBrace # ts)"
    by (rule H)
  also have "\<dots> = parse_tokens st (MAfter (JObj (acc @ [(k, h v)]))) ts"
    by (simp add: pstep_def al_put_fresh [OF fresh])
  finally show ?case using q by simp
next
  case (3 q r qs)
  obtain k v where q: "q = (k, v)" by fastforce
  have fresh: "k \<notin> fst ` set acc" using "3.prems"(2) q by simp
  have H: "parse_tokens st' MValue (g v @ ts') = parse_tokens st' (MAfter (h v)) ts'" for st' ts'
    using "3.prems"(3) q by simp
  let ?rest = "join_tok (map (\<lambda>(k, v). TStr k # TColon # g v) (r # qs)) @ TRBrace # ts"
  have "parse_tokens (FObj acc # st) m (TStr k # TColon # g v @ TComma # ?rest) =
          parse_tokens (FMember acc k # st) MValue (g v @ TComma # ?rest)"
    using "3.prems"(4) by (auto simp: pstep_def)
  also have "\<dots> = parse_tokens (FMember acc k # st) (MAfter (h v)) (TComma # ?rest)"
    by (rule H)
  also have "\<dots> = parse_tokens (FObj (acc @ [(k, h v)]) # st) MKey ?rest"
    by (simp add: pstep_def al_put_fresh [OF fresh])
  also have "\<dots> = parse_tokens st (MAfter (JObj ((acc @ [(k, h v)]) @ map (\<lambda>(k, v). (k, h v)) (r # qs)))) ts"
    by (rule "3.IH"(2)) (use "3.prems"(2,3) q in simp_all)
  finally show ?case using q by simp
qed

lemma parse_json_tokens:
  "wf_json v \<Longrightarrow> m = MValue \<or> m = MArrFirst \<Longrightarrow>
     parse_tokens st m (json_tokens v @ ts) = parse_tokens st (MAfter (canon v)) ts"
proof (induction v arbitrary: st m ts rule: canon.induct)
  case (2 b)
  then show ?case by (cases b) (auto simp: pstep_def value_start_def)
next
  case (5 vs)
  have open_arr: "parse_tokens st m (TLBrack # xs) = parse_tokens (FArr [] # st) MArrFirst xs" for xs
    using "5.prems"(2) by (auto simp: pstep_def value_start_def)
  show ?case
  proof (cases "vs = []")
    case True
    then have "parse_tokens st m (json_tokens (JArr vs) @ ts) = parse_tokens (FArr [] # st) MArrFirst (TRBrack # ts)"
      by (simp add: open_arr del: parse_tokens.simps)
    then show ?thesis using True by (simp add: pstep_def)
  next
    case False
    have "\<forall>x \<in> set vs. \<forall>st m ts. m = MValue \<or> m = MArrFirst \<longrightarrow>
            parse_tokens st m (json_tokens x @ ts) = parse_tokens st (MAfter (canon x)) ts"
      using "5.IH" "5.prems"(1) by simp
    from parse_elems [OF False this, of MArrFirst "[]" st ts] show ?thesis
      by (simp add: open_arr del: parse_tokens.simps)
  qed
next
  case (6 ps)
  have open_obj: "parse_tokens st m (TLBrace # xs) = parse_tokens (FObj [] # st) MObjFirst xs" for xs
    using "6.prems"(2) by (auto simp: pstep_def value_start_def)
  show ?case
  proof (cases "ps = []")
    case True
    then have "parse_tokens st m (json_tokens (JObj ps) @ ts) = parse_tokens (FObj [] # st) MObjFirst (TRBrace # ts)"
      by (simp add: open_obj own_keys_order_def del: parse_tokens.simps)
    then show ?thesis using True by (simp add: pstep_def own_keys_order_def)
  next
    case False
    then have ne: "own_keys_order ps \<noteq> []" by (metis set_empty set_own_keys_order)
    have d: "distinct (map fst ([] @ own_keys_order ps))"
      using "6.prems"(1) by (simp add: distinct_own_keys_order)
    have "\<forall>q \<in> set (own_keys_order ps). \<forall>st m ts. m = MValue \<or> m = MArrFirst \<longrightarrow>
            parse_tokens st m (json_tokens (snd q) @ ts) = parse_tokens st (MAfter (canon (snd q))) ts"
    proof (intro ballI allI impI)
      fix q st' m' ts' assume q: "q \<in> set (own_keys_order ps)" and m': "m' = MValue \<or> m' = MArrFirst"
      obtain k v where kv: "q = (k, v)" by fastforce
      have "wf_json v" using "6.prems"(1) q kv by auto
      then show "parse_tokens st' m' (json_tokens (snd q) @ ts') = parse_tokens st' (MAfter (canon (snd q))) ts'"
        using "6.IH" [OF q kv [symmetric]] m' kv by simp
    qed
    from parse_members [OF ne d this, of MObjFirst st ts] show ?thesis
      by (simp add: open_obj del: parse_tokens.simps)
  qed
qed (auto simp: pstep_def value_start_def)

lemma json_parse_stringify_gap:
  assumes "\<forall>c \<in> set gap. is_json_ws c" and "wf_json v"
  shows "json_parse (stringify_gap gap [] v) = Some (canon v)"
proof -
  have "lex (stringify_gap gap [] v @ []) = map_option ((@) (json_tokens v)) (lex [])"
    by (rule lex_stringify) (simp_all add: assms(1))
  then have "lex (stringify_gap gap [] v) = Some (json_tokens v)" by simp
  then show ?thesis
    using parse_json_tokens [OF assms(2), of MValue "[]" "[]"] by (simp add: json_parse_def)
qed

theorem json_parse_stringify4: "wf_json v \<Longrightarrow> json_parse (json_stringify4 v) = Some (canon v)"
  unfolding json_stringify4_def by (rule json_parse_stringify_gap) (simp_all add: is_json_ws_def)

theorem json_parse_stringify: "wf_json v \<Longrightarrow> json_parse (json_stringify v) = Some (canon v)"
  unfolding json_stringify_def by (rule json_parse_stringify_gap) simp_all

declare lex.simps(2) [simp]

end
