(* ===== verification/Express.thy ===== *)
theory Express
  imports Server Json_Roundtrip
begin

text \<open>
  The middleware of line 36, \<open>app.use(express.json({ limit: '50mb' }))\<close>, and the
  request pipeline it starts: every request, whatever its route, goes through the JSON
  body parser before the routes of lines 41 and 52 see it. The parser (body-parser's
  \<open>json\<close>, strict by default) leaves a request alone when it has no body or its
  content type is not JSON; \<open>req.body\<close> is then the value \<open>skipped\<close>, which is \<open>{}\<close> under
  Express 4 and \<open>undefined\<close> under Express 5 (the repository pins no version, so it is a
  parameter). Otherwise it refuses a body longer than the limit (413), decodes the text
  (a leading byte-order mark is dropped), answers an empty text with \<open>{}\<close>, and refuses
  a text whose first non-blank character is not \<open>{\<close> or \<open>[\<close>, or that \<open>JSON.parse\<close> rejects
  (400). A refusal goes to Express's final handler; the routes never run.
\<close>

section \<open>The JSON body parser (line 36)\<close>

definition body_limit :: nat where
  "body_limit = 50 * 1024 * 1024"
  \<comment> \<open>\<open>'50mb'\<close>, in bytes\<close>

fun first_nonblank :: "string \<Rightarrow> char option" where
  "first_nonblank [] = None"
| "first_nonblank (c # cs) = (if is_json_ws c then first_nonblank cs else Some c)"

datatype body_outcome = Parsed jsval | Rejected nat body_error

definition json_middleware :: "jsval \<Rightarrow> bool \<Rightarrow> string option \<Rightarrow> body_outcome" where
  "json_middleware skipped json_type body =
     (case body of
        None \<Rightarrow> Parsed skipped
      | Some raw \<Rightarrow>
          if \<not> json_type then Parsed skipped
          else if body_limit < length raw then Rejected 413 EntityTooLarge
          else
            (let text = strip_bom raw in
             if text = [] then Parsed (Val (JObj []))
             else if first_nonblank text \<noteq> Some (CHR ''{'') \<and> first_nonblank text \<noteq> Some (CHR ''['')
             then Rejected 400 StrictViolation
             else (case json_parse text of
                     None \<Rightarrow> Rejected 400 InvalidJson
                   | Some v \<Rightarrow> Parsed (Val v))))"

section \<open>The pipeline: middleware, then the routes\<close>

text \<open>A request as it arrives: method, path, query, whether the content type is JSON, and
  the raw body (\<open>None\<close> when the request has none).\<close>

datatype http_request = HttpReq string string query bool "string option"

definition serve ::
  "jsval \<Rightarrow> http_request \<Rightarrow> string option \<Rightarrow> nat \<Rightarrow> server \<Rightarrow> response \<times> server" where
  "serve skipped hr write_err now s =
     (case hr of
        HttpReq m p q json_type body \<Rightarrow>
          (case json_middleware skipped json_type body of
             Rejected n err \<Rightarrow> (BodyErrorPage n err, s)
           | Parsed b \<Rightarrow> handle_request (Req m p q b) write_err now s))"

section \<open>Properties of the pipeline\<close>

lemma first_nonblank_Some: "first_nonblank cs = Some c \<Longrightarrow> \<not> is_json_ws c"
  by (induction cs) (auto split: if_splits)

lemma json_middleware_Parsed:
  assumes "length raw \<le> body_limit"
    and "first_nonblank (strip_bom raw) \<in> {Some (CHR ''{''), Some (CHR ''['')}"
    and "json_parse (strip_bom raw) = Some v"
  shows "json_middleware skipped True (Some raw) = Parsed (Val v)"
proof -
  have "strip_bom raw \<noteq> []" using assms(2) by auto
  with assms show ?thesis by (auto simp: json_middleware_def Let_def not_less)
qed

lemma serve_Rejected:
  "json_middleware skipped j body = Rejected n err \<Longrightarrow>
     serve skipped (HttpReq m p q j body) werr now s = (BodyErrorPage n err, s)"
  by (simp add: serve_def)

lemma handle_request_not_body_error: "fst (handle_request r werr now s) \<noteq> BodyErrorPage n e"
  by (cases r) (auto simp: handle_request_def update_properties_def properties_within_radius_def
                     split: jsval.splits option.splits json.splits sum.splits)

lemma handle_request_not_body_error_pair: "handle_request r werr now s \<noteq> (BodyErrorPage n e, t)"
  using handle_request_not_body_error [of r werr now s n e] by (metis fst_conv)

lemma serve_Parsed:
  "json_middleware skipped j body = Parsed b \<Longrightarrow>
     serve skipped (HttpReq m p q j body) werr now s = handle_request (Req m p q b) werr now s"
  by (simp add: serve_def)

lemmas post_route_simps = serve_Parsed handle_request_def route_matches_def lower_ascii_def
  update_properties_def

text \<open>C11: Because express.json runs before every route, a request with a JSON content type and a non-empty body that does not parse is answered 400 by the body parser and changes nothing, whatever its route: even GET /properties_within_radius with both parameters fails.\<close>

theorem serve_rejects_bad_json:
  assumes "length raw \<le> body_limit" and "strip_bom raw \<noteq> []" and "json_parse (strip_bom raw) = None"
  shows "status (fst (serve skipped (HttpReq m p q True (Some raw)) werr now s)) = 400 \<and>
         snd (serve skipped (HttpReq m p q True (Some raw)) werr now s) = s"
  using assms by (simp add: serve_def json_middleware_def Let_def not_less)

theorem serve_rejects_bad_json_witness:
  "status (fst (serve Undefined
     (HttpReq ''GET'' ''/properties_within_radius'' [(''latitude'', QStr ''40''), (''longitude'', QStr ''-74'')]
        True (Some ''{''))
     None 0 (init_state Map.empty ''/app'' ''/app''))) = 400 \<and>
   snd (serve Undefined
     (HttpReq ''GET'' ''/properties_within_radius'' [(''latitude'', QStr ''40''), (''longitude'', QStr ''-74'')]
        True (Some ''{''))
     None 0 (init_state Map.empty ''/app'' ''/app'')) = init_state Map.empty ''/app'' ''/app''"
  by (rule serve_rejects_bad_json)
    (simp_all add: body_limit_def strip_bom_def json_parse_def pstep_def value_start_def is_json_ws_def)

text \<open>C14: The body parser is strict: a JSON body whose first non-blank character is not { or [ (a number, string, true, false or null, valid JSON or not) is refused with 400 and nothing is written.\<close>

theorem serve_strict_rejects_scalar:
  assumes "length raw \<le> body_limit" and "strip_bom raw \<noteq> []"
    and "first_nonblank (strip_bom raw) \<notin> {Some (CHR ''{''), Some (CHR ''['')}"
  shows "serve skipped (HttpReq m p q True (Some raw)) werr now s = (BodyErrorPage 400 StrictViolation, s)"
  using assms by (simp add: serve_def json_middleware_def Let_def not_less)

theorem serve_strict_rejects_scalar_witness:
  "json_parse ''5'' = Some (JNum (Dec 5 0)) \<and>
   serve Undefined (HttpReq ''POST'' ''/update_properties'' [] True (Some ''5'')) None 0
     (init_state Map.empty ''/app'' ''/app'') = (BodyErrorPage 400 StrictViolation, init_state Map.empty ''/app'' ''/app'')"
proof
  show "json_parse ''5'' = Some (JNum (Dec 5 0))"
    by (simp add: json_parse_def pstep_def value_start_def is_json_ws_def lex_number_def lex_frac_def
        lex_exp_def js_simps norm_dec.simps)
  show "serve Undefined (HttpReq ''POST'' ''/update_properties'' [] True (Some ''5'')) None 0
     (init_state Map.empty ''/app'' ''/app'') = (BodyErrorPage 400 StrictViolation, init_state Map.empty ''/app'' ''/app'')"
    by (rule serve_strict_rejects_scalar) (simp_all add: body_limit_def strip_bom_def is_json_ws_def)
qed

text \<open>C18: A request with a JSON body is refused with 413 by the body parser, before any route and without any change of state, exactly when the body is longer than 52428800 bytes (body-parser's value of '50mb'); a body of exactly that length passes the size check.\<close>

theorem serve_413_iff:
  "serve skipped (HttpReq m p q True (Some raw)) werr now s = (BodyErrorPage 413 EntityTooLarge, s) \<longleftrightarrow>
     52428800 < length raw"
proof (cases "52428800 < length raw")
  case True
  then show ?thesis by (simp add: serve_def json_middleware_def body_limit_def)
next
  case False
  then have "json_middleware skipped True (Some raw) \<noteq> Rejected 413 EntityTooLarge"
    by (simp add: json_middleware_def body_limit_def Let_def split: option.splits)
  with False show ?thesis
    by (auto simp: serve_def handle_request_not_body_error_pair split: body_outcome.splits)
qed

theorem serve_413_iff_witness:
  "serve Undefined (HttpReq ''POST'' ''/update_properties'' [] True (Some (replicate 52428801 (CHR ''['')))) None 0
     (init_state Map.empty ''/app'' ''/app'') = (BodyErrorPage 413 EntityTooLarge, init_state Map.empty ''/app'' ''/app'')"
  by (subst serve_413_iff) simp

text \<open>C12: A POST /update_properties with a JSON body of at most 50 MB that starts with { or [ and parses to v, whose write succeeds, answers 200 echoing v and writes JSON.stringify(v, null, 4) to received_properties.json, and changes nothing else.\<close>

theorem serve_post_stores_body:
  assumes "length raw \<le> body_limit"
    and "first_nonblank (strip_bom raw) \<in> {Some (CHR ''{''), Some (CHR ''['')}"
    and "json_parse (strip_bom raw) = Some v"
  shows "serve skipped (HttpReq ''POST'' ''/update_properties'' q True (Some raw)) None now s =
           (Resp 200 (JObj [(''message'', JStr ''Properties updated successfully''), (''properties'', v)]),
            s\<lparr>fs := (fs s)(received_path s \<mapsto> \<lparr>content = json_stringify4 v, mtime = now, ctime = now,
                                          attr = file_attrs (fs s (received_path s))\<rparr>)\<rparr>)"
  using json_middleware_Parsed [OF assms] by (simp add: post_route_simps)

theorem serve_post_stores_body_witness:
  "serve Undefined (HttpReq ''POST'' ''/update_properties'' [] True (Some ''[]'')) None 7
     (init_state Map.empty ''/app'' ''/app'') =
   (Resp 200 (JObj [(''message'', JStr ''Properties updated successfully''), (''properties'', JArr [])]),
    (init_state Map.empty ''/app'' ''/app'')\<lparr>fs := (fs (init_state Map.empty ''/app'' ''/app''))
       (received_path (init_state Map.empty ''/app'' ''/app'') \<mapsto> \<lparr>content = json_stringify4 (JArr []), mtime = 7, ctime = 7,
          attr = file_attrs (fs (init_state Map.empty ''/app'' ''/app'') (received_path (init_state Map.empty ''/app'' ''/app'')))\<rparr>)\<rparr>)"
  by (rule serve_post_stores_body)
    (simp_all add: body_limit_def strip_bom_def is_json_ws_def json_parse_def pstep_def value_start_def)

text \<open>C24: A POST /update_properties without a JSON content type never reaches the parser: under Express 4 (body {}) it answers 200 and overwrites received_properties.json with {}, under Express 5 (body undefined) it answers 500.\<close>

theorem serve_post_not_json:
  "serve (Val (JObj [])) (HttpReq ''POST'' ''/update_properties'' q False body) None now s =
     (Resp 200 (JObj [(''message'', JStr ''Properties updated successfully''), (''properties'', JObj [])]),
      s\<lparr>fs := (fs s)(received_path s \<mapsto> \<lparr>content = ''{}'', mtime = now, ctime = now,
                                          attr = file_attrs (fs s (received_path s))\<rparr>)\<rparr>) \<and>
   status (fst (serve Undefined (HttpReq ''POST'' ''/update_properties'' q False body) None now s)) = 500"
  by (cases body)
    (simp_all add: serve_def json_middleware_def handle_request_def route_matches_def lower_ascii_def
      update_properties_def json_stringify4_def)

text \<open>C10: A POST /update_properties whose JSON body parses to v, with every number in binary64's finite range, writes a file that JSON.parse reads back as v, with its numbers in normal form and the members of each object in JSON.stringify's order (array-index keys first): nothing of the body is lost or altered by the write.\<close>

theorem serve_post_roundtrip:
  assumes "length raw \<le> body_limit"
    and "first_nonblank (strip_bom raw) \<in> {Some (CHR ''{''), Some (CHR ''['')}"
    and "json_parse (strip_bom raw) = Some v" and "json_finite v"
  shows "\<exists>e. fs (snd (serve skipped (HttpReq ''POST'' ''/update_properties'' q True (Some raw)) None now s))
                (received_path s) = Some e \<and> json_parse (content e) = Some (canon v)"
proof -
  have "wf_json v" using assms(3) by (rule json_parse_wf)
  then have "json_parse (json_stringify4 v) = Some (canon v)" by (rule json_parse_stringify4)
  then show ?thesis using json_middleware_Parsed [OF assms(1-3)]
    by (simp add: post_route_simps)
qed

theorem serve_post_roundtrip_witness:
  "\<exists>e. fs (snd (serve Undefined
          (HttpReq ''POST'' ''/update_properties'' [] True
             (Some (''{'' @ [CHR 0x22, CHR ''b'', CHR 0x22] @ '':1.50,'' @ [CHR 0x22, CHR ''7'', CHR 0x22] @ '':[true,null]}'')))
          None 0 (init_state Map.empty ''/app'' ''/app'')))
        (received_path (init_state Map.empty ''/app'' ''/app'')) = Some e \<and>
      json_parse (content e) =
        Some (JObj [(''7'', JArr [JBool True, JNull]), (''b'', JNum (Dec 15 (-1)))])"
proof -
  let ?raw = "''{'' @ [CHR 0x22, CHR ''b'', CHR 0x22] @ '':1.50,'' @ [CHR 0x22, CHR ''7'', CHR 0x22] @ '':[true,null]}''"
  have p: "json_parse (strip_bom ?raw) = Some (JObj [(''b'', JNum (Dec 15 (-1))), (''7'', JArr [JBool True, JNull])])"
    by (simp add: strip_bom_def json_parse_def pstep_def value_start_def is_json_ws_def lex_number_def lex_frac_def
        lex_exp_def js_simps norm_dec.simps)
  have c: "canon (JObj [(''b'', JNum (Dec 15 (-1))), (''7'', JArr [JBool True, JNull])]) =
             JObj [(''7'', JArr [JBool True, JNull]), (''b'', JNum (Dec 15 (-1)))]"
    by (simp add: own_keys_order_def array_index_def js_simps norm_dec.simps)
  show ?thesis
    using serve_post_roundtrip [OF _ _ p _, of Undefined "[]" 0 "init_state Map.empty ''/app'' ''/app''"] c
    by (simp add: body_limit_def strip_bom_def is_json_ws_def)
qed

text \<open>C32: The client of POST /update_properties gets its data back: for a body v whose numbers are in binary64's finite range, the 200 response, as res.json sends it (JSON.stringify of the object), is read by JSON.parse as the message and the body v, with v's numbers in normal form and its object members in JSON.stringify's order.\<close>

theorem serve_post_echo_roundtrip:
  assumes "length raw \<le> body_limit"
    and "first_nonblank (strip_bom raw) \<in> {Some (CHR ''{''), Some (CHR ''['')}"
    and "json_parse (strip_bom raw) = Some v" and "json_finite v"
  shows "\<exists>out. fst (serve skipped (HttpReq ''POST'' ''/update_properties'' q True (Some raw)) None now s) =
           Resp 200 out \<and>
         json_parse (json_stringify out) =
           Some (JObj [(''message'', JStr ''Properties updated successfully''), (''properties'', canon v)])"
proof -
  let ?out = "JObj [(''message'', JStr ''Properties updated successfully''), (''properties'', v)]"
  have "wf_json v" using assms(3) by (rule json_parse_wf)
  then have "json_parse (json_stringify ?out) = Some (canon ?out)"
    by (intro json_parse_stringify) simp
  moreover have "canon ?out = JObj [(''message'', JStr ''Properties updated successfully''), (''properties'', canon v)]"
    by (simp add: own_keys_order_def array_index_def is_digit_def)
  moreover have "fst (serve skipped (HttpReq ''POST'' ''/update_properties'' q True (Some raw)) None now s) = Resp 200 ?out"
    using json_middleware_Parsed [OF assms(1-3)] by (simp add: post_route_simps)
  ultimately show ?thesis by simp
qed

theorem serve_post_echo_roundtrip_witness:
  "\<exists>out. fst (serve Undefined (HttpReq ''POST'' ''/update_properties'' [] True (Some ''[1.0]'')) None 0
                (init_state Map.empty ''/app'' ''/app'')) = Resp 200 out \<and>
         json_parse (json_stringify out) =
           Some (JObj [(''message'', JStr ''Properties updated successfully''), (''properties'', JArr [JNum (Dec 1 0)])])"
proof -
  have p: "json_parse (strip_bom ''[1.0]'') = Some (JArr [JNum (Dec 1 0)])"
    by (simp add: strip_bom_def json_parse_def pstep_def value_start_def is_json_ws_def lex_number_def lex_frac_def
        lex_exp_def js_simps norm_dec.simps)
  have c: "canon (JArr [JNum (Dec 1 0)]) = JArr [JNum (Dec 1 0)]"
    by (simp add: norm_dec.simps)
  show ?thesis
    using serve_post_echo_roundtrip [OF _ _ p _, of Undefined "[]" 0 "init_state Map.empty ''/app'' ''/app''"] c
    by (simp add: body_limit_def strip_bom_def is_json_ws_def)
qed

end
