(* ===== verification/Spec2Isabelle.thy ===== *)
theory Spec2Isabelle
  imports Express
begin

text \<open>
  \<^bold>\<open>A verification development of the property server of c-ent/API-Test-Answer.\<close>
  The program is one file, src/server.js: an Express application that holds a snapshot
  of property records in memory (\<open>snapshotData\<close>, line 7), loads it from
  data/snapshots/day_2.json at startup and whenever Node's stat watcher reports a change
  (\<open>loadData\<close>, lines 12--21; \<open>fs.watchFile\<close>, lines 27--33), parses every request body
  with \<open>express.json\<close> (line 36), answers \<open>GET /properties_within_radius\<close> with the
  records within 65 miles of a point (lines 52--70), and writes the body of
  \<open>POST /update_properties\<close> to received_properties.json (lines 41--49). The parts
  interact only through \<open>snapshotData\<close> (written by \<open>loadData\<close>, read by the radius
  handler) and the file system (written by another process and by the POST handler, read
  by \<open>loadData\<close>).

  \<^bold>\<open>Theories.\<close>
  \<^item> Prelude: association lists as JavaScript objects (\<open>al_put\<close>), list facts, the
    rule collections \<open>js_simps\<close> and \<open>handler_simps\<close>.
  \<^item> Json: JSON values (\<open>json\<close>, numbers as exact decimals \<open>dec\<close>), well-formedness
    (\<open>wf_json\<close>: no repeated member name), the errors a JavaScript program raises
    (\<open>js_error\<close>), \<open>undefined\<close> (\<open>jsval\<close>), member access \<open>get_member\<close>.
  \<^item> Js_Builtins: \<open>parseFloat\<close>, truthiness and the string conversion of query values.
  \<^item> Json_Parse: \<open>JSON.parse\<close> as a terminating lexer (\<open>lex\<close>) and a push-down automaton
    (\<open>pstep\<close>, \<open>parse_tokens\<close>), Node's \<open>stripBOM\<close>; every parsed value is well formed.
  \<^item> Json_Print: \<open>JSON.stringify(v, null, 4)\<close> (\<open>json_stringify4\<close>) and \<open>JSON.stringify(v)\<close>
    (\<open>json_stringify\<close>, the body \<open>res.json\<close> sends).
  \<^item> Json_Roundtrip: \<open>JSON.parse\<close> reads back what \<open>JSON.stringify\<close> writes
    (\<open>json_parse (json_stringify4 v) = Some (canon v)\<close> for well-formed \<open>v\<close>).
  \<^item> Http: responses (\<open>response\<close>, \<open>status\<close>) and \<open>Array.prototype.filter\<close> with a
    throwing callback (\<open>js_filter\<close>).
  \<^item> Distance: geolib's \<open>getDistance\<close> as the Distance Function of the specification
    (section 4.2): the great-circle distance by the spherical law of cosines (\<open>great_circle\<close>,
    mean radius 6371000 m), NaN (\<open>None\<close>) for a coordinate that is not a finite number.
  \<^item> Radius_Query: the radius handler (\<open>properties_within_radius\<close>) and its callback
    (\<open>within_radius\<close>), calling \<open>getDistance\<close> as line 60 does; the specification's
    query (\<open>radius_query_spec\<close>) over real coordinates; the records and query of the
    scenarios of section 8.
  \<^item> Store: the module state as the record \<open>server\<close> (the file system with each
    file's content, times and inode attributes, the require cache, Node's resolution cache
    \<open>resolved\<close>, \<open>snapshotData\<close>, the error log, the watcher's state); \<open>loadData\<close> as
    one function and as its four system calls (\<open>load_step\<close>: existsSync, statSync,
    require.resolve with the cache deletion, require); \<open>js_require\<close>; the watcher
    (\<open>poll_change\<close>, \<open>poll_quiet\<close>, \<open>watch_listener\<close>, \<open>poll\<close>) after libuv's
    \<open>uv_fs_poll\<close> and Node's \<open>StatWatcher\<close>, with the fresh \<open>Date\<close> objects that
    line 29 compares: the first successful stat only records a baseline, a failed stat
    (a missing file) calls the listener unless the previous stat failed too; startup;
    \<open>reload()\<close> of the specification (\<open>spec_reload\<close>).
  \<^item> Server: the POST handler (\<open>update_properties\<close>), routing (\<open>handle_request\<close>), and
    the process as the inductive step relation \<open>sys_step\<close> on \<open>proc\<close> (serving, inside
    \<open>loadData\<close> before a given system call, or crashed), with events for requests, polls,
    system calls and writes by another process; runs are lists of steps (\<open>steps\<close>).
  \<^item> Express: the body parser of line 36 (\<open>json_middleware\<close>: the 50 MB limit, strict
    mode, byte-order mark, empty body, non-JSON content types) and the pipeline \<open>serve\<close>
    that runs it before the routes.
  \<^item> Spec2Isabelle (this theory): properties that span the components.

  \<^bold>\<open>What is proved.\<close>
  Distance: symmetric, zero on equal points, a number between 0 and half the circumference
  on numeric coordinates. Radius_Query: the handler refines the specification's query on
  records with numeric coordinates and a numeric centre; the callback keeps a record exactly
  at distance \<open>\<le> 65 / 0.000621371\<close> metres; a null record always gives 500; 400 exactly
  when a parameter is missing or empty; a centre that is not numeric gives an empty list;
  a parameter whose string conversion throws (an object with its own \<open>toString\<close>, which
  Express 4's query parser builds) gives 500; a 200 lists a subsequence of the snapshot; a
  snapshot that is not an array gives 500. Store: \<open>loadData\<close> on every branch (decodes
  and replaces, keeps the old snapshot and logs once on a decode error, changes nothing for
  a missing or empty file, is idempotent) and as a refinement of \<open>reload()\<close> on files
  that hold an array or no JSON at all; every call of the listener reloads, whatever
  field of the stat changed. Server: along every interleaved run \<open>snapshotData\<close> is
  the initial empty array or the full decoding of the file in some earlier state (rule
  induction over \<open>sys_step\<close>); a delete between existsSync and statSync crashes the
  process; a poll and four system calls bring a change into service; a write after
  startup's read and before the watcher's baseline stat is never loaded (every later poll
  is idle); requests never touch the snapshot; the POST handler's frame and status; 404
  exactly off the routes (OPTIONS on a route is answered 200 by the router). Express: a
  malformed or scalar JSON body is refused with 400 on every route, 413 exactly above
  52428800 bytes, and a stored body whose numbers are in binary64's finite range
  (\<open>json_finite\<close>) is read back by \<open>JSON.parse\<close> as it was sent, and so is the echo
  in the response that \<open>res.json\<close> sends. This theory: startup followed by a radius query
  answers with the specification's query over the file's records, and with an empty list
  when there is no file.

  \<^bold>\<open>Bounds and fuel.\<close>
  Every function of the model is total: the JSON lexer, printer and \<open>canon\<close> terminate by
  length and size measures, the parser recurses on the token list, \<open>loadData\<close> is
  straight-line code. Runs of the process are finite lists of events; its liveness
  statements exhibit the run. The body limit is the number body-parser computes for
  \<open>'50mb'\<close>, 52428800 bytes.

  \<^bold>\<open>Not modelled.\<close>
  geolib itself: it is a library outside the repository whose version is not pinned, so
  \<open>getDistance\<close> is the Distance Function of the specification. geolib 3 evaluates the
  same formula but with a radius of 6378137 m, rounds to whole metres, and throws on an
  undefined or null coordinate where the model gives NaN; the radius properties are
  therefore stated for records with numeric coordinates (a null record throws in
  server.js itself, before geolib is called). Binary64 rounding: numbers are exact
  decimals and distances real numbers; \<open>JSON.parse\<close> rounds a literal to the nearest
  double and turns one beyond the finite range into Infinity, which \<open>JSON.stringify\<close>
  writes as null, so the round-trip theorems assume \<open>json_finite\<close>, and digits beyond a
  double's precision are kept by the model; white space other than ASCII in \<open>parseFloat\<close>; the body parser's charset check
  (415) and the decoding of non-UTF-8 bytes (strings are byte strings); \<open>app.listen\<close> and
  \<open>console.log\<close> (pure I/O); timing of the stat watcher (a poll, the baseline stat
  included, is an event that may happen at any time the process is not inside
  \<open>loadData\<close>; the 5007 ms interval is not modelled).
\<close>

section \<open>End to end: startup, then a radius query\<close>

text \<open>C8: End to end: when the snapshot file holds a JSON array of records with numeric coordinates, every run that starts the server, performs the four system calls of the startup loadData and then serves GET /properties_within_radius with both parameters given and numeric answers 200 with exactly the file's records that the specification's radius query keeps, in file order.\<close>

theorem boot_then_radius_query:
  assumes "f (snapshotPath (init_state f dir wd)) = Some e" and "content e \<noteq> []"
    and "json_parse (strip_bom (content e)) = Some (JArr xs)"
    and "\<forall>r \<in> set xs. record_coordinate r \<noteq> None"
    and "truthy (map_of q ''latitude'')" and "truthy (map_of q ''longitude'')"
    and "query_center q = Inr (Fin c, Fin d)"
    and "steps (boot f dir wd) tr"
    and "map fst tr = [LoadStep, LoadStep, LoadStep, LoadStep,
                       Request (Req ''GET'' ''/properties_within_radius'' q b) resp]"
  shows "resp = Resp 200 (JObj [(''propertiesWithinRadius'',
           JArr (radius_query_spec (dec_val c, dec_val d) xs))])"
proof -
  obtain p1 p2 p3 p4 p5 where tr:
    "tr = [(LoadStep, p1), (LoadStep, p2), (LoadStep, p3), (LoadStep, p4),
           (Request (Req ''GET'' ''/properties_within_radius'' q b) resp, p5)]"
    using assms(9) by (auto simp: map_eq_Cons_conv)
  with assms(8) have run: "steps (boot f dir wd) [(LoadStep, p1), (LoadStep, p2), (LoadStep, p3), (LoadStep, p4)]"
    and req: "sys_step p4 (Request (Req ''GET'' ''/properties_within_radius'' q b) resp) p5"
    by simp_all
  obtain s where s: "p4 = Running s" and data: "snapshotData s = JArr xs"
    using boot_load_path [OF assms(1-3) run] by blast
  from req s obtain werr now s' where
    "handle_request (Req ''GET'' ''/properties_within_radius'' q b) werr now s = (resp, s')"
    by (auto simp: sys_step_request_simps)
  then have "resp = properties_within_radius (JArr xs) q"
    by (simp add: handle_request_def route_matches_def lower_ascii_def data)
  with assms(4-7) show ?thesis
    by (simp add: properties_within_radius_spec_core)
qed

theorem boot_then_radius_query_witness:
  "\<exists>tr resp. steps (boot ny_file ''/app'' ''/app'') tr \<and>
     map fst tr = [LoadStep, LoadStep, LoadStep, LoadStep,
       Request (Req ''GET'' ''/properties_within_radius'' ny_query Undefined) resp] \<and>
     resp = Resp 200 (JObj [(''propertiesWithinRadius'', JArr [ny_record])])"
proof -
  let ?r = "Req ''GET'' ''/properties_within_radius'' ny_query Undefined"
  obtain p1 p2 p3 s where run:
    "steps (boot ny_file ''/app'' ''/app'') [(LoadStep, p1), (LoadStep, p2), (LoadStep, p3), (LoadStep, Running s)]"
    using boot_load_exists [where f = ny_file and dir = "''/app''" and wd = "''/app''", OF ny_file_snapshot] by auto
  have "sys_step (Running s) (Request ?r (fst (handle_request ?r None 0 s))) (Running (snd (handle_request ?r None 0 s)))"
    by (rule sys_step.request) simp
  with run have tr: "steps (boot ny_file ''/app'' ''/app'')
      [(LoadStep, p1), (LoadStep, p2), (LoadStep, p3), (LoadStep, Running s),
       (Request ?r (fst (handle_request ?r None 0 s)), Running (snd (handle_request ?r None 0 s)))]"
    by simp
  have "fst (handle_request ?r None 0 s) =
          Resp 200 (JObj [(''propertiesWithinRadius'', JArr (radius_query_spec (dec_val (Dec 407 (-1)), dec_val (Dec (-74) 0)) [ny_record]))])"
    by (rule boot_then_radius_query [where f = ny_file and dir = "''/app''" and wd = "''/app''", OF ny_file_snapshot _ ny_query_truthy ny_query_center tr])
      (simp_all add: record_coordinate_def ny_record_def)
  moreover have "radius_query_spec (dec_val (Dec 407 (-1)), dec_val (Dec (-74) 0)) [ny_record] = [ny_record]"
    by (simp add: radius_query_spec_def record_coordinate_def ny_record_def del: great_circle.simps)
  ultimately show ?thesis using tr by fastforce
qed

text \<open>C31: Scenario of section 8, empty snapshot: when no snapshot file exists, the run that starts the server (one system call: existsSync is false) and then serves GET /properties_within_radius with both parameters given answers 200 with an empty list.\<close>

theorem boot_no_file_radius_query:
  assumes "f (snapshotPath (init_state f dir wd)) = None"
    and "truthy (map_of q ''latitude'')" and "truthy (map_of q ''longitude'')"
    and "steps (boot f dir wd) tr"
    and "map fst tr = [LoadStep, Request (Req ''GET'' ''/properties_within_radius'' q b) resp]"
  shows "resp = Resp 200 (JObj [(''propertiesWithinRadius'', JArr [])])"
proof -
  obtain p1 p2 where tr: "tr = [(LoadStep, p1), (Request (Req ''GET'' ''/properties_within_radius'' q b) resp, p2)]"
    using assms(5) by (auto simp: map_eq_Cons_conv)
  with assms(1,4) have "p1 = Running (finish_load True (init_state f dir wd))"
    and req: "sys_step p1 (Request (Req ''GET'' ''/properties_within_radius'' q b) resp) p2"
    by (auto simp: boot_def sys_step_load_simps domIff)
  then obtain werr now s' where
    "handle_request (Req ''GET'' ''/properties_within_radius'' q b) werr now (finish_load True (init_state f dir wd)) = (resp, s')"
    by (auto simp: sys_step_request_simps)
  then have "resp = properties_within_radius (JArr []) q"
    by (simp add: handle_request_def route_matches_def lower_ascii_def init_state_def)
  with assms(2,3) show ?thesis by (simp add: properties_within_radius_def)
qed

theorem boot_no_file_radius_query_witness:
  "\<exists>tr resp. steps (boot Map.empty ''/app'' ''/app'') tr \<and>
     map fst tr = [LoadStep, Request (Req ''GET'' ''/properties_within_radius'' ny_query Undefined) resp] \<and>
     resp = Resp 200 (JObj [(''propertiesWithinRadius'', JArr [])])"
proof -
  let ?r = "Req ''GET'' ''/properties_within_radius'' ny_query Undefined"
  let ?s = "finish_load True (init_state Map.empty ''/app'' ''/app'')"
  have tr: "steps (boot Map.empty ''/app'' ''/app'')
      [(LoadStep, Running ?s), (Request ?r (fst (handle_request ?r None 0 ?s)), Running (snd (handle_request ?r None 0 ?s)))]"
    by (simp add: boot_def sys_step_load_simps sys_step.request)
  have "fst (handle_request ?r None 0 ?s) = Resp 200 (JObj [(''propertiesWithinRadius'', JArr [])])"
    by (rule boot_no_file_radius_query [OF _ ny_query_truthy tr]) simp_all
  with tr show ?thesis by fastforce
qed

end
